(* ===== verification/Prelude.thy ===== *)
theory Prelude
  imports Main "HOL-Library.AList" "HOL-Library.Char_ord"
begin

text \<open>
  Shared vocabulary of the development: the exceptions the Python code raises and
  catches, with the subclass tests its \<open>except\<close> clauses perform; Python's string and
  dictionary operations on the types the model uses for them; decimal numerals; and
  the generic lemmas about all of these that the component theories rely on.

  A Python \<open>str\<close> or \<open>bytes\<close> is a \<^typ>\<open>string\<close>: the code points (bytes) below 256.
  A \<open>dict\<close> with string keys is an association list in insertion order;
  \<^const>\<open>AList.update\<close> overwrites in place or appends and \<^const>\<open>AList.delete\<close> removes,
  which is what \<open>d[k] = v\<close> and \<open>d.pop(k)\<close> do to the iteration order.
\<close>

section \<open>Proof collections\<close>

named_theorems py_str \<open>facts about Python string operations\<close>
named_theorems py_dict \<open>facts about Python dictionary operations\<close>

section \<open>Exceptions\<close>

datatype errno = EPERM | ENOENT | ESRCH | EINTR | EIO | EBADF | ECHILD | EPIPE | Eother nat

datatype py_exc =
    ValueError string
  | KeyError string
  | TypeError string
  | AttributeError string
  | IndexError
  | NotImplementedError
  | RuntimeError string
  | StopIteration
  | ImportError
  | OSErrno errno
  | IOErr string
  | PlainException string
  | CommandResponseExc bool string bool "string option"
  | SDaemonError string
  | StorletDaemonLoadError string
  | SBusClientIOError
  | SBusClientSendError
  | SBusClientMalformedResponse
  | StorletRuntimeException string
  | StorletTimeout
  | EventletTimeout
  | FileManagementError string
  | StorletGatewayLoadError string
  | StorletLoggerError string
  | HTTPException int string
  | NotStorletRequest
  | NotStorletExecution
  | SystemExit int
  | Diverges

type_synonym 'a res = "py_exc + 'a"

text \<open>
  \<open>except C\<close> catches the subclasses of \<open>C\<close>: \<open>IOError\<close> is \<open>OSError\<close> in Python 3,
  \<open>StorletTimeout\<close> derives from \<open>StorletRuntimeException\<close>, \<open>SBusClientIOError\<close> from
  both \<open>SBusClientException\<close> and \<open>IOError\<close>; eventlet's plain \<open>Timeout\<close> and
  \<open>SystemExit\<close> are not subclasses of \<open>Exception\<close>. \<open>Diverges\<close> is no exception of the
  program: it is the result of a loop that never ends, and no \<open>except\<close> clause catches it.
\<close>

definition is_OSError :: "py_exc \<Rightarrow> bool" where
  "is_OSError e = (case e of OSErrno _ \<Rightarrow> True | IOErr _ \<Rightarrow> True | SBusClientIOError \<Rightarrow> True
     | StorletLoggerError _ \<Rightarrow> True | _ \<Rightarrow> False)"

definition is_ValueError :: "py_exc \<Rightarrow> bool" where
  "is_ValueError e = (case e of ValueError _ \<Rightarrow> True | _ \<Rightarrow> False)"

definition is_SDaemonError :: "py_exc \<Rightarrow> bool" where
  "is_SDaemonError e = (case e of SDaemonError _ \<Rightarrow> True | _ \<Rightarrow> False)"

definition is_SBusClientException :: "py_exc \<Rightarrow> bool" where
  "is_SBusClientException e = (e \<in> {SBusClientIOError, SBusClientSendError, SBusClientMalformedResponse})"

definition is_StorletRuntimeException :: "py_exc \<Rightarrow> bool" where
  "is_StorletRuntimeException e = (case e of StorletRuntimeException _ \<Rightarrow> True
     | StorletTimeout \<Rightarrow> True | _ \<Rightarrow> False)"

definition is_Exception :: "py_exc \<Rightarrow> bool" where
  "is_Exception e = (case e of EventletTimeout \<Rightarrow> False | SystemExit _ \<Rightarrow> False
     | Diverges \<Rightarrow> False | _ \<Rightarrow> True)"

lemmas exc_defs = is_OSError_def is_ValueError_def is_SDaemonError_def
  is_SBusClientException_def is_StorletRuntimeException_def is_Exception_def

text \<open>Sequencing of fallible steps: the first exception ends the computation.\<close>

definition rbind :: "'a res \<Rightarrow> ('a \<Rightarrow> 'b res) \<Rightarrow> 'b res" where
  "rbind r f = (case r of Inl e \<Rightarrow> Inl e | Inr x \<Rightarrow> f x)"

lemma rbind_simps [simp]: "rbind (Inl e) f = Inl e" "rbind (Inr x) f = f x"
  by (simp_all add: rbind_def)

lemma rbind_Inr_iff: "rbind r f = Inr y \<longleftrightarrow> (\<exists>x. r = Inr x \<and> f x = Inr y)"
  by (cases r) auto

fun mapM :: "('a \<Rightarrow> 'b res) \<Rightarrow> 'a list \<Rightarrow> 'b list res" where
  "mapM f [] = Inr []"
| "mapM f (x # xs) = rbind (f x) (\<lambda>y. rbind (mapM f xs) (\<lambda>ys. Inr (y # ys)))"

lemma mapM_Inr_map: "(\<And>x. x \<in> set xs \<Longrightarrow> f x = Inr (g x)) \<Longrightarrow> mapM f xs = Inr (map g xs)"
  by (induction xs) auto

lemma mapM_Inl: "mapM f xs = Inl e \<Longrightarrow> \<exists>x \<in> set xs. f x = Inl e"
  by (induction xs) (auto simp: rbind_def split: sum.splits)

lemma mapM_length: "mapM f xs = Inr ys \<Longrightarrow> length ys = length xs"
  by (induction xs arbitrary: ys) (auto simp: rbind_Inr_iff)

lemma mapM_set: "mapM f xs = Inr ys \<Longrightarrow> y \<in> set ys \<Longrightarrow> \<exists>x \<in> set xs. f x = Inr y"
  by (induction xs arbitrary: ys) (auto simp: rbind_Inr_iff)

section \<open>Strings\<close>

definition startswith :: "string \<Rightarrow> string \<Rightarrow> bool" where
  "startswith s p \<longleftrightarrow> take (length p) s = p"

definition endswith :: "string \<Rightarrow> string \<Rightarrow> bool" where
  "endswith s p \<longleftrightarrow> length p \<le> length s \<and> drop (length s - length p) s = p"

text \<open>\<open>str.lower\<close> on the code points below 256: the ASCII and the Latin-1 capitals.\<close>

definition lower_char :: "char \<Rightarrow> char" where
  "lower_char c = (let n = of_char c :: nat in
     if (65 \<le> n \<and> n \<le> 90) \<or> (192 \<le> n \<and> n \<le> 222 \<and> n \<noteq> 215) then char_of (n + 32) else c)"

definition lower :: "string \<Rightarrow> string" where
  "lower s = map lower_char s"

definition is_space :: "char \<Rightarrow> bool" where
  "is_space c = (let n = of_char c :: nat in
     (9 \<le> n \<and> n \<le> 13) \<or> (28 \<le> n \<and> n \<le> 32) \<or> n = 133 \<or> n = 160)"

definition strip :: "string \<Rightarrow> string" where
  "strip s = rev (dropWhile is_space (rev (dropWhile is_space s)))"

definition rstrip :: "string \<Rightarrow> string" where
  "rstrip s = rev (dropWhile is_space (rev s))"

text \<open>\<open>s.split(c)\<close> for a one-character separator, and \<open>c.join(ws)\<close>.\<close>

fun split_on :: "char \<Rightarrow> string \<Rightarrow> string list" where
  "split_on c [] = [[]]"
| "split_on c (x # xs) = (if x = c then [] # split_on c xs
     else (case split_on c xs of [] \<Rightarrow> [[x]] | w # ws \<Rightarrow> (x # w) # ws))"

fun join_with :: "string \<Rightarrow> string list \<Rightarrow> string" where
  "join_with sep [] = []"
| "join_with sep [w] = w"
| "join_with sep (w # v # ws) = w @ sep @ join_with sep (v # ws)"

text \<open>\<open>s.partition(c)\<close> for a one-character separator.\<close>

fun partition_on :: "char \<Rightarrow> string \<Rightarrow> string \<times> string \<times> string" where
  "partition_on c [] = ([], [], [])"
| "partition_on c (x # xs) = (if x = c then ([], [c], xs)
     else (let (a, b, r) = partition_on c xs in (x # a, b, r)))"

text \<open>\<open>os.path.join\<close> of two components.\<close>

definition path_join :: "string \<Rightarrow> string \<Rightarrow> string" where
  "path_join a b = (if startswith b ''/'' then b
     else if a = [] \<or> endswith a ''/'' then a @ b else a @ ''/'' @ b)"

lemma split_on_not_Nil [simp]: "split_on c s \<noteq> []"
  by (induction s) (auto split: list.splits)

lemma join_split_on [py_str]: "join_with [c] (split_on c s) = s"
proof (induction s)
  case (Cons x xs)
  then show ?case
    by (cases "split_on c xs" rule: list.exhaust) (auto split: list.splits, (cases "tl (split_on c xs)"; auto)+)
qed simp

lemma split_on_no_sep [py_str]: "c \<notin> set w \<Longrightarrow> split_on c w = [w]"
  by (induction w) auto

lemma split_on_append_sep [py_str]:
  "c \<notin> set w \<Longrightarrow> split_on c (w @ c # s) = w # split_on c s"
  by (induction w) auto

lemma split_join_on [py_str]:
  "ws \<noteq> [] \<Longrightarrow> \<forall>w \<in> set ws. c \<notin> set w \<Longrightarrow> split_on c (join_with [c] ws) = ws"
  by (induction "[c]" ws rule: join_with.induct) (auto simp: split_on_no_sep split_on_append_sep)

lemma split_on_parts_no_sep [py_str]: "w \<in> set (split_on c s) \<Longrightarrow> c \<notin> set w"
  by (induction s arbitrary: w) (auto split: if_splits list.splits)

lemma partition_on_append [py_str]:
  "partition_on c s = (a, b, r) \<Longrightarrow> s = a @ b @ r"
  by (induction s arbitrary: a b r) (auto split: if_splits prod.splits)

lemma partition_on_sep [py_str]:
  "partition_on c s = (a, b, r) \<Longrightarrow> c \<notin> set a \<and> b = (if c \<in> set s then [c] else [])"
  by (induction s arbitrary: a b r) (auto split: if_splits prod.splits)

lemma startswith_append [simp]: "startswith (p @ s) p"
  by (simp add: startswith_def)

lemma startswith_iff: "startswith s p \<longleftrightarrow> (\<exists>r. s = p @ r)"
  unfolding startswith_def by (metis append_take_drop_id append_eq_conv_conj)

lemma length_lower [simp]: "length (lower s) = length s"
  by (simp add: lower_def)

section \<open>Encodings\<close>

text \<open>\<open>str.encode('utf-8')\<close> and \<open>bytes.decode('utf-8')\<close> on the code points below 256, and
  the text a C string pointer shows (up to the first NUL).\<close>

definition utf8_encode :: "string \<Rightarrow> string" where
  "utf8_encode s = concat (map (\<lambda>c. let n = of_char c :: nat in
     if n < 128 then [c] else [char_of (192 + n div 64), char_of (128 + n mod 64)]) s)"

fun utf8_decode :: "string \<Rightarrow> string res" where
  "utf8_decode [] = Inr []"
| "utf8_decode (b # bs) = (let n = of_char b :: nat in
     if n < 128 then rbind (utf8_decode bs) (\<lambda>t. Inr (b # t))
     else (case bs of
         [] \<Rightarrow> Inl (ValueError ''codec can't decode'')
       | b' # bs' \<Rightarrow> (let m = of_char b' :: nat in
           if n \<in> {194, 195} \<and> 128 \<le> m \<and> m < 192
           then rbind (utf8_decode bs') (\<lambda>t. Inr (char_of (64 * (n - 192) + (m - 128)) # t))
           else Inl (ValueError ''codec can't decode''))))"

definition cstr :: "string \<Rightarrow> string" where
  "cstr s = takeWhile (\<lambda>c. c \<noteq> CHR 0x00) s"

lemma of_char_less [simp]: "(of_char c :: nat) < 256"
  by (metis of_char_of mod_less_divisor char_of_char zero_less_numeral)

lemma of_char_inj: "(of_char c :: nat) = of_char d \<Longrightarrow> c = d"
  by (metis char_of_char)

lemma utf8_encode_ascii: "\<forall>c \<in> set s. (of_char c :: nat) < 128 \<Longrightarrow> utf8_encode s = s"
  by (induction s) (auto simp: utf8_encode_def)

lemma utf8_round: "utf8_decode (utf8_encode s) = Inr s"
proof (induction s)
  case (Cons c s)
  let ?n = "of_char c :: nat"
  show ?case
  proof (cases "?n < 128")
    case False
    have "?n div 64 < 4" using of_char_less [of c] by (simp add: less_mult_imp_div_less)
    moreover have "2 \<le> ?n div 64" using div_le_mono [of 128 ?n 64] False by simp
    ultimately have "192 + ?n div 64 = 194 \<or> 192 + ?n div 64 = 195" "(192 + ?n div 64) mod 256 = 192 + ?n div 64"
      by (linarith, intro mod_less, linarith)
    moreover have "(128 + ?n mod 64) mod 256 = 128 + ?n mod 64" "128 + ?n mod 64 < 192" by simp_all
    moreover have "char_of (64 * (?n div 64) + ?n mod 64) = c" by simp
    ultimately show ?thesis using False Cons by (auto simp: utf8_encode_def Let_def)
  qed (use Cons in \<open>simp add: utf8_encode_def\<close>)
qed (simp add: utf8_encode_def)

lemma cstr_id: "\<forall>c \<in> set s. c \<noteq> CHR 0x00 \<Longrightarrow> cstr s = s"
  by (simp add: cstr_def)

section \<open>Decimal numerals\<close>

definition is_digit :: "char \<Rightarrow> bool" where
  "is_digit c = (let n = of_char c :: nat in 48 \<le> n \<and> n \<le> 57)"

definition digit_char :: "nat \<Rightarrow> char" where
  "digit_char d = char_of (48 + d)"

definition digit_val :: "char \<Rightarrow> nat" where
  "digit_val c = of_char c - 48"

definition digits_val :: "string \<Rightarrow> nat" where
  "digits_val s = foldl (\<lambda>a c. 10 * a + digit_val c) 0 s"

text \<open>\<open>str(n)\<close> of a Python integer.\<close>

fun nat_str :: "nat \<Rightarrow> string" where
  "nat_str n = (if n < 10 then [digit_char n] else nat_str (n div 10) @ [digit_char (n mod 10)])"

declare nat_str.simps [simp del]

definition int_str :: "int \<Rightarrow> string" where
  "int_str i = (if i < 0 then CHR ''-'' # nat_str (nat (- i)) else nat_str (nat i))"

lemma of_digit_char: "d < 10 \<Longrightarrow> (of_char (digit_char d) :: nat) = 48 + d"
  by (simp add: digit_char_def)

lemma digit_char_props [simp]:
  "d < 10 \<Longrightarrow> is_digit (digit_char d)" "d < 10 \<Longrightarrow> digit_val (digit_char d) = d"
  by (simp_all add: is_digit_def digit_val_def of_digit_char)

lemma nat_str_not_Nil [simp]: "nat_str n \<noteq> []"
  by (subst nat_str.simps) simp

lemma nat_str_digits: "c \<in> set (nat_str n) \<Longrightarrow> is_digit c"
proof (induction n rule: nat_str.induct)
  case (1 n)
  then show ?case by (cases "n < 10") (auto simp: nat_str.simps [of n])
qed

lemma digits_val_nat_str [simp]: "digits_val (nat_str n) = n"
proof (induction n rule: nat_str.induct)
  case (1 n)
  then show ?case
    by (cases "n < 10") (auto simp: nat_str.simps [of n] digits_val_def)
qed

lemma hd_nat_str_zero: "hd (nat_str n) = CHR ''0'' \<Longrightarrow> n = 0"
proof (induction n rule: nat_str.induct)
  case (1 n)
  show ?case
  proof (cases "n < 10")
    case True
    with 1 have "digit_val (digit_char n) = digit_val (CHR ''0'')" by (simp add: nat_str.simps [of n])
    with True show ?thesis by (simp add: digit_val_def of_digit_char)
  next
    case False
    with 1 show ?thesis by (simp add: nat_str.simps [of n])
  qed
qed

lemma nat_str_0 [simp]: "nat_str 0 = ''0''"
  by code_simp

text \<open>\<open>int(s)\<close> of a Python string in base 10: surrounding white space, a sign, digits with
  single underscores between them.\<close>

fun digit_groups :: "bool \<Rightarrow> string \<Rightarrow> string option" where
  "digit_groups prev [] = (if prev then Some [] else None)"
| "digit_groups prev (c # s) =
     (if is_digit c then map_option (\<lambda>ds. c # ds) (digit_groups True s)
      else if c = CHR ''_'' \<and> prev then digit_groups False s
      else None)"

definition py_int :: "string \<Rightarrow> int res" where
  "py_int s = (let t = strip s;
       (neg, u) = (if t \<noteq> [] \<and> hd t = CHR ''-'' then (True, tl t)
                   else if t \<noteq> [] \<and> hd t = CHR ''+'' then (False, tl t) else (False, t)) in
     case digit_groups False u of
       None \<Rightarrow> Inl (ValueError ''invalid literal for int() with base 10'')
     | Some ds \<Rightarrow> Inr (if neg then - int (digits_val ds) else int (digits_val ds)))"

lemma digit_groups_digits: "ds \<noteq> [] \<or> prev \<Longrightarrow> \<forall>c \<in> set ds. is_digit c \<Longrightarrow> digit_groups prev ds = Some ds"
  by (induction prev ds rule: digit_groups.induct) auto

lemma digit_not_space: "is_digit c \<Longrightarrow> \<not> is_space c"
  by (auto simp: is_digit_def is_space_def Let_def)

lemma strip_id: "s \<noteq> [] \<Longrightarrow> \<not> is_space (hd s) \<Longrightarrow> \<not> is_space (last s) \<Longrightarrow> strip s = s"
proof -
  assume s: "s \<noteq> []" "\<not> is_space (hd s)" "\<not> is_space (last s)"
  then have "dropWhile is_space s = s" by (cases s) auto
  moreover have "dropWhile is_space (rev s) = rev s" using s by (cases s rule: rev_cases) auto
  ultimately show "strip s = s" by (simp add: strip_def)
qed

lemma py_int_int_str: "py_int (int_str i) = Inr i"
proof -
  have d: "\<forall>c \<in> set (nat_str n). is_digit c" for n using nat_str_digits by blast
  have h: "is_digit (hd (nat_str n))" "is_digit (last (nat_str n))" for n
    using d [of n] by simp_all
  have nm: "hd (nat_str n) \<noteq> CHR ''-''" "hd (nat_str n) \<noteq> CHR ''+''" for n
    using h(1) [of n] by (auto simp: is_digit_def)
  have "strip (int_str i) = int_str i"
    using h digit_not_space by (intro strip_id) (auto simp: int_str_def is_space_def)
  then show ?thesis
    using d nm by (auto simp: py_int_def int_str_def Let_def digit_groups_digits)
qed

section \<open>Dictionaries\<close>

type_synonym 'v dict = "(string \<times> 'v) list"

definition dict_get :: "'v dict \<Rightarrow> string \<Rightarrow> 'v option" where
  "dict_get d k = map_of d k"

definition dict_set :: "string \<Rightarrow> 'v \<Rightarrow> 'v dict \<Rightarrow> 'v dict" where
  "dict_set k v d = AList.update k v d"

definition dict_pop :: "string \<Rightarrow> 'v dict \<Rightarrow> 'v dict" where
  "dict_pop k d = AList.delete k d"

definition dict_has :: "'v dict \<Rightarrow> string \<Rightarrow> bool" where
  "dict_has d k = (k \<in> fst ` set d)"

definition dict_ok :: "'v dict \<Rightarrow> bool" where
  "dict_ok d = distinct (map fst d)"

text \<open>\<open>dict(pairs)\<close> and \<open>d.update(pairs)\<close>: later pairs overwrite, the position of the
  first occurrence of a key is kept.\<close>

definition dict_update :: "'v dict \<Rightarrow> 'v dict \<Rightarrow> 'v dict" where
  "dict_update d kvs = foldl (\<lambda>m (k, v). dict_set k v m) d kvs"

lemma dict_get_set [simp, py_dict]: "dict_get (dict_set k v d) k' = (if k' = k then Some v else dict_get d k')"
  by (simp add: dict_get_def dict_set_def update_conv')

lemma dict_get_pop [simp, py_dict]: "dict_get (dict_pop k d) k' = (if k' = k then None else dict_get d k')"
  by (simp add: dict_get_def dict_pop_def delete_conv')

lemma dict_get_Nil [simp]: "dict_get [] k = None"
  by (simp add: dict_get_def)

lemma dict_has_iff: "dict_has d k \<longleftrightarrow> dict_get d k \<noteq> None"
  by (simp add: dict_has_def dict_get_def map_of_eq_None_iff)

lemma dict_ok_set [simp, py_dict]: "dict_ok d \<Longrightarrow> dict_ok (dict_set k v d)"
  by (simp add: dict_ok_def dict_set_def distinct_update)

lemma dict_ok_pop [simp, py_dict]: "dict_ok d \<Longrightarrow> dict_ok (dict_pop k d)"
  by (simp add: dict_ok_def dict_pop_def distinct_delete)

lemma dict_ok_Nil [simp]: "dict_ok []"
  by (simp add: dict_ok_def)

lemma dict_set_fresh [py_dict]: "k \<notin> fst ` set d \<Longrightarrow> dict_set k v d = d @ [(k, v)]"
  unfolding dict_set_def by (induction d) auto

lemma dict_pop_fresh [py_dict]: "k \<notin> fst ` set d \<Longrightarrow> dict_pop k d = d"
  by (simp add: dict_pop_def delete_idem)

lemma dict_pop_set_fresh [py_dict]:
  "k \<notin> fst ` set d \<Longrightarrow> dict_pop k (dict_set k v d) = d"
  by (simp add: dict_pop_def dict_set_def delete_update_same delete_idem)

lemma dict_update_distinct_append:
  "distinct (map fst (d @ kvs)) \<Longrightarrow> dict_update d kvs = d @ kvs"
proof (induction kvs arbitrary: d)
  case (Cons kv kvs)
  obtain k v where kv: "kv = (k, v)" by (cases kv)
  from Cons.prems have fresh: "k \<notin> fst ` set d" by (auto simp: kv)
  have "dict_update d (kv # kvs) = dict_update (d @ [(k, v)]) kvs"
    by (simp add: dict_update_def kv dict_set_fresh [OF fresh])
  also have "\<dots> = (d @ [(k, v)]) @ kvs"
    by (rule Cons.IH) (use Cons.prems in \<open>simp add: kv\<close>)
  finally show ?case by (simp add: kv)
qed (simp add: dict_update_def)

lemma dict_update_Nil_ok [simp, py_dict]: "dict_ok kvs \<Longrightarrow> dict_update [] kvs = kvs"
  using dict_update_distinct_append [of "[]" kvs] by (simp add: dict_ok_def)

lemma dict_ok_update: "dict_ok d \<Longrightarrow> dict_ok (dict_update d kvs)"
  unfolding dict_update_def by (induction kvs arbitrary: d) (auto split: prod.splits)

end
