(* ===== verification/Json.thy ===== *)
theory Json
  imports Prelude
begin

text \<open>
  The part of Python's \<open>json\<close> module the system uses: \<open>json.dumps(v)\<close> with its default
  separators and \<open>ensure_ascii\<close>, and \<open>json.loads(s)\<close>. Every message on the SBus, every
  command response and the metadata a storlet returns travels as text produced and
  read by these two functions. Floating point literals are read (and kept as their
  text) but never sent by the code. A \<open>\u\<close> escape above \<open>00ff\<close> has no counterpart in
  the model's strings and is refused.

  Main results: \<open>loads (dumps v)\<close> gives back \<open>v\<close>; \<open>dumps v\<close> is printable ASCII,
  so the number of characters the sender puts in the message header is the number of
  bytes on the wire; the fuel of the reader is never the reason for an error.
\<close>

section \<open>Values\<close>

datatype json =
    JNull
  | JBool bool
  | JInt int
  | JFloat string
  | JStr string
  | JList "json list"
  | JObj "(string \<times> json) list"

abbreviation dquote :: char where "dquote \<equiv> CHR 0x22"
abbreviation bslash :: char where "bslash \<equiv> CHR 0x5C"

text \<open>Python's truth value of a decoded value. A float literal is false when all its
  digits before an exponent are zero.\<close>

fun truthy :: "json \<Rightarrow> bool" where
  "truthy JNull = False"
| "truthy (JBool b) = b"
| "truthy (JInt i) = (i \<noteq> 0)"
| "truthy (JFloat s) = list_ex (\<lambda>c. c \<notin> set ''-.0'') (takeWhile (\<lambda>c. c \<notin> set ''eE'') s)"
| "truthy (JStr s) = (s \<noteq> [])"
| "truthy (JList vs) = (vs \<noteq> [])"
| "truthy (JObj kvs) = (kvs \<noteq> [])"

text \<open>\<open>j[k]\<close>, \<open>j.get(k)\<close> and \<open>len(j)\<close> for a string key: only a dict accepts one.\<close>

fun jgetitem :: "json \<Rightarrow> string \<Rightarrow> json res" where
  "jgetitem (JObj d) k = (case dict_get d k of None \<Rightarrow> Inl (KeyError k) | Some v \<Rightarrow> Inr v)"
| "jgetitem _ k = Inl (TypeError ''not subscriptable with a str'')"

fun jget :: "json \<Rightarrow> string \<Rightarrow> json res" where
  "jget (JObj d) k = Inr (case dict_get d k of None \<Rightarrow> JNull | Some v \<Rightarrow> v)"
| "jget _ k = Inl (AttributeError ''get'')"

text \<open>\<open>str(v)\<close> of a value; containers are left out, the sources only print scalars.\<close>

fun str_of_json :: "json \<Rightarrow> string" where
  "str_of_json JNull = ''None''"
| "str_of_json (JBool b) = (if b then ''True'' else ''False'')"
| "str_of_json (JInt i) = int_str i"
| "str_of_json (JFloat s) = s"
| "str_of_json (JStr s) = s"
| "str_of_json _ = []"

section \<open>Writing\<close>

definition hex_digit :: "nat \<Rightarrow> char" where
  "hex_digit d = (if d < 10 then char_of (48 + d) else char_of (87 + d))"

definition esc_char :: "char \<Rightarrow> string" where
  "esc_char c = (let n = of_char c :: nat in
     if c = bslash then [bslash, bslash]
     else if c = dquote then [bslash, dquote]
     else if 32 \<le> n \<and> n \<le> 126 then [c]
     else if n = 8 then [bslash, CHR ''b'']
     else if n = 12 then [bslash, CHR ''f'']
     else if n = 10 then [bslash, CHR ''n'']
     else if n = 13 then [bslash, CHR ''r'']
     else if n = 9 then [bslash, CHR ''t'']
     else [bslash, CHR ''u'', CHR ''0'', CHR ''0'', hex_digit (n div 16), hex_digit (n mod 16)])"

definition dump_str :: "string \<Rightarrow> string" where
  "dump_str s = dquote # concat (map esc_char s) @ [dquote]"

fun dumps :: "json \<Rightarrow> string" where
  "dumps JNull = ''null''"
| "dumps (JBool b) = (if b then ''true'' else ''false'')"
| "dumps (JInt i) = int_str i"
| "dumps (JFloat s) = s"
| "dumps (JStr s) = dump_str s"
| "dumps (JList vs) = ''['' @ join_with '', '' (map dumps vs) @ '']''"
| "dumps (JObj kvs) = ''{'' @ join_with '', '' (map (\<lambda>(k, v). dump_str k @ '': '' @ dumps v) kvs) @ ''}''"

section \<open>Reading\<close>

definition skip_ws :: "string \<Rightarrow> string" where
  "skip_ws s = dropWhile (\<lambda>c. c \<in> {CHR '' '', CHR 0x09, CHR 0x0A, CHR 0x0D}) s"

definition hex_val :: "char \<Rightarrow> nat option" where
  "hex_val c = (let n = of_char c :: nat in
     if 48 \<le> n \<and> n \<le> 57 then Some (n - 48)
     else if 97 \<le> n \<and> n \<le> 102 then Some (n - 87)
     else if 65 \<le> n \<and> n \<le> 70 then Some (n - 55) else None)"

definition simple_escape :: "char \<Rightarrow> char option" where
  "simple_escape e = (
     if e = dquote then Some dquote else if e = bslash then Some bslash
     else if e = CHR ''/'' then Some CHR ''/''
     else if e = CHR ''b'' then Some CHR 0x08 else if e = CHR ''f'' then Some CHR 0x0C
     else if e = CHR ''n'' then Some CHR 0x0A else if e = CHR ''r'' then Some CHR 0x0D
     else if e = CHR ''t'' then Some CHR 0x09 else None)"

text \<open>The body of a string literal, from after the opening quote (strict mode: control
  characters are refused).\<close>

fun pstr :: "string \<Rightarrow> (string \<times> string) option" where
  "pstr [] = None"
| "pstr (c # s) =
     (if c = dquote then Some ([], s)
      else if c = bslash then
        (case s of [] \<Rightarrow> None
         | e # s' \<Rightarrow>
            if e = CHR ''u'' then
              (case s' of h1 # h2 # h3 # h4 # s'' \<Rightarrow>
                 (case (hex_val h1, hex_val h2, hex_val h3, hex_val h4) of
                    (Some 0, Some 0, Some d3, Some d4) \<Rightarrow>
                      map_option (\<lambda>(t, r). (char_of (16 * d3 + d4) # t, r)) (pstr s'')
                  | _ \<Rightarrow> None)
               | _ \<Rightarrow> None)
            else (case simple_escape e of None \<Rightarrow> None
                  | Some x \<Rightarrow> map_option (\<lambda>(t, r). (x # t, r)) (pstr s')))
      else if (of_char c :: nat) < 32 then None
      else map_option (\<lambda>(t, r). (c # t, r)) (pstr s))"

text \<open>Numbers: \<open>(-?(?:0|[1-9]\d*))(\.\d+)?([eE][-+]?\d+)?\<close>.\<close>

definition lex_int :: "string \<Rightarrow> (string \<times> string) option" where
  "lex_int s = (let (sg, r) = (if s \<noteq> [] \<and> hd s = CHR ''-'' then (''-'', tl s) else ([], s)) in
     case r of [] \<Rightarrow> None
     | c # r' \<Rightarrow> if c = CHR ''0'' then Some (sg @ [c], r')
                else if is_digit c then Some (sg @ takeWhile is_digit r, dropWhile is_digit r)
                else None)"

definition lex_frac :: "string \<Rightarrow> string \<times> string" where
  "lex_frac s = (case s of d # c # r \<Rightarrow>
       if d = CHR ''.'' \<and> is_digit c then (d # takeWhile is_digit (c # r), dropWhile is_digit (c # r))
       else ([], s)
     | _ \<Rightarrow> ([], s))"

definition lex_exp :: "string \<Rightarrow> string \<times> string" where
  "lex_exp s = (case s of e # r \<Rightarrow>
       if e = CHR ''e'' \<or> e = CHR ''E'' then
         (let (sg, r') = (case r of x # r' \<Rightarrow> if x = CHR ''+'' \<or> x = CHR ''-'' then ([x], r') else ([], r)
                          | [] \<Rightarrow> ([], r)) in
          case r' of c # _ \<Rightarrow> if is_digit c then (e # sg @ takeWhile is_digit r', dropWhile is_digit r')
                             else ([], s)
          | [] \<Rightarrow> ([], s))
       else ([], s)
     | [] \<Rightarrow> ([], s))"

definition int_lit :: "string \<Rightarrow> int" where
  "int_lit s = (if s \<noteq> [] \<and> hd s = CHR ''-'' then - int (digits_val (tl s)) else int (digits_val s))"

definition pnum :: "string \<Rightarrow> (json \<times> string) option" where
  "pnum s = (case lex_int s of None \<Rightarrow> None
     | Some (i, r) \<Rightarrow>
        (let (f, r1) = lex_frac r; (e, r2) = lex_exp r1 in
         if f = [] \<and> e = [] then Some (JInt (int_lit i), r2) else Some (JFloat (i @ f @ e), r2)))"

definition keyword :: "string \<Rightarrow> string \<Rightarrow> json \<Rightarrow> (json \<times> string) option" where
  "keyword s w v = (if startswith s w then Some (v, drop (length w) s) else None)"

definition pconst :: "string \<Rightarrow> (json \<times> string) option" where
  "pconst s = (case keyword s ''null'' JNull of Some x \<Rightarrow> Some x | None \<Rightarrow>
     (case keyword s ''true'' (JBool True) of Some x \<Rightarrow> Some x | None \<Rightarrow>
     (case keyword s ''false'' (JBool False) of Some x \<Rightarrow> Some x | None \<Rightarrow>
     (case pnum s of Some x \<Rightarrow> Some x | None \<Rightarrow>
     (case keyword s ''NaN'' (JFloat ''NaN'') of Some x \<Rightarrow> Some x | None \<Rightarrow>
     (case keyword s ''Infinity'' (JFloat ''Infinity'') of Some x \<Rightarrow> Some x | None \<Rightarrow>
      keyword s ''-Infinity'' (JFloat ''-Infinity'')))))))"

text \<open>The value reader. One unit of fuel per call; \<open>loads\<close> starts with more than the
  text can use (lemma \<open>pval_fuel\<close>).\<close>

fun pval :: "nat \<Rightarrow> string \<Rightarrow> (json \<times> string) option"
and parr :: "nat \<Rightarrow> string \<Rightarrow> (json list \<times> string) option"
and pobj :: "nat \<Rightarrow> string \<Rightarrow> ((string \<times> json) list \<times> string) option" where
  "pval 0 s = None"
| "pval (Suc n) s = (case s of [] \<Rightarrow> None
     | c # r \<Rightarrow>
        if c = dquote then map_option (\<lambda>(t, r'). (JStr t, r')) (pstr r)
        else if c = CHR ''{'' then
          (case skip_ws r of [] \<Rightarrow> None
           | d # r' \<Rightarrow> if d = CHR ''}'' then Some (JObj [], r')
               else map_option (\<lambda>(kvs, q). (JObj (dict_update [] kvs), q)) (pobj n (d # r')))
        else if c = CHR ''['' then
          (case skip_ws r of [] \<Rightarrow> None
           | d # r' \<Rightarrow> if d = CHR '']'' then Some (JList [], r')
               else map_option (\<lambda>(vs, q). (JList vs, q)) (parr n (d # r')))
        else pconst s)"
| "parr 0 s = None"
| "parr (Suc n) s = (case pval n s of None \<Rightarrow> None
     | Some (v, r) \<Rightarrow> (case skip_ws r of [] \<Rightarrow> None
        | c # r' \<Rightarrow> if c = CHR '']'' then Some ([v], r')
            else if c = CHR '','' then
              map_option (\<lambda>(vs, q). (v # vs, q)) (parr n (skip_ws r'))
            else None))"
| "pobj 0 s = None"
| "pobj (Suc n) s = (case s of [] \<Rightarrow> None
     | c # r \<Rightarrow> if c \<noteq> dquote then None else
        (case pstr r of None \<Rightarrow> None
         | Some (k, r1) \<Rightarrow> (case skip_ws r1 of [] \<Rightarrow> None
            | d # r2 \<Rightarrow> if d \<noteq> CHR '':'' then None else
               (case pval n (skip_ws r2) of None \<Rightarrow> None
                | Some (v, r3) \<Rightarrow> (case skip_ws r3 of [] \<Rightarrow> None
                   | e # r4 \<Rightarrow> if e = CHR ''}'' then Some ([(k, v)], r4)
                       else if e = CHR '','' then
                         map_option (\<lambda>(kvs, q). ((k, v) # kvs, q)) (pobj n (skip_ws r4))
                       else None)))))"

definition loads :: "string \<Rightarrow> json res" where
  "loads s = (case pval (2 * length s + 2) (skip_ws s) of
       Some (v, r) \<Rightarrow> if skip_ws r = [] then Inr v else Inl (ValueError ''Extra data'')
     | None \<Rightarrow> Inl (ValueError ''Expecting value''))"

section \<open>Written text\<close>

text \<open>Values the code sends: no floats, and the keys of a dict are distinct.\<close>

fun json_ok :: "json \<Rightarrow> bool" where
  "json_ok (JFloat s) = False"
| "json_ok (JList vs) = list_all json_ok vs"
| "json_ok (JObj kvs) = (dict_ok kvs \<and> list_all (\<lambda>(k, v). json_ok v) kvs)"
| "json_ok _ = True"

definition printable :: "char \<Rightarrow> bool" where
  "printable c = (let n = of_char c :: nat in 32 \<le> n \<and> n \<le> 126)"

lemma printableD: "printable c \<Longrightarrow> (of_char c :: nat) < 128 \<and> c \<noteq> CHR 0x00"
  by (auto simp: printable_def Let_def)

lemma hex_digit_val: "d < 16 \<Longrightarrow> hex_val (hex_digit d) = Some d"
  by (auto simp: hex_val_def hex_digit_def)

lemma hex_digit_printable: "d < 16 \<Longrightarrow> printable (hex_digit d)"
  by (auto simp: printable_def hex_digit_def)

lemma esc_char_printable: "x \<in> set (esc_char c) \<Longrightarrow> printable x"
proof -
  have n: "(of_char c :: nat) div 16 < 16" using of_char_less [of c] by (simp add: less_mult_imp_div_less)
  show "x \<in> set (esc_char c) \<Longrightarrow> printable x"
    using hex_digit_printable [OF n] hex_digit_printable [of "of_char c mod 16"]
    by (auto simp: esc_char_def Let_def printable_def split: if_splits)
qed

lemma pstr_esc_char:
  "pstr (esc_char c @ s) = map_option (\<lambda>(t, r). (c # t, r)) (pstr s)"
proof -
  let ?n = "of_char c :: nat"
  have hi: "?n div 16 < 16" using of_char_less [of c] by (simp add: less_mult_imp_div_less)
  have h0: "hex_val CHR ''0'' = Some 0" by code_simp
  have bk: "char_of (16 * (?n div 16) + ?n mod 16) = c" by simp
  have e: "?n = 8 \<Longrightarrow> c = CHR 0x08" "?n = 12 \<Longrightarrow> c = CHR 0x0C" "?n = 10 \<Longrightarrow> c = CHR 0x0A"
    "?n = 13 \<Longrightarrow> c = CHR 0x0D" "?n = 9 \<Longrightarrow> c = CHR 0x09"
    by (rule of_char_inj; simp)+
  consider "c = bslash" | "c = dquote" | "c \<noteq> bslash" "c \<noteq> dquote" "32 \<le> ?n \<and> ?n \<le> 126"
    | "?n \<in> {8, 12, 10, 13, 9}"
    | "c \<noteq> bslash" "c \<noteq> dquote" "\<not> (32 \<le> ?n \<and> ?n \<le> 126)" "?n \<notin> {8, 12, 10, 13, 9}"
    by blast
  then show ?thesis
  proof cases
    case 5
    then have "esc_char c = [bslash, CHR ''u'', CHR ''0'', CHR ''0'', hex_digit (?n div 16), hex_digit (?n mod 16)]"
      by (simp add: esc_char_def Let_def)
    then show ?thesis
      by (simp add: h0 hex_digit_val [OF hi] hex_digit_val bk)
  qed (auto simp: esc_char_def Let_def simple_escape_def dest!: e)
qed

lemma pstr_dump: "pstr (concat (map esc_char t) @ dquote # r) = Some (t, r)"
  by (induction t) (simp_all add: pstr_esc_char)

lemma dump_str_printable: "x \<in> set (dump_str t) \<Longrightarrow> printable x"
  using esc_char_printable by (auto simp: dump_str_def printable_def)

lemma set_join_with: "x \<in> set (join_with sep ws) \<Longrightarrow> x \<in> set sep \<or> (\<exists>w \<in> set ws. x \<in> set w)"
  by (induction sep ws rule: join_with.induct) auto

lemma digit_printable: "is_digit c \<Longrightarrow> printable c"
  by (simp add: is_digit_def printable_def Let_def)

lemma int_str_printable: "x \<in> set (int_str i) \<Longrightarrow> printable x"
  by (auto simp: int_str_def dest: nat_str_digits digit_printable split: if_splits) (simp_all add: printable_def)

lemma dumps_printable: "json_ok v \<Longrightarrow> x \<in> set (dumps v) \<Longrightarrow> printable x"
proof (induction v arbitrary: x)
  case (JBool b)
  then show ?case by (auto simp: printable_def split: if_splits)
next
  case (JList vs)
  then show ?case
    by (auto simp: printable_def list_all_iff dest!: set_join_with)
next
  case (JObj kvs)
  then show ?case
    by (fastforce simp: printable_def list_all_iff dest!: set_join_with dump_str_printable)
qed (auto simp: printable_def int_str_printable [unfolded printable_def] dump_str_printable [unfolded printable_def])

section \<open>Reading back what was written\<close>

fun jsz :: "json \<Rightarrow> nat" where
  "jsz (JList vs) = Suc (sum_list (map (\<lambda>v. Suc (jsz v)) vs))"
| "jsz (JObj kvs) = Suc (sum_list (map (\<lambda>(k, v). Suc (jsz v)) kvs))"
| "jsz _ = 1"

definition num_stop :: "string \<Rightarrow> bool" where
  "num_stop r = (case r of [] \<Rightarrow> True | c # _ \<Rightarrow> \<not> is_digit c \<and> c \<notin> set ''.eE'')"

lemma num_stop_simps [simp]:
  "num_stop []" "num_stop (CHR '','' # r)" "num_stop (CHR '']'' # r)" "num_stop (CHR ''}'' # r)"
  by (simp_all add: num_stop_def is_digit_def)

definition ws_char :: "char \<Rightarrow> bool" where
  "ws_char c = (c \<in> {CHR '' '', CHR 0x09, CHR 0x0A, CHR 0x0D})"

lemma skip_ws_Cons [simp]: "\<not> ws_char c \<Longrightarrow> skip_ws (c # s) = c # s"
  by (simp add: skip_ws_def ws_char_def)

lemma skip_ws_ws [simp]: "ws_char c \<Longrightarrow> skip_ws (c # s) = skip_ws s"
  by (simp add: skip_ws_def ws_char_def)

lemma skip_ws_Nil [simp]: "skip_ws [] = []"
  by (simp add: skip_ws_def)

lemma ws_char_simps [simp]: "ws_char (CHR '' '')" "\<not> ws_char (CHR '','')" "\<not> ws_char (CHR '']'')"
  "\<not> ws_char (CHR ''}'')" "\<not> ws_char (CHR '':'')" "\<not> ws_char dquote" "\<not> ws_char (CHR ''['')" "\<not> ws_char (CHR ''{'')"
  by (simp_all add: ws_char_def)

lemma takeWhile_digits: "num_stop r \<Longrightarrow> takeWhile is_digit (nat_str n @ r) = nat_str n"
  by (subst takeWhile_append2) (auto simp: nat_str_digits num_stop_def split: list.splits)

lemma dropWhile_digits: "num_stop r \<Longrightarrow> dropWhile is_digit (nat_str n @ r) = r"
  by (subst dropWhile_append2) (auto simp: nat_str_digits num_stop_def split: list.splits)

lemma nat_str_Cons: "\<exists>c s. nat_str n = c # s \<and> is_digit c \<and> (c = CHR ''0'' \<longrightarrow> n = 0 \<and> s = [])"
proof -
  obtain c s where cs: "nat_str n = c # s" by (cases "nat_str n") auto
  moreover have "is_digit c" using nat_str_digits [of c n] cs by simp
  moreover have "c = CHR ''0'' \<Longrightarrow> n = 0" using hd_nat_str_zero [of n] cs by simp
  ultimately show ?thesis by auto
qed

lemma lex_int_nat:
  assumes "num_stop r" "sg = [] \<or> sg = ''-''"
  shows "lex_int (sg @ nat_str n @ r) = Some (sg @ nat_str n, r)"
proof -
  obtain c s where cs: "nat_str n = c # s" "is_digit c" "c = CHR ''0'' \<longrightarrow> n = 0 \<and> s = []"
    using nat_str_Cons by blast
  have ne: "c \<noteq> CHR ''-''" using cs(2) by (auto simp: is_digit_def)
  have w: "takeWhile is_digit (c # s @ r) = c # s" "dropWhile is_digit (c # s @ r) = r"
    using takeWhile_digits [OF assms(1), of n] dropWhile_digits [OF assms(1), of n] cs(1) by simp_all
  show ?thesis
    using assms(2) cs ne w by (auto simp: lex_int_def split: list.splits)
qed

lemma int_lit_int_str: "int_lit (int_str i) = i"
proof (cases "i < 0")
  case False
  obtain c s where "nat_str (nat i) = c # s" "is_digit c"
    using nat_str_Cons by blast
  moreover from this have "c \<noteq> CHR ''-''" by (auto simp: is_digit_def)
  moreover have "int (digits_val (nat_str (nat i))) = i" using False by simp
  ultimately show ?thesis using False by (auto simp: int_lit_def int_str_def)
qed (simp add: int_lit_def int_str_def)

lemma pnum_int_str: "num_stop r \<Longrightarrow> pnum (int_str i @ r) = Some (JInt i, r)"
proof -
  assume r: "num_stop r"
  have "lex_int (int_str i @ r) = Some (int_str i, r)"
    using lex_int_nat [OF r, of "if i < 0 then ''-'' else []"] by (auto simp: int_str_def)
  moreover have "lex_frac r = ([], r)" "lex_exp r = ([], r)"
    using r by (auto simp: lex_frac_def lex_exp_def num_stop_def split: list.splits)
  ultimately show ?thesis by (simp add: pnum_def int_lit_int_str)
qed

lemma int_str_hd: "\<exists>c s. int_str i = c # s \<and> (is_digit c \<or> c = CHR ''-'')"
  using nat_str_Cons [of "nat i"] by (auto simp: int_str_def)

lemma pval_int:
  assumes "num_stop r"
  shows "pval (Suc n) (int_str i @ r) = Some (JInt i, r)"
proof -
  obtain c s where cs: "int_str i = c # s" "is_digit c \<or> c = CHR ''-''" using int_str_hd by blast
  then have "c \<notin> {dquote, CHR ''{'', CHR ''['', CHR ''n'', CHR ''t'', CHR ''f''}"
    by (auto simp: is_digit_def)
  moreover from this cs(1) pnum_int_str [OF assms, of i] have "pconst (int_str i @ r) = Some (JInt i, r)"
    by (simp add: pconst_def keyword_def startswith_def)
  ultimately show ?thesis using cs(1) by simp
qed

lemma dumps_hd: "json_ok v \<Longrightarrow> \<exists>c s. dumps v = c # s \<and> \<not> ws_char c \<and> c \<noteq> CHR '']''"
proof (cases v)
  case (JInt i)
  then show ?thesis using int_str_hd [of i] by (auto simp: ws_char_def is_digit_def)
qed (auto simp: dump_str_def ws_char_def)

lemma parr_dumps:
  assumes "\<And>v n r. v \<in> set vs \<Longrightarrow> jsz v \<le> n \<Longrightarrow> num_stop r \<Longrightarrow> pval n (dumps v @ r) = Some (v, r)"
    and "list_all json_ok vs" and "vs \<noteq> []" and "sum_list (map (\<lambda>v. Suc (jsz v)) vs) \<le> n"
  shows "parr n (join_with '', '' (map dumps vs) @ CHR '']'' # r) = Some (vs, r)"
  using assms
proof (induction vs arbitrary: n)
  case (Cons v vs)
  then obtain m where n: "n = Suc m" by (cases n) auto
  with Cons.prems have le: "jsz v \<le> m" by simp
  show ?case
  proof (cases vs)
    case Nil
    with n le Cons.prems(1) [of v m "CHR '']'' # r"] show ?thesis by simp
  next
    case (Cons w ws)
    from dumps_hd [of w] obtain c s where "dumps w = c # s" "\<not> ws_char c"
      using Cons.prems(2) Cons by auto
    then have sk: "skip_ws (CHR '' '' # join_with '', '' (map dumps vs) @ CHR '']'' # r)
        = join_with '', '' (map dumps vs) @ CHR '']'' # r"
      using Cons by (cases ws) auto
    have IH: "parr m (join_with '', '' (map dumps vs) @ CHR '']'' # r) = Some (vs, r)"
      by (rule Cons.IH) (use Cons.prems Cons n in auto)
    show ?thesis
      using Cons.prems(1) [of v m "CHR '','' # CHR '' '' # join_with '', '' (map dumps vs) @ CHR '']'' # r"]
        n le sk IH Cons by simp
  qed
qed simp

lemma pobj_dumps:
  assumes "\<And>k v n r. (k, v) \<in> set kvs \<Longrightarrow> jsz v \<le> n \<Longrightarrow> num_stop r \<Longrightarrow> pval n (dumps v @ r) = Some (v, r)"
    and "list_all (\<lambda>(k, v). json_ok v) kvs" and "kvs \<noteq> []"
    and "sum_list (map (\<lambda>(k, v). Suc (jsz v)) kvs) \<le> n"
  shows "pobj n (join_with '', '' (map (\<lambda>(k, v). dump_str k @ '': '' @ dumps v) kvs) @ CHR ''}'' # r)
    = Some (kvs, r)"
  using assms
proof (induction kvs arbitrary: n)
  case (Cons kv kvs)
  obtain k v where kv: "kv = (k, v)" by (cases kv)
  obtain m where n: "n = Suc m" using Cons.prems(4) kv by (cases n) auto
  let ?dm = "\<lambda>(k, v). dump_str k @ '': '' @ dumps v"
  have le: "jsz v \<le> m" using Cons.prems(4) kv n by simp
  obtain c s where hd: "dumps v = c # s" "\<not> ws_char c" using dumps_hd [of v] Cons.prems(2) kv by auto
  have pv: "num_stop q \<Longrightarrow> pval m (skip_ws (CHR '' '' # dumps v @ q)) = Some (v, q)" for q
    using Cons.prems(1) [of k v m q] kv le hd by simp
  show ?case
  proof (cases kvs)
    case Nil
    with n kv pv [of "CHR ''}'' # r"] show ?thesis by (simp add: dump_str_def pstr_dump)
  next
    case (Cons w ws)
    let ?rest = "join_with '', '' (map ?dm kvs) @ CHR ''}'' # r"
    have sk: "skip_ws (CHR '' '' # ?rest) = ?rest"
      using Cons by (cases w; cases ws) (auto simp: dump_str_def)
    have IH: "pobj m ?rest = Some (kvs, r)"
      by (rule Cons.IH) (use Cons.prems Cons n kv in auto)
    show ?thesis
      using pv [of "CHR '','' # CHR '' '' # ?rest"] n kv sk IH Cons by (simp add: dump_str_def pstr_dump)
  qed
qed simp

lemma pval_dumps:
  "json_ok v \<Longrightarrow> jsz v \<le> n \<Longrightarrow> num_stop r \<Longrightarrow> pval n (dumps v @ r) = Some (v, r)"
proof (induction v arbitrary: n r)
  case JNull
  then show ?case by (cases n) (simp_all add: pconst_def keyword_def startswith_def)
next
  case (JBool b)
  then show ?case by (cases n) (simp_all add: pconst_def keyword_def startswith_def)
next
  case (JInt i)
  then show ?case by (cases n) (simp_all add: pval_int del: pval.simps)
next
  case (JStr s)
  then show ?case by (cases n) (simp_all add: dump_str_def pstr_dump)
next
  case (JList vs)
  then obtain m where n: "n = Suc m" by (cases n) auto
  show ?case
  proof (cases vs)
    case (Cons w ws)
    have "parr m (join_with '', '' (map dumps vs) @ CHR '']'' # r) = Some (vs, r)"
      by (rule parr_dumps) (use JList n Cons in \<open>auto simp: list_all_iff\<close>)
    moreover obtain c s where "join_with '', '' (map dumps vs) @ CHR '']'' # r = c # s"
        "\<not> ws_char c" "c \<noteq> CHR '']''"
      using dumps_hd [of w] JList.prems(1) Cons by (cases ws) auto
    ultimately show ?thesis using n by simp
  qed (use n in simp)
next
  case (JObj kvs)
  then obtain m where n: "n = Suc m" by (cases n) auto
  let ?dm = "\<lambda>(k, v). dump_str k @ '': '' @ dumps v"
  show ?case
  proof (cases kvs)
    case (Cons w ws)
    have pv: "(k, v) \<in> set kvs \<Longrightarrow> jsz v \<le> n \<Longrightarrow> num_stop r \<Longrightarrow> pval n (dumps v @ r) = Some (v, r)" for k v n r
      using JObj.IH [of "(k, v)" v n r] JObj.prems(1) by (auto simp: list_all_iff)
    have "pobj m (join_with '', '' (map ?dm kvs) @ CHR ''}'' # r) = Some (kvs, r)"
      by (rule pobj_dumps) (use pv JObj.prems n Cons in \<open>auto simp: list_all_iff\<close>)
    moreover obtain s where "join_with '', '' (map ?dm kvs) @ CHR ''}'' # r = dquote # s"
      using Cons by (cases w; cases ws) (auto simp: dump_str_def)
    ultimately show ?thesis using n JObj.prems(1) by simp
  qed (use n in simp)
qed simp

lemma join_with_len: "ws \<noteq> [] \<Longrightarrow> sum_list (map length ws) + length sep * (length ws - 1) = length (join_with sep ws)"
  by (induction sep ws rule: join_with.induct) auto

lemma sum_join_len:
  "(\<And>w. w \<in> set ws \<Longrightarrow> f w \<le> 2 * length (g w)) \<Longrightarrow>
    sum_list (map (\<lambda>w. Suc (f w)) ws) \<le> 2 * length (join_with '', '' (map g ws)) + 1"
proof (induction ws)
  case (Cons w ws)
  have "f w \<le> 2 * length (g w)" using Cons.prems by simp
  moreover have "sum_list (map (\<lambda>w. Suc (f w)) ws) \<le> 2 * length (join_with '', '' (map g ws)) + 1"
    using Cons by simp
  ultimately show ?case by (cases ws) auto
qed simp

lemma jsz_dumps: "json_ok v \<Longrightarrow> jsz v \<le> 2 * length (dumps v)"
proof (induction v)
  case (JInt i)
  then show ?case using int_str_hd [of i] by auto
next
  case (JList vs)
  then have "sum_list (map (\<lambda>w. Suc (jsz w)) vs) \<le> 2 * length (join_with '', '' (map dumps vs)) + 1"
    by (intro sum_join_len) (auto simp: list_all_iff)
  then show ?case by simp
next
  case (JObj kvs)
  then have "sum_list (map (\<lambda>kv. Suc (case kv of (k, v) \<Rightarrow> jsz v)) kvs)
      \<le> 2 * length (join_with '', '' (map (\<lambda>(k, v). dump_str k @ '': '' @ dumps v) kvs)) + 1"
    by (intro sum_join_len) (fastforce simp: list_all_iff)
  then show ?case by (simp add: case_prod_unfold)
qed (auto simp: dump_str_def)

lemma loads_dumps: "json_ok v \<Longrightarrow> loads (dumps v) = Inr v"
proof -
  assume ok: "json_ok v"
  obtain c s where "dumps v = c # s" "\<not> ws_char c" using dumps_hd [OF ok] by blast
  then have "skip_ws (dumps v) = dumps v" by simp
  moreover have "pval (2 * length (dumps v) + 2) (dumps v @ []) = Some (v, [])"
    by (rule pval_dumps [OF ok]) (use jsz_dumps [OF ok] in simp_all)
  ultimately show ?thesis by (simp add: loads_def)
qed


lemma skip_ws_len: "length (skip_ws s) \<le> length s"
  by (simp add: skip_ws_def length_dropWhile_le)

lemma pstr_len: "pstr s = Some (t, r) \<Longrightarrow> length r < length s"
proof (induction s arbitrary: t r rule: pstr.induct)
  case (2 c s)
  then show ?case
    by (auto split: if_splits list.splits option.splits nat.splits) fastforce+
qed simp

lemma lex_int_len: "lex_int s = Some (i, r) \<Longrightarrow> length r < length s"
  by (cases s) (auto simp: lex_int_def Let_def less_Suc_eq_le length_dropWhile_le le_SucI
      split: if_splits list.splits)

lemma lex_frac_len: "lex_frac s = (f, r) \<Longrightarrow> length r \<le> length s"
  by (auto simp: lex_frac_def split: if_splits list.splits) (auto simp: length_dropWhile_le le_SucI)

lemma lex_exp_len: "lex_exp s = (f, r) \<Longrightarrow> length r \<le> length s"
  by (auto simp: lex_exp_def split: if_splits list.splits) (auto simp: length_dropWhile_le le_SucI)

lemma pnum_len: "pnum s = Some (v, r) \<Longrightarrow> length r < length s"
  by (auto simp: pnum_def Let_def split: option.splits prod.splits if_splits
      dest!: lex_int_len lex_frac_len lex_exp_len)

lemma keyword_len: "w \<noteq> [] \<Longrightarrow> keyword s w v = Some (u, r) \<Longrightarrow> length r < length s"
  by (cases s; cases w) (auto simp: keyword_def startswith_def split: if_splits)

lemma pconst_len: "pconst s = Some (v, r) \<Longrightarrow> length r < length s"
  by (auto simp: pconst_def split: option.splits dest: pnum_len keyword_len [rotated])

section \<open>The fuel is enough\<close>

lemma skip_ws_lenD: "skip_ws s = c # r \<Longrightarrow> length r < length s"
  using skip_ws_len [of s] by simp

declare pval.simps [simp del] parr.simps [simp del] pobj.simps [simp del]

lemma pval_0 [simp]: "pval 0 s = None" "parr 0 s = None" "pobj 0 s = None"
  by (simp_all add: pval.simps parr.simps pobj.simps)

lemma pval_SucD:
  assumes "pval (Suc n) s = Some (v, r)"
  shows "\<exists>c q. s = c # q \<and> ((\<exists>t. pstr q = Some (t, r)) \<or> (\<exists>d. skip_ws q = d # r)
    \<or> (\<exists>d q' kvs. skip_ws q = d # q' \<and> pobj n (d # q') = Some (kvs, r))
    \<or> (\<exists>d q' vs. skip_ws q = d # q' \<and> parr n (d # q') = Some (vs, r)) \<or> pconst s = Some (v, r))"
proof (cases s)
  case (Cons c q)
  with assms show ?thesis
    by (simp add: pval.simps split: if_splits list.splits) blast+
qed (use assms in \<open>simp add: pval.simps\<close>)

lemma parr_SucD:
  assumes "parr (Suc n) s = Some (vs, r)"
  shows "\<exists>v q c q'. pval n s = Some (v, q) \<and> skip_ws q = c # q'
    \<and> (r = q' \<or> (\<exists>ws. parr n (skip_ws q') = Some (ws, r)))"
  using assms by (simp add: parr.simps split: option.splits prod.splits list.splits if_splits) blast+

lemma pobj_SucD:
  assumes "pobj (Suc n) s = Some (kvs, r)"
  shows "\<exists>c q k q1 d q2 v q3 e q4. s = c # q \<and> pstr q = Some (k, q1) \<and> skip_ws q1 = d # q2
    \<and> pval n (skip_ws q2) = Some (v, q3) \<and> skip_ws q3 = e # q4
    \<and> (r = q4 \<or> (\<exists>ws. pobj n (skip_ws q4) = Some (ws, r)))"
  using assms by (simp add: pobj.simps split: option.splits prod.splits list.splits if_splits) blast+

lemma pval_parr_pobj_len:
  "(\<forall>s v r. pval n s = Some (v, r) \<longrightarrow> length r < length s) \<and>
   (\<forall>s vs r. parr n s = Some (vs, r) \<longrightarrow> length r < length s) \<and>
   (\<forall>s kvs r. pobj n s = Some (kvs, r) \<longrightarrow> length r < length s)"
proof (induction n)
  case (Suc n)
  from Suc have IHv: "pval n s = Some (v, r) \<Longrightarrow> length r < length s"
    and IHa: "parr n s = Some (vs, r) \<Longrightarrow> length r < length s"
    and IHo: "pobj n s = Some (kvs, r) \<Longrightarrow> length r < length s" for s v vs kvs r
    by blast+
  have v: "length r < length s" if pv: "pval (Suc n) s = Some (v, r)" for s v r
  proof -
    obtain c q where s: "s = c # q"
      and alt: "(\<exists>t. pstr q = Some (t, r)) \<or> (\<exists>d. skip_ws q = d # r)
        \<or> (\<exists>d q' kvs. skip_ws q = d # q' \<and> pobj n (d # q') = Some (kvs, r))
        \<or> (\<exists>d q' vs. skip_ws q = d # q' \<and> parr n (d # q') = Some (vs, r)) \<or> pconst s = Some (v, r)"
      using pval_SucD [OF pv] by (elim exE conjE) (rule that)
    show ?thesis
      using alt
    proof (elim disjE exE conjE)
      fix d q' kvs
      assume "skip_ws q = d # q'" "pobj n (d # q') = Some (kvs, r)"
      with IHo skip_ws_len [of q] s show ?thesis by fastforce
    next
      fix d q' vs
      assume "skip_ws q = d # q'" "parr n (d # q') = Some (vs, r)"
      with IHa skip_ws_len [of q] s show ?thesis by fastforce
    qed (use s in \<open>auto dest: pstr_len skip_ws_lenD pconst_len\<close>)
  qed
  have a: "length r < length s" if "parr (Suc n) s = Some (vs, r)" for s vs r
  proof -
    from parr_SucD [OF that] obtain v q c q' where q: "pval n s = Some (v, q)" "skip_ws q = c # q'"
      and alt: "r = q' \<or> (\<exists>ws. parr n (skip_ws q') = Some (ws, r))" by blast
    have "length r \<le> length q'" using alt IHa [of "skip_ws q'"] skip_ws_len [of q'] by fastforce
    then show ?thesis using IHv [OF q(1)] skip_ws_lenD [OF q(2)] by simp
  qed
  have o: "length r < length s" if po: "pobj (Suc n) s = Some (kvs, r)" for s kvs r
  proof -
    from pobj_SucD [OF po] obtain c q k q1 d q2 v q3 e q4 where
      x: "s = c # q" "pstr q = Some (k, q1)" "skip_ws q1 = d # q2"
        "pval n (skip_ws q2) = Some (v, q3)" "skip_ws q3 = e # q4"
      and alt: "r = q4 \<or> (\<exists>ws. pobj n (skip_ws q4) = Some (ws, r))"
      by blast
    have "length q3 < length (skip_ws q2)" using IHv x(4) by blast
    moreover have "length r \<le> length q4"
      using alt IHo [of "skip_ws q4"] skip_ws_len [of q4] by fastforce
    ultimately show ?thesis
      using x(1) pstr_len [OF x(2)] skip_ws_lenD [OF x(3)] skip_ws_lenD [OF x(5)] skip_ws_len [of q2] by simp
  qed
  from v a o show ?case by blast
qed simp

lemmas pval_len = pval_parr_pobj_len [THEN conjunct1, rule_format]

lemma pval_parr_pobj_fuel:
  "(\<forall>s. 2 * length s < n \<longrightarrow> pval (Suc n) s = pval n s) \<and>
   (\<forall>s. 2 * length s + 1 < n \<longrightarrow> parr (Suc n) s = parr n s) \<and>
   (\<forall>s. 2 * length s + 1 < n \<longrightarrow> pobj (Suc n) s = pobj n s)"
proof (induction n)
  case (Suc n)
  have v: "pval (Suc (Suc n)) s = pval (Suc n) s" if "2 * length s < Suc n" for s
  proof (cases s)
    case (Cons c q)
    have "pobj (Suc n) (d # q') = pobj n (d # q')" "parr (Suc n) (d # q') = parr n (d # q')"
      if "skip_ws q = d # q'" for d q'
    proof -
      have "2 * length (d # q') + 1 < n"
        using skip_ws_len [of q] that \<open>2 * length s < Suc n\<close> Cons by simp
      then show "pobj (Suc n) (d # q') = pobj n (d # q')" "parr (Suc n) (d # q') = parr n (d # q')"
        using Suc.IH by blast+
    qed
    then show ?thesis
      unfolding pval.simps(2) [of "Suc n" s] pval.simps(2) [of n s]
      by (auto simp: Cons split: list.split)
  qed (simp add: pval.simps)
  have a: "parr (Suc (Suc n)) s = parr (Suc n) s" if le: "2 * length s + 1 < Suc n" for s
  proof -
    have p: "pval (Suc n) s = pval n s" using Suc.IH le by simp
    have "parr (Suc n) (skip_ws q') = parr n (skip_ws q')"
      if "pval n s = Some (x, q)" "skip_ws q = c # q'" for x q c q'
    proof -
      have "2 * length (skip_ws q') + 1 < n"
        using pval_len [OF that(1)] skip_ws_lenD [OF that(2)] skip_ws_len [of q'] le by linarith
      then show ?thesis using Suc.IH by blast
    qed
    then show ?thesis
      unfolding parr.simps(2) [of "Suc n" s] parr.simps(2) [of n s] p
      by (auto split: option.split prod.split list.split)
  qed
  have o: "pobj (Suc (Suc n)) s = pobj (Suc n) s" if le: "2 * length s + 1 < Suc n" for s
  proof (cases s)
    case (Cons c q)
    have 1: "pval (Suc n) (skip_ws q2) = pval n (skip_ws q2)"
      if "pstr q = Some (k, q1)" "skip_ws q1 = d # q2" for k q1 d q2
    proof -
      have "2 * length (skip_ws q2) < n"
        using pstr_len [OF that(1)] skip_ws_lenD [OF that(2)] skip_ws_len [of q2] le Cons by simp
      then show ?thesis using Suc.IH by blast
    qed
    have 2: "pobj (Suc n) (skip_ws q4) = pobj n (skip_ws q4)"
      if "pstr q = Some (k, q1)" "skip_ws q1 = d # q2" "pval n (skip_ws q2) = Some (x, q3)"
        "skip_ws q3 = e # q4" for k q1 d q2 x q3 e q4
    proof -
      have "2 * length (skip_ws q4) + 1 < n"
        using pstr_len [OF that(1)] skip_ws_lenD [OF that(2)] skip_ws_len [of q2] pval_len [OF that(3)]
          skip_ws_lenD [OF that(4)] skip_ws_len [of q4] le Cons by simp
      then show ?thesis using Suc.IH by blast
    qed
    show ?thesis
      unfolding pobj.simps(2) [of "Suc n" s] pobj.simps(2) [of n s]
      unfolding Cons
      using 1 2 by (auto split: option.split prod.split list.split)
  qed (simp add: pobj.simps)
  from v a o show ?case by blast
qed simp

lemma pval_fuel:
  assumes "2 * length s < n" "n \<le> m"
  shows "pval m s = pval n s"
  using assms(2)
proof (induction rule: dec_induct)
  case (step k)
  with assms(1) pval_parr_pobj_fuel [of k] show ?case by simp
qed simp

section \<open>The codec interface\<close>

text \<open>
  What the SBus layer relies on: a value survives encoding and decoding, and the text
  is printable ASCII. \<open>dumps\<close> and \<open>loads\<close> satisfy it on the values the code sends.
\<close>

locale codec =
  fixes enc :: "'v \<Rightarrow> string" and dec :: "string \<Rightarrow> 'v res" and ok :: "'v \<Rightarrow> bool"
  assumes dec_enc: "ok v \<Longrightarrow> dec (enc v) = Inr v"
    and enc_printable: "ok v \<Longrightarrow> c \<in> set (enc v) \<Longrightarrow> printable c"
begin

lemma enc_inj: "ok v \<Longrightarrow> ok w \<Longrightarrow> enc v = enc w \<Longrightarrow> v = w"
  using dec_enc by (metis sum.inject(2))

lemma utf8_enc: "ok v \<Longrightarrow> utf8_encode (enc v) = enc v"
  by (intro utf8_encode_ascii) (auto dest: enc_printable printableD)

lemma utf8_dec_enc: "ok v \<Longrightarrow> utf8_decode (enc v) = Inr (enc v)"
  using utf8_round [of "enc v"] utf8_enc [of v] by simp

lemma cstr_enc: "ok v \<Longrightarrow> cstr (enc v) = enc v"
  by (intro cstr_id) (auto dest: enc_printable printableD)

end

interpretation js: codec dumps loads json_ok
  by unfold_locales (auto simp: loads_dumps intro: dumps_printable)

end
