(* ===== verification/Datagram.thy ===== *)
theory Datagram
  imports Json
begin

text \<open>
  The datagrams of the SBus protocol (\<open>storlets/sbus/datagram.py\<close>, with the constants of
  \<open>command.py\<close> and \<open>file_description.py\<close>). A datagram carries a command, a list of file
  descriptors each described by two metadata dicts, optional parameters and an optional
  task id. Its construction checks the order of the descriptor types; its text form is
  JSON and is what the peer rebuilds it from.

  Values that the code takes from decoded JSON (type, command, parameters, task id and
  storage metadata) are \<^typ>\<open>json\<close> values here too, so that malformed messages are
  inputs of the model; \<open>None\<close> is \<^const>\<open>JNull\<close>. Error messages keep their constant part.
\<close>

section \<open>Constants\<close>

definition SBUS_FD_INPUT_OBJECT :: json where
  "SBUS_FD_INPUT_OBJECT = JStr ''SBUS_FD_INPUT_OBJECT''"
definition SBUS_FD_OUTPUT_OBJECT :: json where
  "SBUS_FD_OUTPUT_OBJECT = JStr ''SBUS_FD_OUTPUT_OBJECT''"
definition SBUS_FD_OUTPUT_OBJECT_METADATA :: json where
  "SBUS_FD_OUTPUT_OBJECT_METADATA = JStr ''SBUS_FD_OUTPUT_OBJECT_METADATA''"
definition SBUS_FD_LOGGER :: json where
  "SBUS_FD_LOGGER = JStr ''SBUS_FD_LOGGER''"
definition SBUS_FD_SERVICE_OUT :: json where
  "SBUS_FD_SERVICE_OUT = JStr ''SBUS_FD_SERVICE_OUT''"

lemmas fd_consts = SBUS_FD_INPUT_OBJECT_def SBUS_FD_OUTPUT_OBJECT_def
  SBUS_FD_OUTPUT_OBJECT_METADATA_def SBUS_FD_LOGGER_def SBUS_FD_SERVICE_OUT_def

definition SBUS_CMD_PREFIX :: string where
  "SBUS_CMD_PREFIX = ''SBUS_CMD_''"

text \<open>The command names \<open>command.py\<close> defines, which is what \<open>hasattr(sbus_cmd, name)\<close> tests
  for names with the prefix; the module has the prefix itself as an attribute too.\<close>

definition sbus_cmd_names :: "string list" where
  "sbus_cmd_names = [''SBUS_CMD_HALT'', ''SBUS_CMD_EXECUTE'', ''SBUS_CMD_START_DAEMON'',
     ''SBUS_CMD_STOP_DAEMON'', ''SBUS_CMD_DAEMON_STATUS'', ''SBUS_CMD_STOP_DAEMONS'',
     ''SBUS_CMD_PING'', ''SBUS_CMD_CANCEL'', ''SBUS_CMD_NOP'']"

abbreviation SBUS_CMD_EXECUTE :: json where
  "SBUS_CMD_EXECUTE \<equiv> JStr ''SBUS_CMD_EXECUTE''"

section \<open>File descriptors with metadata\<close>

record sfd =
  fdtype :: json
  fileno :: int
  storlets_metadata :: "json dict"
  storage_metadata :: json

text \<open>\<open>SBusFileDescriptor(fdtype, fileno, storlets_metadata, storage_metadata)\<close>: a missing
  or empty dict becomes \<open>{}\<close>.\<close>

definition SBusFileDescriptor :: "json \<Rightarrow> int \<Rightarrow> json dict \<Rightarrow> json \<Rightarrow> sfd" where
  "SBusFileDescriptor t f sm gm = \<lparr>fdtype = t, fileno = f, storlets_metadata = sm,
     storage_metadata = (if truthy gm then gm else JObj [])\<rparr>"

definition sfd_metadata :: "sfd \<Rightarrow> json" where
  "sfd_metadata s = JObj [(''storlets'', JObj (dict_set ''type'' (fdtype s) (storlets_metadata s))),
                          (''storage'', storage_metadata s)]"

text \<open>\<open>pop('type')\<close> on what the message holds under \<open>storlets\<close>: a dict gives the value, a
  list takes no string index, other values have no \<open>pop\<close>.\<close>

fun pop_type :: "json \<Rightarrow> (json \<times> json dict) res" where
  "pop_type (JObj d) = (case dict_get d ''type'' of None \<Rightarrow> Inl (KeyError ''type'')
     | Some t \<Rightarrow> Inr (t, dict_pop ''type'' d))"
| "pop_type (JList _) = Inl (TypeError ''str cannot be interpreted as an integer'')"
| "pop_type _ = Inl (AttributeError ''pop'')"

definition from_fileno_and_metadata_dict :: "int \<Rightarrow> json \<Rightarrow> sfd res" where
  "from_fileno_and_metadata_dict f md =
     rbind (jgetitem md ''storlets'') (\<lambda>sm.
     rbind (jgetitem md ''storage'') (\<lambda>gm.
     rbind (pop_type sm) (\<lambda>(t, sm'). Inr (SBusFileDescriptor t f sm' gm))))"

section \<open>Datagrams\<close>

datatype dtg_class = SBusServiceDatagram | SBusExecuteDatagram

record datagram =
  dclass :: dtg_class
  command :: json
  sfds :: "sfd list"
  params :: json
  task_id :: json

fun required_fdtypes :: "dtg_class \<Rightarrow> json list" where
  "required_fdtypes SBusServiceDatagram = [SBUS_FD_SERVICE_OUT]"
| "required_fdtypes SBusExecuteDatagram = [SBUS_FD_SERVICE_OUT, SBUS_FD_INPUT_OBJECT,
     SBUS_FD_OUTPUT_OBJECT, SBUS_FD_OUTPUT_OBJECT_METADATA, SBUS_FD_LOGGER]"

definition check_required_fdtypes :: "dtg_class \<Rightarrow> json list \<Rightarrow> unit res" where
  "check_required_fdtypes c given =
     (if take (length (required_fdtypes c)) given \<noteq> required_fdtypes c
      then Inl (ValueError ''Fd type mismatch'') else Inr ())"

definition datagram_init :: "dtg_class \<Rightarrow> json \<Rightarrow> sfd list \<Rightarrow> json \<Rightarrow> json \<Rightarrow> datagram res" where
  "datagram_init c cmd ss ps tid = rbind (check_required_fdtypes c (map fdtype ss))
     (\<lambda>_. Inr \<lparr>dclass = c, command = cmd, sfds = ss, params = ps, task_id = tid\<rparr>)"

definition service_datagram :: "json \<Rightarrow> sfd list \<Rightarrow> json \<Rightarrow> json \<Rightarrow> datagram res" where
  "service_datagram cmd ss ps tid = datagram_init SBusServiceDatagram cmd ss ps tid"

definition execute_datagram :: "json \<Rightarrow> sfd list \<Rightarrow> json \<Rightarrow> json \<Rightarrow> datagram res" where
  "execute_datagram cmd ss ps tid =
     (let extra = map fdtype (drop (length (required_fdtypes SBusExecuteDatagram)) ss) in
      if filter (\<lambda>t. t \<noteq> SBUS_FD_INPUT_OBJECT) extra \<noteq> []
      then Inl (ValueError ''Extra data should be SBUS_FD_INPUT_OBJECT'')
      else datagram_init SBusExecuteDatagram SBUS_CMD_EXECUTE ss ps tid)"

definition build_datagram :: "json \<Rightarrow> sfd list \<Rightarrow> json \<Rightarrow> json \<Rightarrow> datagram res" where
  "build_datagram cmd ss ps tid = (if cmd = SBUS_CMD_EXECUTE
     then execute_datagram cmd ss ps tid else service_datagram cmd ss ps tid)"

section \<open>Properties of a datagram\<close>

definition num_fds :: "datagram \<Rightarrow> nat" where "num_fds d = length (sfds d)"

definition cmd_params :: "datagram \<Rightarrow> json" where
  "cmd_params d = (let c0 = [(''command'', command d)];
       c1 = (if truthy (params d) then dict_set ''params'' (params d) c0 else c0);
       c2 = (if truthy (task_id d) then dict_set ''task_id'' (task_id d) c1 else c1) in JObj c2)"

definition serialized_cmd_params :: "datagram \<Rightarrow> string" where
  "serialized_cmd_params d = dumps (cmd_params d)"

definition fds :: "datagram \<Rightarrow> int list" where "fds d = map fileno (sfds d)"

definition metadata :: "datagram \<Rightarrow> json" where "metadata d = JList (map sfd_metadata (sfds d))"

definition serialized_metadata :: "datagram \<Rightarrow> string" where
  "serialized_metadata d = dumps (metadata d)"

definition object_in_metadata :: "datagram \<Rightarrow> json list" where
  "object_in_metadata d = map storage_metadata (filter (\<lambda>s. fdtype s = SBUS_FD_INPUT_OBJECT) (sfds d))"

definition object_in_storlet_metadata :: "datagram \<Rightarrow> json dict list" where
  "object_in_storlet_metadata d = map storlets_metadata (filter (\<lambda>s. fdtype s = SBUS_FD_INPUT_OBJECT) (sfds d))"

definition find_fds :: "datagram \<Rightarrow> json \<Rightarrow> int list" where
  "find_fds d t = map fileno (filter (\<lambda>s. fdtype s = t) (sfds d))"

definition find_fd :: "datagram \<Rightarrow> json \<Rightarrow> int option" where
  "find_fd d t = (case find_fds d t of [] \<Rightarrow> None | f # _ \<Rightarrow> Some f)"

definition service_out_fd :: "datagram \<Rightarrow> int option" where
  "service_out_fd d = find_fd d SBUS_FD_SERVICE_OUT"

definition invocation_fds :: "datagram \<Rightarrow> int list" where
  "invocation_fds d = map fileno (drop 1 (sfds d))"

definition object_out_fds :: "datagram \<Rightarrow> int list" where
  "object_out_fds d = find_fds d SBUS_FD_OUTPUT_OBJECT"

definition object_metadata_out_fds :: "datagram \<Rightarrow> int list" where
  "object_metadata_out_fds d = find_fds d SBUS_FD_OUTPUT_OBJECT_METADATA"

definition logger_out_fd :: "datagram \<Rightarrow> int option" where
  "logger_out_fd d = find_fd d SBUS_FD_LOGGER"

definition object_in_fds :: "datagram \<Rightarrow> int list" where
  "object_in_fds d = find_fds d SBUS_FD_INPUT_OBJECT"

section \<open>Rebuilding a datagram from a raw message\<close>

text \<open>\<open>len(metadata)\<close> and iteration over it, for whatever the text decoded to.\<close>

fun jlen :: "json \<Rightarrow> nat res" where
  "jlen (JList vs) = Inr (length vs)"
| "jlen (JObj d) = Inr (length d)"
| "jlen (JStr s) = Inr (length s)"
| "jlen _ = Inl (TypeError ''object has no len()'')"

fun jitems :: "json \<Rightarrow> json list" where
  "jitems (JList vs) = vs"
| "jitems (JObj d) = map (\<lambda>(k, v). JStr k) d"
| "jitems (JStr s) = map (\<lambda>c. JStr [c]) s"
| "jitems _ = []"

definition build_datagram_from_raw_message :: "int list \<Rightarrow> string \<Rightarrow> string \<Rightarrow> datagram res" where
  "build_datagram_from_raw_message fs str_md str_cmd_params =
     rbind (loads str_md) (\<lambda>md.
     rbind (loads str_cmd_params) (\<lambda>cp.
     rbind (jget cp ''command'') (\<lambda>cmd.
     rbind (jget cp ''params'') (\<lambda>ps.
     rbind (jget cp ''task_id'') (\<lambda>tid.
     rbind (jlen md) (\<lambda>n.
       if length fs \<noteq> n then Inl (ValueError ''Length mismatch fds'')
       else rbind (mapM (\<lambda>(f, m). from_fileno_and_metadata_dict f m) (zip fs (jitems md)))
              (\<lambda>ss. build_datagram cmd ss ps tid)))))))"

section \<open>Well-formed datagrams\<close>

text \<open>What construction guarantees: the required descriptor types come first, in order,
  and an execute datagram has only further input objects after them.\<close>

definition dtg_wf :: "datagram \<Rightarrow> bool" where
  "dtg_wf d \<longleftrightarrow> (let ts = map fdtype (sfds d); req = required_fdtypes (dclass d) in
     take (length req) ts = req \<and>
     (dclass d = SBusExecuteDatagram \<longrightarrow>
        command d = SBUS_CMD_EXECUTE \<and> list_all (\<lambda>t. t = SBUS_FD_INPUT_OBJECT) (drop (length req) ts)))"

lemma datagram_init_Inr:
  "datagram_init c cmd ss ps tid = Inr d \<longleftrightarrow>
     take (length (required_fdtypes c)) (map fdtype ss) = required_fdtypes c \<and>
     d = \<lparr>dclass = c, command = cmd, sfds = ss, params = ps, task_id = tid\<rparr>"
  by (auto simp: datagram_init_def check_required_fdtypes_def rbind_Inr_iff split: if_splits)

lemma build_datagram_Inr:
  "build_datagram cmd ss ps tid = Inr d \<Longrightarrow>
     dtg_wf d \<and> sfds d = ss \<and> params d = ps \<and> task_id d = tid \<and> command d = cmd \<and>
     (dclass d = SBusExecuteDatagram \<longleftrightarrow> cmd = SBUS_CMD_EXECUTE)"
  by (auto simp: build_datagram_def execute_datagram_def service_datagram_def Let_def
      datagram_init_Inr dtg_wf_def drop_map list_all_iff filter_empty_conv split: if_splits)

lemma build_datagram_wf_iff:
  "(\<exists>d. build_datagram cmd ss ps tid = Inr d) \<longleftrightarrow>
     (if cmd = SBUS_CMD_EXECUTE
      then take 5 (map fdtype ss) = required_fdtypes SBusExecuteDatagram \<and>
           (\<forall>s \<in> set (drop 5 ss). fdtype s = SBUS_FD_INPUT_OBJECT)
      else \<exists>s ss'. ss = s # ss' \<and> fdtype s = SBUS_FD_SERVICE_OUT)"
  by (cases ss) (auto simp: build_datagram_def execute_datagram_def service_datagram_def
      datagram_init_Inr filter_empty_conv eval_nat_numeral)

text \<open>The shape of an execute datagram, from which every accessor follows.\<close>

lemma execute_shape:
  assumes "dtg_wf d" "dclass d = SBusExecuteDatagram"
  obtains s i out md lg xs where "sfds d = s # i # out # md # lg # xs"
    "fdtype s = SBUS_FD_SERVICE_OUT" "fdtype i = SBUS_FD_INPUT_OBJECT"
    "fdtype out = SBUS_FD_OUTPUT_OBJECT" "fdtype md = SBUS_FD_OUTPUT_OBJECT_METADATA"
    "fdtype lg = SBUS_FD_LOGGER" "list_all (\<lambda>x. fdtype x = SBUS_FD_INPUT_OBJECT) xs"
proof -
  from assms have t: "take 5 (map fdtype (sfds d)) = required_fdtypes SBusExecuteDatagram"
    and x: "list_all (\<lambda>t. t = SBUS_FD_INPUT_OBJECT) (drop 5 (map fdtype (sfds d)))"
    by (auto simp: dtg_wf_def Let_def eval_nat_numeral)
  from t have "length (take 5 (map fdtype (sfds d))) = 5" by simp
  then have "5 \<le> length (sfds d)" by simp
  then obtain s i out md lg xs where "sfds d = s # i # out # md # lg # xs"
    by (cases "sfds d" rule: list.exhaust; cases "tl (sfds d)" rule: list.exhaust;
        cases "tl (tl (sfds d))" rule: list.exhaust; cases "tl (tl (tl (sfds d)))" rule: list.exhaust;
        cases "tl (tl (tl (tl (sfds d))))" rule: list.exhaust) auto
  with t x that show thesis by (simp add: list_all_iff)
qed

lemma fd_consts_distinct [simp]:
  "SBUS_FD_SERVICE_OUT \<noteq> SBUS_FD_INPUT_OBJECT" "SBUS_FD_SERVICE_OUT \<noteq> SBUS_FD_OUTPUT_OBJECT"
  "SBUS_FD_SERVICE_OUT \<noteq> SBUS_FD_OUTPUT_OBJECT_METADATA" "SBUS_FD_SERVICE_OUT \<noteq> SBUS_FD_LOGGER"
  "SBUS_FD_INPUT_OBJECT \<noteq> SBUS_FD_SERVICE_OUT" "SBUS_FD_INPUT_OBJECT \<noteq> SBUS_FD_OUTPUT_OBJECT"
  "SBUS_FD_INPUT_OBJECT \<noteq> SBUS_FD_OUTPUT_OBJECT_METADATA" "SBUS_FD_INPUT_OBJECT \<noteq> SBUS_FD_LOGGER"
  "SBUS_FD_OUTPUT_OBJECT \<noteq> SBUS_FD_SERVICE_OUT" "SBUS_FD_OUTPUT_OBJECT \<noteq> SBUS_FD_INPUT_OBJECT"
  "SBUS_FD_OUTPUT_OBJECT \<noteq> SBUS_FD_OUTPUT_OBJECT_METADATA" "SBUS_FD_OUTPUT_OBJECT \<noteq> SBUS_FD_LOGGER"
  "SBUS_FD_OUTPUT_OBJECT_METADATA \<noteq> SBUS_FD_SERVICE_OUT"
  "SBUS_FD_OUTPUT_OBJECT_METADATA \<noteq> SBUS_FD_INPUT_OBJECT"
  "SBUS_FD_OUTPUT_OBJECT_METADATA \<noteq> SBUS_FD_OUTPUT_OBJECT"
  "SBUS_FD_OUTPUT_OBJECT_METADATA \<noteq> SBUS_FD_LOGGER"
  "SBUS_FD_LOGGER \<noteq> SBUS_FD_SERVICE_OUT" "SBUS_FD_LOGGER \<noteq> SBUS_FD_INPUT_OBJECT"
  "SBUS_FD_LOGGER \<noteq> SBUS_FD_OUTPUT_OBJECT" "SBUS_FD_LOGGER \<noteq> SBUS_FD_OUTPUT_OBJECT_METADATA"
  by (simp_all add: fd_consts)

lemmas accessor_defs = find_fds_def find_fd_def service_out_fd_def invocation_fds_def object_out_fds_def
  object_metadata_out_fds_def logger_out_fd_def object_in_fds_def object_in_metadata_def
  object_in_storlet_metadata_def fds_def

lemma service_out_fd_wf: "dtg_wf d \<Longrightarrow> service_out_fd d = Some (hd (fds d))"
  by (cases "sfds d"; cases "dclass d") (auto simp: dtg_wf_def Let_def accessor_defs)

section \<open>Round trip\<close>

definition sfd_ok :: "sfd \<Rightarrow> bool" where
  "sfd_ok s \<longleftrightarrow> json_ok (fdtype s) \<and> dict_ok (storlets_metadata s) \<and>
     list_all (\<lambda>(k, v). json_ok v \<and> k \<noteq> ''type'') (storlets_metadata s) \<and>
     json_ok (storage_metadata s) \<and> (truthy (storage_metadata s) \<or> storage_metadata s = JObj [])"

definition opt_ok :: "json \<Rightarrow> bool" where
  "opt_ok v \<longleftrightarrow> json_ok v \<and> (truthy v \<or> v = JNull)"

definition dtg_ok :: "datagram \<Rightarrow> bool" where
  "dtg_ok d \<longleftrightarrow> json_ok (command d) \<and> list_all sfd_ok (sfds d) \<and> opt_ok (params d) \<and> opt_ok (task_id d)"

lemma sfd_ok_fresh: "sfd_ok s \<Longrightarrow> ''type'' \<notin> fst ` set (storlets_metadata s)"
  by (force simp: sfd_ok_def list_all_iff)

lemma sfd_metadata_ok: "sfd_ok s \<Longrightarrow> json_ok (sfd_metadata s)"
  using sfd_ok_fresh [of s]
  by (auto simp: sfd_metadata_def sfd_ok_def dict_set_fresh dict_ok_def list_all_iff)

lemma from_fileno_sfd_metadata:
  "sfd_ok s \<Longrightarrow> from_fileno_and_metadata_dict (fileno s) (sfd_metadata s) = Inr s"
  using sfd_ok_fresh [of s]
  by (auto simp: from_fileno_and_metadata_dict_def sfd_metadata_def SBusFileDescriptor_def
      dict_get_def [of "_ # _"] dict_pop_set_fresh sfd_ok_def)

lemma metadata_ok: "dtg_ok d \<Longrightarrow> json_ok (metadata d)"
  by (auto simp: metadata_def dtg_ok_def list_all_iff sfd_metadata_ok)

lemma cmd_params_ok: "dtg_ok d \<Longrightarrow> json_ok (cmd_params d)"
  by (auto simp: cmd_params_def Let_def dtg_ok_def opt_ok_def dict_set_def dict_ok_def)

lemma jget_cmd_params:
  assumes "dtg_ok d"
  shows "jget (cmd_params d) ''command'' = Inr (command d)"
    "jget (cmd_params d) ''params'' = Inr (params d)" "jget (cmd_params d) ''task_id'' = Inr (task_id d)"
  using assms by (auto simp: cmd_params_def Let_def dtg_ok_def opt_ok_def dict_get_def dict_set_def)

lemma mapM_from_fileno:
  "list_all sfd_ok ss \<Longrightarrow> mapM (\<lambda>(f, m). from_fileno_and_metadata_dict f m)
     (zip (map fileno ss) (map sfd_metadata ss)) = Inr ss"
  by (induction ss) (auto simp: from_fileno_sfd_metadata)

text \<open>The receiver may see other descriptor numbers than the sender (the kernel duplicates
  them), everything else is recovered.\<close>

definition renumber :: "int list \<Rightarrow> sfd list \<Rightarrow> sfd list" where
  "renumber fs ss = map2 (\<lambda>f s. s\<lparr>fileno := f\<rparr>) fs ss"

lemma renumber_simps [simp]:
  "length fs = length ss \<Longrightarrow> map fileno (renumber fs ss) = fs"
  "length fs = length ss \<Longrightarrow> map fdtype (renumber fs ss) = map fdtype ss"
  "length fs = length ss \<Longrightarrow> map sfd_metadata (renumber fs ss) = map sfd_metadata ss"
  "length fs = length ss \<Longrightarrow> list_all sfd_ok (renumber fs ss) = list_all sfd_ok ss"
  unfolding renumber_def
  by (induction fs ss rule: list_induct2) (auto simp: sfd_metadata_def sfd_ok_def)

lemma renumber_id [simp]: "renumber (map fileno ss) ss = ss"
  unfolding renumber_def by (induction ss) auto

lemma build_datagram_cong_types:
  assumes "build_datagram cmd ss ps tid = Inr d" "map fdtype ss' = map fdtype ss"
  shows "build_datagram cmd ss' ps tid = Inr (d\<lparr>sfds := ss'\<rparr>)"
proof -
  have "map fdtype (drop n ss') = map fdtype (drop n ss)" for n
    using assms(2) by (simp flip: drop_map)
  with assms show ?thesis
    by (auto simp: build_datagram_def execute_datagram_def service_datagram_def Let_def
        datagram_init_Inr split: if_splits)
qed

lemma from_raw_round:
  assumes d: "build_datagram cmd ss ps tid = Inr d" and ok: "dtg_ok d" and len: "length fs = length ss"
  shows "build_datagram_from_raw_message fs (serialized_metadata d) (serialized_cmd_params d)
    = Inr (d\<lparr>sfds := renumber fs ss\<rparr>)"
proof -
  note w = build_datagram_Inr [OF d]
  have "mapM (\<lambda>(f, m). from_fileno_and_metadata_dict f m) (zip fs (map sfd_metadata ss)) = Inr (renumber fs ss)"
    using mapM_from_fileno [of "renumber fs ss"] ok w len by (simp add: dtg_ok_def)
  moreover have "build_datagram cmd (renumber fs ss) ps tid = Inr (d\<lparr>sfds := renumber fs ss\<rparr>)"
    by (rule build_datagram_cong_types [OF d]) (use len in simp)
  moreover have "loads (serialized_metadata d) = Inr (metadata d)"
      "loads (serialized_cmd_params d) = Inr (cmd_params d)"
    unfolding serialized_metadata_def serialized_cmd_params_def
    by (intro js.dec_enc metadata_ok cmd_params_ok ok)+
  ultimately show ?thesis
    using jget_cmd_params [OF ok] w len
    by (simp add: build_datagram_from_raw_message_def metadata_def del: jget.simps)
qed

section \<open>Properties\<close>

text \<open>The text form of a datagram is faithful. Whatever \<open>build_datagram\<close> accepted, the peer that
  gets its serialized metadata, its serialized command and one descriptor per sent one rebuilds the
  same datagram, with the descriptor numbers it received.\<close>

theorem datagram_round_trip:
  assumes "build_datagram cmd ss ps tid = Inr d" "dtg_ok d" "length fs = length ss"
  shows "build_datagram_from_raw_message fs (serialized_metadata d) (serialized_cmd_params d)
    = Inr (d\<lparr>sfds := renumber fs ss\<rparr>)"
  by (rule from_raw_round [OF assms])

definition sample_sfds :: "sfd list" where
  "sample_sfds = [SBusFileDescriptor SBUS_FD_SERVICE_OUT 3 [] JNull,
     SBusFileDescriptor SBUS_FD_INPUT_OBJECT 4 [(''start'', JStr ''0''), (''end'', JStr ''5'')] (JObj [(''k'', JStr ''v'')]),
     SBusFileDescriptor SBUS_FD_OUTPUT_OBJECT 5 [] JNull,
     SBusFileDescriptor SBUS_FD_OUTPUT_OBJECT_METADATA 6 [] JNull,
     SBusFileDescriptor SBUS_FD_LOGGER 7 [] JNull]"

definition sample_datagram :: datagram where
  "sample_datagram = \<lparr>dclass = SBusExecuteDatagram, command = SBUS_CMD_EXECUTE, sfds = sample_sfds,
     params = JObj [(''p'', JStr ''1'')], task_id = JNull\<rparr>"

lemma sample_built:
  "build_datagram SBUS_CMD_EXECUTE sample_sfds (JObj [(''p'', JStr ''1'')]) JNull = Inr sample_datagram"
  by (simp add: sample_sfds_def sample_datagram_def build_datagram_def execute_datagram_def datagram_init_Inr
      SBusFileDescriptor_def)

lemma sample_ok: "dtg_ok sample_datagram"
  by (simp add: sample_datagram_def sample_sfds_def dtg_ok_def sfd_ok_def opt_ok_def SBusFileDescriptor_def
      fd_consts dict_ok_def)

theorem datagram_round_trip_witness:
  "build_datagram_from_raw_message [13, 14, 15, 16, 17] (serialized_metadata sample_datagram)
     (serialized_cmd_params sample_datagram)
   = Inr (sample_datagram\<lparr>sfds := renumber [13, 14, 15, 16, 17] sample_sfds\<rparr>)"
  using datagram_round_trip [OF sample_built sample_ok, of "[13, 14, 15, 16, 17]"]
  by (simp add: sample_sfds_def)

text \<open>C28: Which descriptor lists make a datagram: an execute command needs the five required types in
  order and only further input objects after them, any other command a service descriptor first.\<close>

theorem build_datagram_accepts:
  "(\<exists>d. build_datagram cmd ss ps tid = Inr d) =
     (if cmd = SBUS_CMD_EXECUTE
      then take 5 (map fdtype ss) = [SBUS_FD_SERVICE_OUT, SBUS_FD_INPUT_OBJECT, SBUS_FD_OUTPUT_OBJECT,
             SBUS_FD_OUTPUT_OBJECT_METADATA, SBUS_FD_LOGGER] \<and>
           list_all (\<lambda>s. fdtype s = SBUS_FD_INPUT_OBJECT) (drop 5 ss)
      else map fdtype (take 1 ss) = [SBUS_FD_SERVICE_OUT])"
  using build_datagram_wf_iff [of cmd ss ps tid] by (cases ss) (auto simp: list_all_iff)

text \<open>The accessors of an execute datagram line up: every input object has its descriptor and its
  two metadata dicts at the same position, there is one output, one metadata output and one logger
  descriptor, and the invocation descriptors are all but the service one.\<close>

theorem execute_accessors:
  assumes "build_datagram SBUS_CMD_EXECUTE ss ps tid = Inr d"
  shows "length (object_in_fds d) = length ss - 4 \<and>
    length (object_in_metadata d) = length (object_in_fds d) \<and>
    length (object_in_storlet_metadata d) = length (object_in_fds d) \<and>
    object_out_fds d = [fds d ! 2] \<and> object_metadata_out_fds d = [fds d ! 3] \<and>
    logger_out_fd d = Some (fds d ! 4) \<and> service_out_fd d = Some (fds d ! 0) \<and>
    invocation_fds d = tl (fds d)"
proof -
  note w = build_datagram_Inr [OF assms]
  then have c: "dtg_wf d" "dclass d = SBusExecuteDatagram" by auto
  obtain s i out md lg xs where sh: "sfds d = s # i # out # md # lg # xs"
    "fdtype s = SBUS_FD_SERVICE_OUT" "fdtype i = SBUS_FD_INPUT_OBJECT"
    "fdtype out = SBUS_FD_OUTPUT_OBJECT" "fdtype md = SBUS_FD_OUTPUT_OBJECT_METADATA"
    "fdtype lg = SBUS_FD_LOGGER" "list_all (\<lambda>x. fdtype x = SBUS_FD_INPUT_OBJECT) xs"
    by (rule execute_shape [OF c])
  have xs: "filter (\<lambda>x. fdtype x = SBUS_FD_INPUT_OBJECT) xs = xs"
    "t \<noteq> SBUS_FD_INPUT_OBJECT \<Longrightarrow> filter (\<lambda>x. fdtype x = t) xs = []" for t
    using sh(7) by (auto simp: list_all_iff filter_id_conv filter_empty_conv)
  show ?thesis using sh w xs by (auto simp: accessor_defs)
qed

theorem execute_accessors_witness:
  "object_in_fds sample_datagram = [4] \<and> logger_out_fd sample_datagram = Some 7 \<and>
   object_out_fds sample_datagram = [fds sample_datagram ! 2]"
  using execute_accessors [OF sample_built]
  by (simp add: accessor_defs sample_datagram_def sample_sfds_def SBusFileDescriptor_def)

end
