(* ===== verification/Transport.thy ===== *)
theory Transport
  imports Datagram
begin

text \<open>
  The transport under the datagrams: \<open>SBus.send\<close> and \<open>SBus.receive\<close> of
  \<open>storlets/sbus/sbus.py\<close>, and the message frame of the C library they call
  (\<open>src/c/sbus/sbus.c\<close>: three 32-bit integers, the metadata text, the command text, a
  trailing byte). Opening sockets, the ancillary data that carries the descriptors and
  memory allocation stay outside: the descriptors the kernel hands to the receiver and the
  contents of the receive buffer behind the received bytes are parameters.
\<close>

section \<open>C integers and the message frame\<close>

definition c_int :: "int \<Rightarrow> int" where
  "c_int n = (n + 2 ^ 31) mod 2 ^ 32 - 2 ^ 31"

lemma c_int_id: "- (2 ^ 31) \<le> n \<Longrightarrow> n < 2 ^ 31 \<Longrightarrow> c_int n = n"
  by (simp add: c_int_def)

text \<open>The four bytes of an \<open>int\<close> in memory, least significant first.\<close>

definition int_bytes :: "int \<Rightarrow> string" where
  "int_bytes n = map (\<lambda>k. char_of (nat ((n div 256 ^ k) mod 256))) [0, 1, 2, 3]"

definition sbus_extract_integer :: "string \<Rightarrow> int" where
  "sbus_extract_integer s = c_int (int (of_char (s ! 0)) + 256 * int (of_char (s ! 1))
     + 65536 * int (of_char (s ! 2)) + 16777216 * int (of_char (s ! 3)))"

definition MAX_MSG_LENGTH :: nat where "MAX_MSG_LENGTH = 4096"

text \<open>The arguments of \<open>sbus_send_msg\<close>: descriptors, metadata (\<open>NULL\<close> is \<open>None\<close>) and its
  length, command text and its length.\<close>

record send_args =
  sa_files :: "int list"
  sa_n_files :: int
  sa_metadata :: "string option"
  sa_n_metadata :: int
  sa_params :: string
  sa_n_params :: int

definition dump_data_to_bytestream :: "send_args \<Rightarrow> string" where
  "dump_data_to_bytestream a =
     int_bytes (sa_n_files a) @ int_bytes (sa_n_metadata a) @ int_bytes (sa_n_params a) @
     take (nat (sa_n_metadata a)) (case sa_metadata a of None \<Rightarrow> [] | Some m \<Rightarrow> m) @
     take (nat (sa_n_params a)) (sa_params a) @ [CHR 0x00]"

record recv_result =
  rr_files :: "int list"
  rr_n_files :: int
  rr_metadata :: "string option"
  rr_n_metadata :: int
  rr_params :: "string option"
  rr_n_params :: int

text \<open>
  \<open>sbus_recv_msg\<close>: at most \<open>MAX_MSG_LENGTH\<close> bytes of the message reach the buffer; the
  lengths come from the frame and are not compared with what was received, so the copies
  can run into \<open>junk\<close>, whatever memory follows. \<open>kfds\<close> are the descriptors the kernel
  installed for the receiver. A text pointer stays \<open>NULL\<close> when its length is not positive.
\<close>

definition sbus_recv_msg :: "int list \<Rightarrow> string \<Rightarrow> string \<Rightarrow> recv_result" where
  "sbus_recv_msg kfds msg junk =
     (let buf = take MAX_MSG_LENGTH msg @ junk;
          n_files = sbus_extract_integer buf;
          n_md = sbus_extract_integer (drop 4 buf);
          n_msg = sbus_extract_integer (drop 8 buf) in
      \<lparr>rr_files = (if 0 < n_files then kfds else []), rr_n_files = n_files,
       rr_metadata = (if 0 < n_md then Some (take (nat n_md) (drop 12 buf)) else None),
       rr_n_metadata = n_md,
       rr_params = (if 0 < n_msg then Some (take (nat n_msg) (drop (nat (12 + n_md)) buf)) else None),
       rr_n_params = n_msg\<rparr>)"

section \<open>SBus.send and SBus.receive\<close>

definition send_message :: "datagram \<Rightarrow> send_args" where
  "send_message d =
     (let p = serialized_cmd_params d in
      if num_fds d > 0 then
        (let m = serialized_metadata d in
         \<lparr>sa_files = fds d, sa_n_files = c_int (int (num_fds d)),
          sa_metadata = Some (utf8_encode m), sa_n_metadata = c_int (int (length m)),
          sa_params = utf8_encode p, sa_n_params = c_int (int (length p))\<rparr>)
      else
        \<lparr>sa_files = [], sa_n_files = c_int 0, sa_metadata = None, sa_n_metadata = c_int 0,
         sa_params = utf8_encode p, sa_n_params = c_int (int (length p))\<rparr>)"

text \<open>\<open>send\<close> returns what the C call gives (its status, and the state of the socket behind it).\<close>

definition SBus_send :: "(string \<Rightarrow> send_args \<Rightarrow> 'r) \<Rightarrow> string \<Rightarrow> datagram \<Rightarrow> 'r" where
  "SBus_send sbus_send_msg name d = sbus_send_msg (utf8_encode name) (send_message d)"

text \<open>\<open>receive\<close>: \<open>None\<close> on a negative status. A \<open>NULL\<close> text pointer has the value \<open>None\<close>,
  which has no \<open>decode\<close>.\<close>

definition c_value :: "string option \<Rightarrow> string res" where
  "c_value p = (case p of None \<Rightarrow> Inl (AttributeError ''decode'') | Some b \<Rightarrow> utf8_decode (cstr b))"

definition SBus_receive :: "int \<Rightarrow> recv_result \<Rightarrow> datagram option res" where
  "SBus_receive n_status r =
     (if n_status < 0 then Inr None
      else
        let h_files = take (nat (rr_n_files r)) (rr_files r) in
        rbind (c_value (rr_metadata r)) (\<lambda>md.
        rbind (c_value (rr_params r)) (\<lambda>ps.
          let md' = (if 0 < rr_n_metadata r then take (nat (rr_n_metadata r)) md else md);
              ps' = take (nat (rr_n_params r)) ps in
          rbind (build_datagram_from_raw_message h_files md' ps') (\<lambda>d. Inr (Some d)))))"

section \<open>Framing\<close>

lemma length_int_bytes [simp]: "length (int_bytes n) = 4"
  by (simp add: int_bytes_def)

lemma int_4_bytes:
  fixes n :: int
  shows "n mod 256 + 256 * (n div 256 mod 256) + 65536 * (n div 65536 mod 256)
    + 16777216 * (n div 16777216 mod 256) = n mod 4294967296"
proof -
  have a: "n mod 4294967296 = n mod 16777216 + 16777216 * (n div 16777216 mod 256)"
    using zmod_zmult2_eq [of 256 n 16777216] by simp
  have b: "n mod 16777216 = n mod 65536 + 65536 * (n div 65536 mod 256)"
    using zmod_zmult2_eq [of 256 n 65536] by simp
  have c: "n mod 65536 = n mod 256 + 256 * (n div 256 mod 256)"
    using zmod_zmult2_eq [of 256 n 256] by simp
  show ?thesis by (simp only: a b c)
qed

lemma byte_of: "int (of_char (char_of (nat (k mod 256)) :: char)) = k mod 256" for k :: int
  by (simp add: nat_less_iff)

lemma int_bytes_eq: "int_bytes n = [char_of (nat (n mod 256)), char_of (nat (n div 256 mod 256)),
    char_of (nat (n div 65536 mod 256)), char_of (nat (n div 16777216 mod 256))]"
  by (simp add: int_bytes_def)

lemma nth_four: "(a # b # c # d # s) ! 0 = a" "(a # b # c # d # s) ! 1 = b"
  "(a # b # c # d # s) ! 2 = c" "(a # b # c # d # s) ! 3 = d"
  by simp_all

lemma int_bytes_nth:
  "int (of_char ((int_bytes n @ s) ! 0)) = n mod 256"
  "int (of_char ((int_bytes n @ s) ! 1)) = n div 256 mod 256"
  "int (of_char ((int_bytes n @ s) ! 2)) = n div 65536 mod 256"
  "int (of_char ((int_bytes n @ s) ! 3)) = n div 16777216 mod 256"
  unfolding int_bytes_eq append_Cons nth_four byte_of by (rule refl)+

lemma c_int_mod: "c_int (n mod 4294967296) = c_int n"
proof -
  have "(n mod 4294967296 + 2 ^ 31) mod 4294967296 = (n + 2 ^ 31) mod 4294967296"
    by (rule mod_add_left_eq)
  then show ?thesis by (simp add: c_int_def)
qed

lemma extract_int_bytes: "sbus_extract_integer (int_bytes n @ s) = c_int n"
  unfolding sbus_extract_integer_def int_bytes_nth int_4_bytes by (rule c_int_mod)

lemma c_int_c_int [simp]: "c_int (c_int n) = c_int n"
  by (simp add: c_int_def)

text \<open>A frame that fits the receive buffer is read back as it was written, whatever the
  memory behind it holds.\<close>

definition frame_ok :: "send_args \<Rightarrow> bool" where
  "frame_ok a \<longleftrightarrow> (\<exists>m. sa_metadata a = Some m \<and> sa_n_metadata a = int (length m) \<and> m \<noteq> []) \<and>
     sa_n_params a = int (length (sa_params a)) \<and> sa_params a \<noteq> [] \<and>
     0 < sa_n_files a \<and> sa_n_files a < 2 ^ 31 \<and>
     length (dump_data_to_bytestream a) \<le> MAX_MSG_LENGTH"

lemma recv_frame:
  assumes "frame_ok a"
  shows "sbus_recv_msg kfds (dump_data_to_bytestream a) junk =
    \<lparr>rr_files = kfds, rr_n_files = sa_n_files a, rr_metadata = sa_metadata a,
     rr_n_metadata = sa_n_metadata a, rr_params = Some (sa_params a), rr_n_params = sa_n_params a\<rparr>"
proof -
  from assms obtain m where m: "sa_metadata a = Some m" "sa_n_metadata a = int (length m)" "m \<noteq> []"
    and p: "sa_n_params a = int (length (sa_params a))" "sa_params a \<noteq> []"
    and f: "0 < sa_n_files a" "sa_n_files a < 2 ^ 31"
    and l: "length (dump_data_to_bytestream a) \<le> 4096"
    unfolding frame_ok_def MAX_MSG_LENGTH_def by blast
  let ?s = "dump_data_to_bytestream a"
  have s: "?s = int_bytes (sa_n_files a) @ int_bytes (sa_n_metadata a) @ int_bytes (sa_n_params a) @ m
      @ sa_params a @ [CHR 0x00]"
    using m p by (simp add: dump_data_to_bytestream_def)
  have buf: "take 4096 ?s @ junk = ?s @ junk" using l by simp
  have len: "length m + length (sa_params a) < 4096" using l s by simp
  have e: "sbus_extract_integer (?s @ junk) = sa_n_files a"
    "sbus_extract_integer (drop 4 (?s @ junk)) = sa_n_metadata a"
    "sbus_extract_integer (drop 8 (?s @ junk)) = sa_n_params a"
    using f m(2) p(1) len by (simp_all add: s extract_int_bytes c_int_id)
  have "nat (12 + sa_n_metadata a) = 12 + length m" using m(2) by simp
  then show ?thesis
    using m p f e unfolding sbus_recv_msg_def MAX_MSG_LENGTH_def buf Let_def by (simp add: s)
qed

section \<open>End to end\<close>

lemma dumps_not_Nil [simp]: "json_ok v \<Longrightarrow> dumps v \<noteq> []"
  using dumps_hd by fastforce

lemma send_message_eq:
  assumes "dtg_ok d" "0 < num_fds d" "num_fds d < 2 ^ 31"
    "length (serialized_metadata d) < 2 ^ 31" "length (serialized_cmd_params d) < 2 ^ 31"
  shows "send_message d = \<lparr>sa_files = fds d, sa_n_files = int (num_fds d),
    sa_metadata = Some (serialized_metadata d), sa_n_metadata = int (length (serialized_metadata d)),
    sa_params = serialized_cmd_params d, sa_n_params = int (length (serialized_cmd_params d))\<rparr>"
proof -
  have "utf8_encode (serialized_metadata d) = serialized_metadata d"
    "utf8_encode (serialized_cmd_params d) = serialized_cmd_params d"
    unfolding serialized_metadata_def serialized_cmd_params_def
    by (intro js.utf8_enc metadata_ok cmd_params_ok assms(1))+
  then show ?thesis using assms(2-) by (simp add: send_message_def c_int_id Let_def)
qed

text \<open>The size of a datagram on the wire.\<close>

definition wire_size :: "datagram \<Rightarrow> nat" where
  "wire_size d = 13 + length (serialized_metadata d) + length (serialized_cmd_params d)"

lemma receive_sent:
  assumes d: "build_datagram cmd ss ps tid = Inr d" and ok: "dtg_ok d"
    and size: "wire_size d \<le> MAX_MSG_LENGTH" and nf: "length ss < 2 ^ 31"
    and kfds: "length kfds = length ss"
  shows "SBus_receive 0 (sbus_recv_msg kfds (dump_data_to_bytestream (send_message d)) junk)
    = Inr (Some (d\<lparr>sfds := renumber kfds ss\<rparr>))"
proof -
  note w = build_datagram_Inr [OF d]
  let ?m = "serialized_metadata d" and ?p = "serialized_cmd_params d"
  have n: "num_fds d = length ss" using w by (simp add: num_fds_def)
  have pos: "0 < num_fds d"
    using w by (cases "dclass d"; cases ss) (auto simp: dtg_wf_def num_fds_def Let_def)
  have small: "length ?m < 2 ^ 31" "length ?p < 2 ^ 31"
    using size by (simp_all add: wire_size_def MAX_MSG_LENGTH_def)
  have sm: "send_message d = \<lparr>sa_files = fds d, sa_n_files = int (num_fds d),
    sa_metadata = Some ?m, sa_n_metadata = int (length ?m), sa_params = ?p, sa_n_params = int (length ?p)\<rparr>"
    by (rule send_message_eq [OF ok pos _ small]) (use nf n in simp)
  have ne: "?m \<noteq> []" "?p \<noteq> []"
    using metadata_ok [OF ok] cmd_params_ok [OF ok]
    by (simp_all add: serialized_metadata_def serialized_cmd_params_def)
  have fr: "frame_ok (send_message d)"
    using size pos nf n ne by (simp add: sm frame_ok_def dump_data_to_bytestream_def wire_size_def)
  have cv: "c_value (Some ?m) = Inr ?m" "c_value (Some ?p) = Inr ?p"
    using js.cstr_enc [OF metadata_ok [OF ok]] js.cstr_enc [OF cmd_params_ok [OF ok]]
      js.utf8_dec_enc [OF metadata_ok [OF ok]] js.utf8_dec_enc [OF cmd_params_ok [OF ok]]
    by (simp_all add: c_value_def serialized_metadata_def serialized_cmd_params_def)
  show ?thesis
    unfolding recv_frame [OF fr]
    using from_raw_round [OF d ok kfds] cv ne kfds n by (simp add: SBus_receive_def sm Let_def)
qed

section \<open>Properties\<close>

text \<open>C7: The SBus delivers what was sent: a datagram that fits the receive buffer of 4096 bytes, framed
  by the C library and read back from the frame, is received as the same datagram with the receiver's
  descriptor numbers, whatever memory lies behind the received bytes.\<close>

theorem send_receive_round_trip:
  assumes "build_datagram cmd ss ps tid = Inr d" "dtg_ok d" "wire_size d \<le> MAX_MSG_LENGTH"
    "length ss < 2 ^ 31" "length kfds = length ss"
  shows "SBus_receive 0 (sbus_recv_msg kfds (dump_data_to_bytestream (send_message d)) junk)
    = Inr (Some (d\<lparr>sfds := renumber kfds ss\<rparr>))"
  by (rule receive_sent [OF assms])

lemma sample_wire: "wire_size sample_datagram \<le> MAX_MSG_LENGTH"
  by code_simp

theorem send_receive_round_trip_witness:
  "SBus_receive 0 (sbus_recv_msg [1, 2, 3, 4, 5] (dump_data_to_bytestream (send_message sample_datagram)) ''xyz'')
    = Inr (Some (sample_datagram\<lparr>sfds := renumber [1, 2, 3, 4, 5] sample_sfds\<rparr>))"
  using send_receive_round_trip [OF sample_built sample_ok sample_wire, of "[1, 2, 3, 4, 5]" "''xyz''"]
  by (simp add: sample_sfds_def)

text \<open>A 32-bit integer written into the frame is read back modulo wrap-around, from any position.\<close>

theorem frame_integer: "sbus_extract_integer (int_bytes n @ s) = c_int n"
  by (rule extract_int_bytes)

end
