(* ===== verification/Server.thy ===== *)
theory Server
  imports Datagram
begin

text \<open>
  The command server both agents derive from (\<open>storlets/agent/common/server.py\<close>): the
  response value, the choice of a handler for a command, the dispatch of one datagram and
  the main loop. A server is a list of handlers by method name and a \<open>_terminate\<close>
  function over its state \<open>'s\<close>.

  Python's \<open>os.fdopen(fd, 'wb')\<close> buffers up to 8192 bytes, so a response is normally sent
  when the \<open>with\<close> block closes the file. The environment of one iteration of the main loop
  (the status of \<open>listen\<close>, what \<open>receive\<close> gives, whether the client still reads its end of
  the response pipe, whether SIGHUP arrives) is an input of the model.
\<close>

section \<open>Responses\<close>

record cmd_resp =
  status :: bool
  message :: string
  iterable :: bool
  resp_task_id :: "string option"

definition CommandResponse :: "bool \<Rightarrow> string \<Rightarrow> bool \<Rightarrow> string option \<Rightarrow> cmd_resp" where
  "CommandResponse st m it tid = \<lparr>status = st, message = m, iterable = it, resp_task_id = tid\<rparr>"

definition CommandSuccess :: "string \<Rightarrow> bool \<Rightarrow> string option \<Rightarrow> cmd_resp" where
  "CommandSuccess = CommandResponse True"

definition CommandFailure :: "string \<Rightarrow> bool \<Rightarrow> string option \<Rightarrow> cmd_resp" where
  "CommandFailure = CommandResponse False"

lemmas resp_defs = CommandSuccess_def CommandFailure_def CommandResponse_def

definition report_json :: "cmd_resp \<Rightarrow> json" where
  "report_json r = JObj ([(''status'', JBool (status r)), (''message'', JStr (message r))] @
     (case resp_task_id r of None \<Rightarrow> [] | Some t \<Rightarrow> if t = [] then [] else [(''task_id'', JStr t)]))"

definition report_message :: "cmd_resp \<Rightarrow> string" where
  "report_message r = dumps (report_json r)"

lemma report_json_ok [simp]: "json_ok (report_json r)"
  by (auto simp: report_json_def dict_ok_def split: option.splits)

section \<open>Handlers\<close>

type_synonym 's handler = "datagram \<Rightarrow> 's \<Rightarrow> cmd_resp res \<times> 's"

text \<open>The attributes of the module \<open>storlets.sbus.command\<close>, which \<open>hasattr\<close> sees.\<close>

definition sbus_cmd_attrs :: "string list" where
  "sbus_cmd_attrs = sbus_cmd_names @ [SBUS_CMD_PREFIX @ ''PREFIX'', ''__name__'', ''__doc__'', ''__package__'',
     ''__loader__'', ''__spec__'', ''__file__'', ''__cached__'', ''__builtins__'']"

definition get_handler :: "(string \<times> 's handler) list \<Rightarrow> json \<Rightarrow> 's handler res" where
  "get_handler handlers cmd = (case cmd of
     JStr c \<Rightarrow>
       if c \<notin> set sbus_cmd_attrs then Inl (ValueError (''Unknown command '' @ c))
       else (case map_of handlers (lower (drop (length SBUS_CMD_PREFIX) c)) of
               None \<Rightarrow> Inl (ValueError (''Command '' @ c @ '' is not allowed for this server''))
             | Some h \<Rightarrow> Inr h)
   | _ \<Rightarrow> Inl (TypeError ''attribute name must be string''))"

text \<open>The response of the handler, or the one built from the exception it raised. Only what
  is not an \<open>Exception\<close> gets through.\<close>

definition handle_command :: "(string \<times> 's handler) list \<Rightarrow> datagram \<Rightarrow> 's \<Rightarrow> cmd_resp res \<times> 's" where
  "handle_command handlers dtg s =
     (case (case get_handler handlers (command dtg) of Inl e \<Rightarrow> (Inl e, s) | Inr h \<Rightarrow> h dtg s) of
        (Inr r, s') \<Rightarrow> (Inr r, s')
      | (Inl e, s') \<Rightarrow>
          ((case e of
              ValueError m \<Rightarrow> Inr (CommandFailure m True None)
            | CommandResponseExc st m it tid \<Rightarrow> Inr (CommandResponse st m it tid)
            | _ \<Rightarrow> if is_Exception e then Inr (CommandFailure ''Internal error'' True None) else Inl e), s'))"

text \<open>Sending the response on the service descriptor. \<open>alive\<close>: the client still holds the
  read end. Text longer than the buffer is written inside \<open>_respond\<close>, which catches the
  error; shorter text when the file is closed, which does not.\<close>

definition write_buffer_size :: nat where "write_buffer_size = 8192"

definition respond :: "bool \<Rightarrow> cmd_resp \<Rightarrow> string res" where
  "respond alive r = (let out = utf8_encode (report_message r) in
     if alive then Inr out
     else if length out > write_buffer_size then Inr []
     else Inl (OSErrno EPIPE))"

definition dispatch_command ::
  "(string \<times> 's handler) list \<Rightarrow> bool \<Rightarrow> datagram \<Rightarrow> 's \<Rightarrow> (bool \<times> string) res \<times> 's" where
  "dispatch_command handlers alive dtg s =
     (case handle_command handlers dtg s of
        (Inl e, s') \<Rightarrow> (Inl e, s')
      | (Inr r, s') \<Rightarrow>
          (case service_out_fd dtg of
             None \<Rightarrow> (Inl (TypeError ''an integer is required''), s')
           | Some _ \<Rightarrow> (rbind (respond alive r) (\<lambda>out. Inr (iterable r, out)), s')))"

definition ping :: "'s handler" where
  "ping dtg s = (Inr (CommandSuccess ''OK'' True None), s)"

text \<open>What a server without its own termination has: the command to halt and both ways to terminate only raise.\<close>

definition base_halt :: "'s handler" where "base_halt dtg s = (Inl NotImplementedError, s)"
definition base_terminate :: "'s \<Rightarrow> unit res \<times> 's" where "base_terminate s = (Inl NotImplementedError, s)"
definition base_force_terminate :: "'s \<Rightarrow> unit res \<times> 's" where "base_force_terminate s = (Inl NotImplementedError, s)"

definition base_handlers :: "(string \<times> 's handler) list" where
  "base_handlers = [(''ping'', ping), (''halt'', base_halt)]"

section \<open>The main loop\<close>

definition EXIT_SUCCESS :: int where "EXIT_SUCCESS = 0"
definition EXIT_FAILURE :: int where "EXIT_FAILURE = 1"

text \<open>Timeouts in milliseconds: \<open>LOOP_TIMEOUT = 0.5\<close>, \<open>LISTEN_TIMEOUT = 300\<close> seconds.\<close>

definition LOOP_TIMEOUT :: nat where "LOOP_TIMEOUT = 500"
definition LISTEN_TIMEOUT :: nat where "LISTEN_TIMEOUT = 300000"

text \<open>Waiting on the socket: what \<open>select\<close> reports (\<open>SelectReady\<close> with whether it is this socket) and what \<open>sbus_listen\<close> of
  \<open>src/c/sbus/sbus.c\<close> and \<open>SBus.listen\<close> make of it. A signal interrupts \<open>select\<close>, which then fails.\<close>

datatype select_outcome = SelectTimeout | SelectReady bool | SelectError errno

fun sbus_listen :: "select_outcome \<Rightarrow> int" where
  "sbus_listen SelectTimeout = 0"
| "sbus_listen (SelectReady here) = (if here then 1 else -1)"
| "sbus_listen (SelectError e) = -1"

definition SBus_listen :: "select_outcome \<Rightarrow> int" where
  "SBus_listen outcome = sbus_listen outcome"

text \<open>SIGHUP: the loop is left before its next round.\<close>

definition graceful_shutdown :: "bool \<Rightarrow> bool" where
  [simp]: "graceful_shutdown is_running = False"

record loop_env =
  ev_listen :: int
  ev_receive :: "datagram option res"
  ev_alive :: bool
  ev_sighup :: bool

text \<open>
  The loop over the environment of its iterations. \<open>None\<close>: still running when the
  environment ends. Otherwise the status it leaves the loop with, or the exception that
  escapes it, and the remaining state.
\<close>

fun loop :: "(string \<times> 's handler) list \<Rightarrow> bool \<Rightarrow> nat \<Rightarrow> loop_env list \<Rightarrow> 's \<Rightarrow> (int res \<times> 's) option" where
  "loop hs running cnt [] s = (if running then None else Some (Inr EXIT_SUCCESS, s))"
| "loop hs running cnt (e # es) s =
     (if \<not> running then Some (Inr EXIT_SUCCESS, s)
      else if ev_listen e < 0 then Some (Inr EXIT_FAILURE, s)
      else if ev_listen e = 0 then
        (if (cnt + 1) * LOOP_TIMEOUT \<ge> LISTEN_TIMEOUT then Some (Inr EXIT_SUCCESS, s)
         else loop hs (if ev_sighup e then graceful_shutdown running else running) (cnt + 1) es s)
      else (case ev_receive e of
          Inl x \<Rightarrow> Some (Inl x, s)
        | Inr None \<Rightarrow> Some (Inr EXIT_FAILURE, s)
        | Inr (Some dtg) \<Rightarrow>
            (case dispatch_command hs (ev_alive e) dtg s of
               (Inl x, s') \<Rightarrow> Some (Inl x, s')
             | (Inr (go_on, _), s') \<Rightarrow>
                 if \<not> go_on then Some (Inr EXIT_SUCCESS, s')
                 else loop hs (if ev_sighup e then graceful_shutdown running else running) 0 es s')))"

definition main_loop ::
  "(string \<times> 's handler) list \<Rightarrow> ('s \<Rightarrow> unit res \<times> 's) \<Rightarrow> int \<Rightarrow> loop_env list \<Rightarrow> 's \<Rightarrow> (int res \<times> 's) option" where
  "main_loop hs terminate fd es s =
     (if fd < 0 then Some (Inr EXIT_FAILURE, s)
      else (case loop hs True 0 es s of
          None \<Rightarrow> None
        | Some (Inl x, s') \<Rightarrow> Some (Inl x, s')
        | Some (Inr st, s') \<Rightarrow>
            (case terminate s' of (Inl x, s'') \<Rightarrow> Some (Inl x, s'') | (Inr _, s'') \<Rightarrow> Some (Inr st, s''))))"

text \<open>SIGTERM: \<open>_force_terminate\<close> is tried and the process exits with 1 whatever happens.\<close>

definition force_shutdown :: "('s \<Rightarrow> unit res \<times> 's) \<Rightarrow> 's \<Rightarrow> int \<times> 's" where
  "force_shutdown force_terminate s = (1, snd (force_terminate s))"

section \<open>Dispatch\<close>

lemma get_handler_cases:
  "get_handler hs cmd = Inr h \<longleftrightarrow>
     (\<exists>c. cmd = JStr c \<and> c \<in> set sbus_cmd_attrs \<and> map_of hs (lower (drop (length SBUS_CMD_PREFIX) c)) = Some h)"
  by (auto simp: get_handler_def split: json.splits option.splits)

lemma get_handler_ValueError:
  "command dtg = JStr c \<Longrightarrow> get_handler hs (JStr c) = Inl e \<Longrightarrow> is_ValueError e"
  by (auto simp: get_handler_def is_ValueError_def split: option.splits if_splits)

text \<open>A server interface: handlers that keep an invariant and never let anything but an
  \<open>Exception\<close> escape. The main loop keeps the invariant, and the responses are always
  delivered to a living client.\<close>

locale sbus_server =
  fixes hs :: "(string \<times> 's handler) list" and inv :: "'s \<Rightarrow> bool"
  assumes handler_inv: "(n, h) \<in> set hs \<Longrightarrow> inv s \<Longrightarrow> h dtg s = (r, s') \<Longrightarrow> inv s'"
    and handler_exc: "(n, h) \<in> set hs \<Longrightarrow> inv s \<Longrightarrow> h dtg s = (Inl e, s') \<Longrightarrow> is_Exception e"
begin

lemma handle_command_total:
  assumes "inv s"
  shows "\<exists>r s'. handle_command hs dtg s = (Inr r, s') \<and> inv s'"
proof (cases "get_handler hs (command dtg)")
  case (Inl e)
  then have "is_Exception e"
    by (auto simp: get_handler_def is_Exception_def split: json.splits if_splits option.splits)
  then show ?thesis using Inl assms by (cases e) (auto simp: handle_command_def)
next
  case (Inr h)
  then obtain n where "(n, h) \<in> set hs" by (auto simp: get_handler_cases dest: map_of_SomeD)
  note h = handler_inv [OF this assms] handler_exc [OF this assms]
  obtain r s' where "h dtg s = (r, s')" by (cases "h dtg s")
  with h [of dtg] Inr show ?thesis
    by (cases r) (auto simp: handle_command_def split: py_exc.splits)
qed

lemma dispatch_alive:
  assumes "inv s" "dtg_wf dtg"
  shows "\<exists>r s'. dispatch_command hs True dtg s = (Inr (iterable r, report_message r), s') \<and>
    handle_command hs dtg s = (Inr r, s') \<and> inv s'"
proof -
  obtain r s' where "handle_command hs dtg s = (Inr r, s')" "inv s'"
    using handle_command_total [OF assms(1)] by blast
  moreover have "utf8_encode (report_message r) = report_message r"
    unfolding report_message_def by (rule js.utf8_enc) simp
  ultimately show ?thesis
    using service_out_fd_wf [OF assms(2)] by (auto simp: dispatch_command_def respond_def Let_def)
qed

lemma dispatch_inv: "inv s \<Longrightarrow> dispatch_command hs alive dtg s = (x, s') \<Longrightarrow> inv s'"
  using handle_command_total [of s dtg]
  by (auto simp: dispatch_command_def split: option.splits)

lemma loop_inv: "inv s \<Longrightarrow> loop hs running cnt es s = Some (x, s') \<Longrightarrow> inv s'"
proof (induction es arbitrary: running cnt s)
  case (Cons e es)
  then show ?case
    by (auto split: if_splits sum.splits option.splits prod.splits dest: dispatch_inv)
qed (auto split: if_splits)

end

interpretation base_server: sbus_server base_handlers "\<lambda>_. True"
  by unfold_locales (auto simp: base_handlers_def base_halt_def ping_def is_Exception_def)

text \<open>The bare server answers every command; it refuses to halt and goes on.\<close>

lemma base_halt_refused:
  fixes s :: 's
  assumes "command dtg = JStr ''SBUS_CMD_HALT''"
  shows "handle_command base_handlers dtg s = (Inr (CommandFailure ''Internal error'' True None), s)"
proof -
  have "get_handler (base_handlers :: (string \<times> 's handler) list) (JStr ''SBUS_CMD_HALT'') = Inr base_halt"
    unfolding get_handler_cases by (intro exI [of _ "''SBUS_CMD_HALT''"])
      (auto simp: base_handlers_def sbus_cmd_attrs_def sbus_cmd_names_def SBUS_CMD_PREFIX_def lower_def lower_char_def char_of_def bit_0)
  then show ?thesis using assms by (simp add: handle_command_def base_halt_def is_Exception_def)
qed

section \<open>Time-out\<close>

definition idle :: loop_env where
  "idle = \<lparr>ev_listen = 0, ev_receive = Inr None, ev_alive = True, ev_sighup = False\<rparr>"

lemma loop_idle:
  "cnt < 600 \<Longrightarrow> loop hs True cnt (replicate n idle) s =
     (if cnt + n < 600 then None else Some (Inr EXIT_SUCCESS, s))"
proof (induction n arbitrary: cnt)
  case (Suc n)
  then show ?case
    by (cases "cnt + 1 < 600") (auto simp: idle_def LOOP_TIMEOUT_def LISTEN_TIMEOUT_def)
qed simp

section \<open>Signals\<close>

text \<open>SIGHUP while a command is handled: the command is answered, no further one is taken and the loop ends with success.\<close>

lemma hangup_during_command:
  assumes "ev_listen e > 0" "ev_receive e = Inr (Some dtg)" "ev_sighup e" "dispatch_command hs (ev_alive e) dtg s = (Inr (True, out), s')"
  shows "loop hs True cnt (e # es) s = Some (Inr EXIT_SUCCESS, s')"
  using assms by (cases es) simp_all

text \<open>SIGHUP while the server waits, which is where it mostly is: \<open>select\<close> is interrupted, the loop takes this for a broken socket,
  and the exit status is that of a failure although everything was terminated in order.\<close>

lemma hangup_while_waiting:
  assumes "ev_listen e = SBus_listen (SelectError EINTR)" "0 \<le> fd" "terminate s = (Inr (), s')"
  shows "main_loop hs terminate fd (e # es) s = Some (Inr EXIT_FAILURE, s')"
  using assms by (simp add: main_loop_def SBus_listen_def)

section \<open>Properties\<close>

text \<open>A server whose handlers keep an invariant and raise only exceptions answers every well-formed
  datagram of a client that is still there: the response is the handler's, or a failure built from what it
  raised, it is written as JSON on the service descriptor, and the invariant still holds.\<close>

theorem dispatch_answers:
  assumes "sbus_server hs I" "I s" "dtg_wf dtg"
  shows "\<exists>r s'. handle_command hs dtg s = (Inr r, s') \<and> I s' \<and>
    dispatch_command hs True dtg s = (Inr (iterable r, report_message r), s')"
  using sbus_server.dispatch_alive [OF assms] by blast

definition ping_datagram :: datagram where
  "ping_datagram = \<lparr>dclass = SBusServiceDatagram, command = JStr ''SBUS_CMD_PING'',
     sfds = [SBusFileDescriptor SBUS_FD_SERVICE_OUT 3 [] JNull], params = JNull, task_id = JNull\<rparr>"

lemma ping_datagram_wf: "dtg_wf ping_datagram"
  by (simp add: ping_datagram_def dtg_wf_def SBusFileDescriptor_def)

lemma ping_server: "sbus_server [(''ping'', ping :: nat handler)] (\<lambda>n. n < 5)"
  by unfold_locales (auto simp: ping_def)

theorem dispatch_answers_witness:
  "\<exists>r s'. handle_command [(''ping'', ping :: nat handler)] ping_datagram 4 = (Inr r, s') \<and> s' < 5"
  using dispatch_answers [OF ping_server _ ping_datagram_wf, of 4] by auto

text \<open>An idle server, with no message for 300 seconds, leaves its loop with success after exactly 600
  rounds of half a second, and not before.\<close>

theorem idle_server_stops:
  "loop hs True 0 (replicate n idle) s = (if n < 600 then None else Some (Inr EXIT_SUCCESS, s))"
  using loop_idle [of 0 hs n s] by simp

text \<open>A client that has closed its end of the response pipe takes the whole server down: a response
  that fits the write buffer is only written when the file is closed, outside the handler of that error, so
  the exception leaves the dispatcher and the main loop.\<close>

theorem dead_client_stops_server:
  assumes "handle_command hs dtg s = (Inr r, s')" "dtg_wf dtg" "length (report_message r) \<le> write_buffer_size"
    "ev_listen e > 0" "ev_receive e = Inr (Some dtg)" "\<not> ev_alive e"
  shows "loop hs True cnt (e # es) s = Some (Inl (OSErrno EPIPE), s')"
proof -
  have "utf8_encode (report_message r) = report_message r"
    unfolding report_message_def by (rule js.utf8_enc) simp
  then show ?thesis using assms service_out_fd_wf [OF assms(2)]
    by (auto simp: dispatch_command_def respond_def Let_def)
qed

theorem dead_client_stops_server_witness:
  "loop [(''ping'', ping)] True 0 [\<lparr>ev_listen = 1, ev_receive = Inr (Some ping_datagram), ev_alive = False,
     ev_sighup = False\<rparr>] (0 :: nat) = Some (Inl (OSErrno EPIPE), 0)"
proof -
  have h: "handle_command [(''ping'', ping)] ping_datagram (0 :: nat) = (Inr (CommandSuccess ''OK'' True None), 0)"
    by code_simp
  have l: "length (report_message (CommandSuccess ''OK'' True None)) \<le> write_buffer_size" by code_simp
  show ?thesis
    by (rule dead_client_stops_server [OF h ping_datagram_wf l]) simp_all
qed

end
