(* ===== verification/Client.thy ===== *)
theory Client
  imports Transport Server
begin

text \<open>
  The client side of the SBus (\<open>storlets/sbus/client/client.py\<close> and the command line
  \<open>cli.py\<close>). A request opens a pipe, sends a datagram whose first descriptor is the write
  end, closes its own copy of it and reads the reply until end of file.

  The locale \<open>pipe_os\<close> states what the client relies on: descriptors behave as POSIX
  documents, and the reply the peer will have written when it closes its end is finite. The
  client is shown to close both ends on every path and to return. The interface is
  interpreted on the server model itself: the message is framed, received and dispatched as
  \<open>Transport\<close> and \<open>Server\<close> define, and the response bytes are what the client reads.
\<close>

section \<open>Responses\<close>

record sbus_response =
  rs_status :: json
  rs_message :: json
  rs_task_id :: json

text \<open>Only a decoding error and a missing key are turned into the client's own exception.\<close>

definition parse_response :: "string \<Rightarrow> sbus_response res" where
  "parse_response s =
     (case rbind (loads s) (\<lambda>resp. rbind (jgetitem resp ''status'') (\<lambda>st.
             rbind (jgetitem resp ''message'') (\<lambda>m. Inr (resp, st, m)))) of
        Inl e \<Rightarrow> (case e of ValueError _ \<Rightarrow> Inl SBusClientMalformedResponse
                 | KeyError _ \<Rightarrow> Inl SBusClientMalformedResponse | _ \<Rightarrow> Inl e)
      | Inr (resp, st, m) \<Rightarrow> rbind (jget resp ''task_id'') (\<lambda>tid.
          Inr \<lparr>rs_status = st, rs_message = m, rs_task_id = tid\<rparr>))"

section \<open>Requests\<close>

record 'w pipe_ops =
  os_pipe :: "'w \<Rightarrow> (errno + int \<times> int) \<times> 'w"
  sbus_send_msg :: "string \<Rightarrow> send_args \<Rightarrow> 'w \<Rightarrow> int \<times> 'w"
  os_read :: "int \<Rightarrow> nat \<Rightarrow> 'w \<Rightarrow> (errno + string) \<times> 'w"
  pipe_close :: "int \<Rightarrow> 'w \<Rightarrow> (errno + unit) \<times> 'w"

text \<open>The reading loop; \<open>None\<close> when the peer never closes its end.\<close>

partial_function (option) read_reply ::
  "'w pipe_ops \<Rightarrow> int \<Rightarrow> nat \<Rightarrow> string \<Rightarrow> 'w \<Rightarrow> (string res \<times> 'w) option" where
  "read_reply ops fd chunk_size reply w =
     (case os_read ops fd chunk_size w of
        (Inl e, w') \<Rightarrow> Some (Inl SBusClientIOError, w')
      | (Inr buf, w') \<Rightarrow>
          if buf = [] then Some (Inr reply, w') else read_reply ops fd chunk_size (reply @ buf) w')"

declare read_reply.simps [code]

text \<open>\<open>finally: os.close(fd)\<close>: an error of the close replaces the pending outcome.\<close>

definition finally_close :: "'w pipe_ops \<Rightarrow> int \<Rightarrow> 'a res \<times> 'w \<Rightarrow> 'a res \<times> 'w" where
  "finally_close ops fd rw = (case rw of (r, w) \<Rightarrow>
     (case pipe_close ops fd w of (Inl e, w') \<Rightarrow> (Inl (OSErrno e), w') | (Inr _, w') \<Rightarrow> (r, w')))"

definition send_command ::
  "'w pipe_ops \<Rightarrow> string \<Rightarrow> int \<Rightarrow> json \<Rightarrow> json \<Rightarrow> json \<Rightarrow> sfd list \<Rightarrow> 'w \<Rightarrow> unit res \<times> 'w" where
  "send_command ops path write_fd cmd ps tid extra_fds w =
     (case build_datagram cmd (SBusFileDescriptor SBUS_FD_SERVICE_OUT write_fd [] JNull # extra_fds) ps tid of
        Inl e \<Rightarrow> (Inl e, w)
      | Inr d \<Rightarrow> (case SBus_send (\<lambda>n a. sbus_send_msg ops n a w) path d of
                    (rc, w') \<Rightarrow> (if rc < 0 then Inl SBusClientSendError else Inr (), w')))"

definition request ::
  "'w pipe_ops \<Rightarrow> string \<Rightarrow> nat \<Rightarrow> json \<Rightarrow> json \<Rightarrow> json \<Rightarrow> sfd list \<Rightarrow> 'w \<Rightarrow> sbus_response res \<times> 'w" where
  "request ops path chunk_size cmd ps tid extra_fds w =
     (case os_pipe ops w of
        (Inl e, w1) \<Rightarrow> (Inl (OSErrno e), w1)
      | (Inr (read_fd, write_fd), w1) \<Rightarrow>
          (case finally_close ops write_fd (send_command ops path write_fd cmd ps tid extra_fds w1) of
             (Inl e, w2) \<Rightarrow> finally_close ops read_fd (Inl e, w2)
           | (Inr _, w2) \<Rightarrow>
               (case read_reply ops read_fd chunk_size [] w2 of
                  None \<Rightarrow> (Inl Diverges, w2)
                | Some rw \<Rightarrow>
                    (case finally_close ops read_fd rw of
                       (r, w3) \<Rightarrow> (rbind (rbind r utf8_decode) parse_response, w3)))))"

section \<open>Commands\<close>

record sbus_client =
  socket_path :: string
  chunk_size :: nat

definition SBusClient :: "string \<Rightarrow> sbus_client" where
  "SBusClient path = \<lparr>socket_path = path, chunk_size = 16\<rparr>"

definition client_request ::
  "'w pipe_ops \<Rightarrow> sbus_client \<Rightarrow> string \<Rightarrow> json \<Rightarrow> json \<Rightarrow> sfd list \<Rightarrow> 'w \<Rightarrow> sbus_response res \<times> 'w" where
  "client_request ops c cmd ps tid extra = request ops (socket_path c) (chunk_size c) (JStr cmd) ps tid extra"

definition client_execute :: "'w pipe_ops \<Rightarrow> sbus_client \<Rightarrow> json \<Rightarrow> sfd list \<Rightarrow> 'w \<Rightarrow> sbus_response res \<times> 'w" where
  "client_execute ops c invocation_params inv_fds =
     client_request ops c ''SBUS_CMD_EXECUTE'' invocation_params JNull inv_fds"

definition client_ping :: "'w pipe_ops \<Rightarrow> sbus_client \<Rightarrow> 'w \<Rightarrow> sbus_response res \<times> 'w" where
  "client_ping ops c = client_request ops c ''SBUS_CMD_PING'' JNull JNull []"

definition client_start_daemon ::
  "'w pipe_ops \<Rightarrow> sbus_client \<Rightarrow> json \<Rightarrow> json \<Rightarrow> json \<Rightarrow> json \<Rightarrow> json \<Rightarrow> json \<Rightarrow> json \<Rightarrow> 'w \<Rightarrow>
   sbus_response res \<times> 'w" where
  "client_start_daemon ops c language storlet_path storlet_id uds_path log_level pool_size language_version =
     (let ps = [(''daemon_language'', language), (''storlet_path'', storlet_path), (''storlet_name'', storlet_id),
                (''uds_path'', uds_path), (''log_level'', log_level), (''pool_size'', pool_size)];
          ps' = (if truthy language_version then dict_set ''daemon_language_version'' language_version ps else ps)
      in client_request ops c ''SBUS_CMD_START_DAEMON'' (JObj ps') JNull [])"

definition client_stop_daemon :: "'w pipe_ops \<Rightarrow> sbus_client \<Rightarrow> json \<Rightarrow> 'w \<Rightarrow> sbus_response res \<times> 'w" where
  "client_stop_daemon ops c storlet_name =
     client_request ops c ''SBUS_CMD_STOP_DAEMON'' (JObj [(''storlet_name'', storlet_name)]) JNull []"

definition client_stop_daemons :: "'w pipe_ops \<Rightarrow> sbus_client \<Rightarrow> 'w \<Rightarrow> sbus_response res \<times> 'w" where
  "client_stop_daemons ops c = client_request ops c ''SBUS_CMD_STOP_DAEMONS'' JNull JNull []"

definition client_halt :: "'w pipe_ops \<Rightarrow> sbus_client \<Rightarrow> 'w \<Rightarrow> sbus_response res \<times> 'w" where
  "client_halt ops c = client_request ops c ''SBUS_CMD_HALT'' JNull JNull []"

definition client_daemon_status :: "'w pipe_ops \<Rightarrow> sbus_client \<Rightarrow> json \<Rightarrow> 'w \<Rightarrow> sbus_response res \<times> 'w" where
  "client_daemon_status ops c storlet_name =
     client_request ops c ''SBUS_CMD_DAEMON_STATUS'' (JObj [(''storlet_name'', storlet_name)]) JNull []"

definition client_cancel :: "'w pipe_ops \<Rightarrow> sbus_client \<Rightarrow> json \<Rightarrow> 'w \<Rightarrow> sbus_response res \<times> 'w" where
  "client_cancel ops c tid = client_request ops c ''SBUS_CMD_CANCEL'' JNull tid []"

section \<open>The command line\<close>

text \<open>\<open>main()\<close> of \<open>cli.py\<close>: the exit status and the last line printed. Commands that take
  arguments are called without, which is a \<open>TypeError\<close>; any other name the client object has
  as an attribute is not callable.\<close>

definition cli_handler :: "'w pipe_ops \<Rightarrow> sbus_client \<Rightarrow> string \<Rightarrow> 'w \<Rightarrow> sbus_response res \<times> 'w" where
  "cli_handler ops c cmd w =
     (if cmd = ''ping'' then client_ping ops c w
      else if cmd = ''halt'' then client_halt ops c w
      else if cmd = ''stop_daemons'' then client_stop_daemons ops c w
      else if cmd \<in> set [''execute'', ''start_daemon'', ''stop_daemon'', ''daemon_status'', ''cancel'',
                        ''_request'', ''_parse_response''] then (Inl (TypeError ''missing arguments''), w)
      else if cmd \<in> set [''socket_path'', ''chunk_size''] then (Inl (TypeError ''object is not callable''), w)
      else (Inl (AttributeError cmd), w))"

definition cli_main :: "'w pipe_ops \<Rightarrow> (string \<Rightarrow> bool) \<Rightarrow> string list \<Rightarrow> 'w \<Rightarrow> (int \<times> string) res \<times> 'w" where
  "cli_main ops exists argv w =
     (if length argv < 3 then (Inr (1, ''sbus <command> <pipe_path>''), w)
      else
        let cmd = argv ! 1; pipe_path = argv ! 2 in
        if \<not> exists pipe_path then (Inr (1, ''ERROR: Pipe file '' @ pipe_path @ '' does not exist''), w)
        else (case cli_handler ops (SBusClient pipe_path) cmd w of
            (Inl e, w') \<Rightarrow>
              ((case e of
                 AttributeError _ \<Rightarrow> Inr (1, ''ERROR: Command '' @ cmd @ '' is not supported'')
               | NotImplementedError \<Rightarrow> Inr (1, ''ERROR: Command '' @ cmd @ '' is not supported'')
               | _ \<Rightarrow> if is_SBusClientException e
                      then Inr (1, ''ERROR: Failed to send sbus command '' @ cmd @ '' to '' @ pipe_path)
                      else if is_Exception e then Inr (1, ''ERROR: Unknown error'') else Inl e), w')
          | (Inr resp, w') \<Rightarrow>
              (Inr (if truthy (rs_status resp) then (0, ''OK'') else (1, ''ERROR: Got error response'')), w')))"

lemma loads_error: "loads s = Inl e \<Longrightarrow> \<exists>m. e = ValueError m"
  by (auto simp: loads_def split: option.splits prod.splits if_splits)

lemma utf8_decode_error: "utf8_decode s = Inl e \<Longrightarrow> \<exists>m. e = ValueError m"
proof (induction s rule: utf8_decode.induct)
  case (2 b bs)
  show ?case
  proof (cases "(of_char b :: nat) < 128")
    case True
    then show ?thesis using 2 by (auto simp: Let_def rbind_def split: sum.splits)
  next
    case False
    then show ?thesis using 2 by (cases bs) (auto simp: Let_def rbind_def split: if_splits sum.splits)
  qed
qed simp

lemma parse_response_error:
  assumes "parse_response s = Inl e"
  shows "is_Exception e"
proof (cases "loads s")
  case (Inl e)
  then show ?thesis
    using assms loads_error [OF Inl] by (auto simp: parse_response_def is_Exception_def)
next
  case (Inr v)
  then show ?thesis
    using assms by (cases v) (auto simp: parse_response_def rbind_def is_Exception_def split: option.splits sum.splits)
qed

lemma reply_error: "rbind (utf8_decode s) parse_response = Inl e \<Longrightarrow> is_Exception e"
  using utf8_decode_error parse_response_error
  by (fastforce simp: rbind_def is_Exception_def split: sum.splits)

section \<open>The pipe interface\<close>

locale pipe_os =
  fixes ops :: "'w pipe_ops" and open_fds :: "'w \<Rightarrow> int set" and rest :: "int \<Rightarrow> 'w \<Rightarrow> string" and ok :: "'w \<Rightarrow> bool"
  assumes pipe: "ok w \<Longrightarrow> os_pipe ops w = (p, w') \<Longrightarrow> ok w' \<and> (case p of Inl _ \<Rightarrow> open_fds w' = open_fds w
      | Inr (rfd, wfd) \<Rightarrow> rfd \<noteq> wfd \<and> rfd \<notin> open_fds w \<and> wfd \<notin> open_fds w \<and>
          open_fds w' = insert rfd (insert wfd (open_fds w)))"
    and send: "ok w \<Longrightarrow> sbus_send_msg ops name a w = (rc, w') \<Longrightarrow> ok w' \<and> open_fds w' = open_fds w"
    and read: "ok w \<Longrightarrow> fd \<in> open_fds w \<Longrightarrow> 0 < n \<Longrightarrow> os_read ops fd n w = (b, w') \<Longrightarrow>
      ok w' \<and> open_fds w' = open_fds w \<and>
      (case b of Inl _ \<Rightarrow> True | Inr d \<Rightarrow> rest fd w = d @ rest fd w' \<and> length d \<le> n \<and> (d = [] \<longrightarrow> rest fd w = []))"
    and close: "ok w \<Longrightarrow> fd \<in> open_fds w \<Longrightarrow> pipe_close ops fd w = (c, w') \<Longrightarrow>
      ok w' \<and> c = Inr () \<and> open_fds w' = open_fds w - {fd} \<and> (\<forall>f. f \<noteq> fd \<longrightarrow> rest f w' = rest f w)"
begin

lemma read_reply_spec:
  assumes "ok w" "fd \<in> open_fds w" "0 < n"
  shows "\<exists>r w'. read_reply ops fd n acc w = Some (r, w') \<and> ok w' \<and> open_fds w' = open_fds w \<and>
    (r = Inr (acc @ rest fd w) \<or> r = Inl SBusClientIOError)"
  using assms
proof (induction "length (rest fd w)" arbitrary: w acc rule: less_induct)
  case less
  obtain b w1 where b: "os_read ops fd n w = (b, w1)" by (cases "os_read ops fd n w")
  note rd = read [OF less.prems b]
  show ?case
  proof (cases "\<exists>d. b = Inr d \<and> d \<noteq> []")
    case True
    then obtain d where d: "b = Inr d" "d \<noteq> []" by blast
    then have "length (rest fd w1) < length (rest fd w)" "rest fd w = d @ rest fd w1" using rd by auto
    then show ?thesis
      using less.hyps [of w1 "acc @ d"] less.prems rd b d by (simp add: read_reply.simps [of ops fd n acc w])
  next
    case False
    then show ?thesis using rd b by (cases b) (auto simp: read_reply.simps [of ops fd n acc w])
  qed
qed

lemma finally_close_spec:
  assumes "ok w" "fd \<in> open_fds w"
  shows "\<exists>w'. finally_close ops fd (r, w) = (r, w') \<and> ok w' \<and> open_fds w' = open_fds w - {fd} \<and>
    (\<forall>f. f \<noteq> fd \<longrightarrow> rest f w' = rest f w)"
proof -
  obtain c w' where "pipe_close ops fd w = (c, w')" by (cases "pipe_close ops fd w")
  with close [OF assms this] show ?thesis by (auto simp: finally_close_def)
qed

lemma send_command_spec:
  assumes "ok w" "send_command ops path wfd cmd ps tid extra w = (r, w')"
  shows "ok w' \<and> open_fds w' = open_fds w \<and> (\<forall>e. r = Inl e \<longrightarrow> is_Exception e)"
  using assms send [of w "utf8_encode path"]
  by (auto simp: is_Exception_def send_command_def SBus_send_def build_datagram_def execute_datagram_def service_datagram_def
      datagram_init_def check_required_fdtypes_def Let_def split: sum.splits prod.splits if_splits)

text \<open>No descriptor leaks, whatever the outcome, and the request returns.\<close>

lemma request_spec:
  assumes "ok w" "0 < n"
  shows "\<exists>r w'. request ops path n cmd ps tid extra w = (r, w') \<and> ok w' \<and> open_fds w' = open_fds w \<and>
    (\<forall>e. r = Inl e \<longrightarrow> is_Exception e)"
proof -
  obtain p w1 where p: "os_pipe ops w = (p, w1)" by (cases "os_pipe ops w")
  note pp = pipe [OF assms(1) p]
  show ?thesis
  proof (cases p)
    case (Inl e)
    then show ?thesis using p pp by (simp add: request_def is_Exception_def)
  next
    case (Inr fds)
    obtain rfd wfd where f: "fds = (rfd, wfd)" by (cases fds)
    have w1: "ok w1" "rfd \<noteq> wfd" "rfd \<notin> open_fds w" "wfd \<notin> open_fds w"
      "open_fds w1 = insert rfd (insert wfd (open_fds w))" using pp Inr f by auto
    obtain r1 w2 where sc: "send_command ops path wfd cmd ps tid extra w1 = (r1, w2)"
      by (cases "send_command ops path wfd cmd ps tid extra w1")
    note s = send_command_spec [OF w1(1) sc]
    have "insert rfd (insert wfd (open_fds w)) - {wfd} = insert rfd (open_fds w)" using w1 by auto
    then obtain w3 where w3: "finally_close ops wfd (r1, w2) = (r1, w3)" "ok w3"
        "open_fds w3 = insert rfd (open_fds w)"
      using finally_close_spec [of w2 wfd r1] s w1 by auto
    have shut: "\<exists>w'. finally_close ops rfd (r, v) = (r, w') \<and> ok w' \<and> open_fds w' = open_fds w"
      if "ok v" "open_fds v = insert rfd (open_fds w)" for v and r :: "'x res"
      using finally_close_spec [of v rfd r] that w1(3) by auto
    show ?thesis
    proof (cases r1)
      case (Inl e)
      then show ?thesis using shut [OF w3(2,3), of "Inl e :: sbus_response res"] p \<open>p = Inr fds\<close> f sc w3(1) s
        by (auto simp: request_def)
    next
      case Inr1: (Inr u)
      obtain r w4 where rr: "read_reply ops rfd n [] w3 = Some (r, w4)" "ok w4" "open_fds w4 = open_fds w3"
          "r = Inr (rest rfd w3) \<or> r = Inl SBusClientIOError"
        using read_reply_spec [of w3 rfd n "[]"] w3 assms(2) by auto
      then show ?thesis using shut [of w4 r] p \<open>p = Inr fds\<close> f sc w3 Inr1
        by (auto simp: request_def is_Exception_def [of SBusClientIOError] dest: reply_error)
    qed
  qed
qed

text \<open>When no read fails the client parses exactly what the peer wrote.\<close>

lemma request_reply:
  assumes "ok w" "0 < n" "os_pipe ops w = (Inr (rfd, wfd), w1)"
    and "send_command ops path wfd cmd ps tid extra w1 = (Inr (), w2)"
    and "\<And>k v e v'. os_read ops rfd k v \<noteq> (Inl e, v')"
  shows "\<exists>w'. request ops path n cmd ps tid extra w =
    (rbind (utf8_decode (rest rfd w2)) parse_response, w') \<and> open_fds w' = open_fds w"
proof -
  have w1: "ok w1" "rfd \<noteq> wfd" "rfd \<notin> open_fds w" "wfd \<notin> open_fds w"
      "open_fds w1 = insert rfd (insert wfd (open_fds w))" using pipe [OF assms(1,3)] by auto
  note s = send_command_spec [OF w1(1) assms(4)]
  have ins: "insert rfd (insert wfd (open_fds w)) - {wfd} = insert rfd (open_fds w)" using w1 by auto
  obtain w3 where w3: "finally_close ops wfd (Inr (), w2) = (Inr (), w3)" "ok w3"
      "open_fds w3 = insert rfd (open_fds w)" "rest rfd w3 = rest rfd w2"
    using finally_close_spec [of w2 wfd "Inr () :: unit res"] s w1 ins by auto
  have noerr: "read_reply ops rfd n acc v \<noteq> Some (Inl SBusClientIOError, v')"
    if "ok v" "rfd \<in> open_fds v" for acc v v'
    using that
  proof (induction "length (rest rfd v)" arbitrary: v acc rule: less_induct)
    case less
    obtain d v1 where d: "os_read ops rfd n v = (Inr d, v1)"
      using assms(5) by (metis (no_types, opaque_lifting) old.sum.exhaust surj_pair)
    note rd = read [OF less.prems assms(2) d]
    show ?case using rd d less.hyps [of v1 "acc @ d"] less.prems
      by (cases "d = []") (auto simp: read_reply.simps [of ops rfd n acc v])
  qed
  obtain w4 where rr: "read_reply ops rfd n [] w3 = Some (Inr (rest rfd w3), w4)" "ok w4" "open_fds w4 = open_fds w3"
    using read_reply_spec [of w3 rfd n "[]"] noerr [of w3] w3 assms(2) by auto
  obtain w5 where "finally_close ops rfd (Inr (rest rfd w3) :: string res, w4) = (Inr (rest rfd w3), w5)"
      "open_fds w5 = open_fds w"
    using finally_close_spec [of w4 rfd "Inr (rest rfd w3) :: string res"] rr w3 w1(3) by auto
  then show ?thesis using assms(3,4) w3 rr by (simp add: request_def)
qed

end
section \<open>A client and a server\<close>

text \<open>The world of a client whose peer is a server with handlers \<open>hs\<close>: what the C library
  puts on the socket is received and dispatched by the server, whose response is what the
  pipe delivers. A server that leaves its loop with an exception answers nothing.\<close>

record 's served =
  sv_state :: 's
  sv_open :: "int list"
  sv_next :: int
  sv_reply :: string

definition sv_serve :: "(string \<times> 's handler) list \<Rightarrow> string \<Rightarrow> send_args \<Rightarrow> 's served \<Rightarrow> int \<times> 's served" where
  "sv_serve hs name a w =
     (case SBus_receive 0 (sbus_recv_msg (map int [0 ..< nat (sa_n_files a)]) (dump_data_to_bytestream a) []) of
        Inr (Some dtg) \<Rightarrow>
          (case dispatch_command hs True dtg (sv_state w) of
             (Inr (_, out), st) \<Rightarrow> (0, w\<lparr>sv_state := st, sv_reply := out\<rparr>)
           | (Inl _, st) \<Rightarrow> (0, w\<lparr>sv_state := st, sv_reply := []\<rparr>))
      | _ \<Rightarrow> (0, w\<lparr>sv_reply := []\<rparr>))"

definition sv_pipe :: "'s served \<Rightarrow> (errno + int \<times> int) \<times> 's served" where
  "sv_pipe w = (Inr (sv_next w, sv_next w + 1),
     w\<lparr>sv_open := sv_next w # (sv_next w + 1) # sv_open w, sv_next := sv_next w + 2\<rparr>)"

definition sv_read :: "int \<Rightarrow> nat \<Rightarrow> 's served \<Rightarrow> (errno + string) \<times> 's served" where
  "sv_read fd n w = (Inr (take n (sv_reply w)), w\<lparr>sv_reply := drop n (sv_reply w)\<rparr>)"

definition sv_close :: "int \<Rightarrow> 's served \<Rightarrow> (errno + unit) \<times> 's served" where
  "sv_close fd w = (if fd \<in> set (sv_open w) then (Inr (), w\<lparr>sv_open := removeAll fd (sv_open w)\<rparr>)
     else (Inl EBADF, w))"

definition served_ops :: "(string \<times> 's handler) list \<Rightarrow> 's served pipe_ops" where
  "served_ops hs = \<lparr>os_pipe = sv_pipe, sbus_send_msg = sv_serve hs, os_read = sv_read, pipe_close = sv_close\<rparr>"

definition sv_ok :: "'s served \<Rightarrow> bool" where
  "sv_ok w \<longleftrightarrow> (\<forall>fd \<in> set (sv_open w). fd < sv_next w)"

lemma sv_serve_open: "sv_serve hs name a w = (rc, w') \<Longrightarrow> sv_open w' = sv_open w \<and> sv_next w' = sv_next w"
  by (auto simp: sv_serve_def split: sum.splits option.splits prod.splits)

interpretation srv: pipe_os "served_ops hs" "\<lambda>w. set (sv_open w)" "\<lambda>fd. sv_reply" sv_ok for hs
proof (unfold_locales, goal_cases)
  case (1 w p w')
  then show ?case by (force simp: served_ops_def sv_pipe_def sv_ok_def)
next
  case (2 w name a rc w')
  then show ?case using sv_serve_open [of hs name a w rc w'] by (simp add: served_ops_def sv_ok_def)
next
  case (3 w fd n b w')
  then show ?case by (auto simp: served_ops_def sv_read_def sv_ok_def)
next
  case (4 w fd c w')
  then show ?case by (auto simp: served_ops_def sv_close_def sv_ok_def)
qed

text \<open>What the client makes of a server's response.\<close>

definition response_of :: "cmd_resp \<Rightarrow> sbus_response" where
  "response_of r = \<lparr>rs_status = JBool (status r), rs_message = JStr (message r),
     rs_task_id = (case resp_task_id r of None \<Rightarrow> JNull | Some t \<Rightarrow> if t = [] then JNull else JStr t)\<rparr>"

lemma parse_report: "parse_response (report_message r) = Inr (response_of r)"
proof -
  have "loads (report_message r) = Inr (report_json r)"
    unfolding report_message_def by (rule js.dec_enc) simp
  then show ?thesis
    by (auto simp: parse_response_def report_json_def response_of_def dict_get_def split: option.splits)
qed

text \<open>Sending a datagram to a server leaves its response in the pipe.\<close>

lemma send_served:
  assumes srv: "sbus_server hs I" and st: "I (sv_state w)"
    and d: "build_datagram cmd ss ps tid = Inr d"
    and ss: "ss = SBusFileDescriptor SBUS_FD_SERVICE_OUT wfd [] JNull # extra"
    and dok: "dtg_ok d" and size: "wire_size d \<le> MAX_MSG_LENGTH" and nf: "length ss < 2 ^ 31"
  shows "\<exists>r st'. handle_command hs (d\<lparr>sfds := renumber (map int [0 ..< length ss]) ss\<rparr>) (sv_state w) = (Inr r, st') \<and>
    I st' \<and> send_command (served_ops hs) path wfd cmd ps tid extra w
      = (Inr (), w\<lparr>sv_state := st', sv_reply := report_message r\<rparr>)"
proof -
  note wf = build_datagram_Inr [OF d]
  let ?d = "d\<lparr>sfds := renumber (map int [0 ..< length ss]) ss\<rparr>"
  have nfd: "nat (sa_n_files (send_message d)) = length ss"
    using wf nf ss by (simp add: send_message_def Let_def num_fds_def c_int_id)
  have rc: "SBus_receive 0 (sbus_recv_msg (map int [0 ..< length ss]) (dump_data_to_bytestream (send_message d)) [])
      = Inr (Some ?d)"
    by (rule receive_sent [OF d dok size nf]) simp
  have wfd: "dtg_wf ?d"
    using wf by (cases "dclass d") (auto simp: dtg_wf_def Let_def)
  obtain r st' where disp: "dispatch_command hs True ?d (sv_state w) = (Inr (iterable r, report_message r), st')"
      "handle_command hs ?d (sv_state w) = (Inr r, st')" "I st'"
    using sbus_server.dispatch_alive [OF srv st wfd] by blast
  then show ?thesis using d ss rc nfd
    by (simp add: send_command_def SBus_send_def served_ops_def sv_serve_def)
qed

lemma request_served:
  assumes srv: "sbus_server hs I" and st: "I (sv_state w)" and ok: "sv_ok w" "0 < n"
    and d: "build_datagram cmd ss ps tid = Inr d"
    and ss: "ss = SBusFileDescriptor SBUS_FD_SERVICE_OUT (sv_next w + 1) [] JNull # extra"
    and dok: "dtg_ok d" and size: "wire_size d \<le> MAX_MSG_LENGTH" and nf: "length ss < 2 ^ 31"
  shows "\<exists>r st' w'. handle_command hs (d\<lparr>sfds := renumber (map int [0 ..< length ss]) ss\<rparr>) (sv_state w) = (Inr r, st') \<and>
    I st' \<and> request (served_ops hs) path n cmd ps tid extra w = (Inr (response_of r), w') \<and>
    set (sv_open w') = set (sv_open w)"
proof -
  let ?d = "d\<lparr>sfds := renumber (map int [0 ..< length ss]) ss\<rparr>"
  define w1 where "w1 = snd (sv_pipe w)"
  have w1: "sv_state w1 = sv_state w" by (simp add: w1_def sv_pipe_def)
  obtain r st' where disp: "handle_command hs ?d (sv_state w) = (Inr r, st')" "I st'"
      "send_command (served_ops hs) path (sv_next w + 1) cmd ps tid extra w1
        = (Inr (), w1\<lparr>sv_state := st', sv_reply := report_message r\<rparr>)"
    using send_served [OF srv st [folded w1] d ss dok size nf, of path] w1 by auto
  note disp(3)
  moreover have "os_pipe (served_ops hs) w = (Inr (sv_next w, sv_next w + 1), w1)"
    by (simp add: served_ops_def w1_def sv_pipe_def)
  moreover have "utf8_decode (report_message r) = Inr (report_message r)"
    unfolding report_message_def by (rule js.utf8_dec_enc) simp
  ultimately have "\<exists>w'. request (served_ops hs) path n cmd ps tid extra w = (Inr (response_of r), w') \<and>
      set (sv_open w') = set (sv_open w)"
    using srv.request_reply [OF ok, of hs "sv_next w" "sv_next w + 1" w1 path cmd ps tid extra]
    by (auto simp: parse_report served_ops_def sv_read_def)
  then show ?thesis using disp by blast
qed

section \<open>Properties\<close>

text \<open>A client request never leaks a descriptor: on success, on a refused datagram, on a failed send, on a read
  error and on a malformed reply, the pipe it opened is closed at both ends when it returns, and it does return
  as soon as the peer has closed its end.\<close>

theorem request_closes_pipe:
  assumes "pipe_os ops open_fds rest ok" "ok w" "0 < n"
  shows "\<exists>r w'. request ops path n cmd ps tid extra w = (r, w') \<and> open_fds w' = open_fds w \<and>
    (\<forall>e. r = Inl e \<longrightarrow> is_Exception e)"
  using pipe_os.request_spec [OF assms] by blast

definition sample_served :: "nat served" where
  "sample_served = \<lparr>sv_state = 0, sv_open = [], sv_next = 10, sv_reply = []\<rparr>"

lemma sample_served_ok: "sv_ok sample_served" by (simp add: sv_ok_def sample_served_def)

theorem request_closes_pipe_witness:
  "\<exists>r w'. request (served_ops [(''ping'', ping)]) ''/p'' 16 (JStr ''SBUS_CMD_PING'') JNull JNull [] sample_served = (r, w') \<and>
     set (sv_open w') = {}"
  using request_closes_pipe [OF srv.pipe_os_axioms sample_served_ok, of 16]
  by (fastforce simp: sample_served_def)

text \<open>The client reads a server's response back: status, message and task id are those of the response the
  server reported.\<close>

theorem parse_response_inverts_report: "parse_response (report_message r) = Inr (response_of r)"
  by (rule parse_report)

text \<open>A reply that is JSON but no object makes the client raise \<open>TypeError\<close> instead of its own
  \<open>SBusClientMalformedResponse\<close>.\<close>

theorem non_object_reply_escapes: "parse_response ''[]'' = Inl (TypeError ''not subscriptable with a str'')"
  by code_simp

end
