(* ===== verification/Files.thy ===== *)
theory Files
  imports Json
begin

text \<open>
  The file objects a Python storlet works on (\<open>storlets/agent/daemon/files.py\<close>): buffered
  input with \<open>read\<close>, \<open>readline\<close> and \<open>readlines\<close>, its range-limited variant, output whose
  metadata has to precede the body, and the storlet's log.

  An object opened by \<open>os.fdopen(fd, 'rb')\<close> is modelled by the bytes that can be read from
  it until end of file (for a pipe: all that the peer will send), the read position and
  whether it is closed; \<open>read(n)\<close> of Python's buffered reader returns \<open>n\<close> bytes unless the
  end comes first, \<open>read(-1)\<close> everything, and refuses other negative sizes. An object opened
  for writing holds the bytes written to it. Failing system calls are not modelled here.
\<close>

section \<open>Python file objects\<close>

record rfile =
  r_content :: string
  r_pos :: nat
  r_closed :: bool

definition rfile_read :: "rfile \<Rightarrow> int \<Rightarrow> string res \<times> rfile" where
  "rfile_read f n =
     (if r_closed f then (Inl (ValueError ''read of closed file''), f)
      else if n < -1 then (Inl (ValueError ''read length must be non-negative or -1''), f)
      else let left = drop (r_pos f) (r_content f);
               data = (if n = -1 then left else take (nat n) left)
           in (Inr data, f\<lparr>r_pos := r_pos f + length data\<rparr>))"

definition rfile_seek :: "rfile \<Rightarrow> int \<Rightarrow> rfile res" where
  "rfile_seek f n = (if r_closed f then Inl (ValueError ''seek of closed file'')
     else if n < 0 then Inl (OSErrno (Eother 22)) else Inr (f\<lparr>r_pos := nat n\<rparr>))"

record wfile =
  w_data :: string
  w_closed :: bool

definition wfile_open :: wfile where "wfile_open = \<lparr>w_data = [], w_closed = False\<rparr>"

definition wfile_write :: "wfile \<Rightarrow> string \<Rightarrow> unit res \<times> wfile" where
  "wfile_write f s = (if w_closed f then (Inl (ValueError ''write to closed file''), f)
     else (Inr (), f\<lparr>w_data := w_data f @ s\<rparr>))"

definition wfile_flush :: "wfile \<Rightarrow> unit res" where
  "wfile_flush f = (if w_closed f then Inl (ValueError ''flush of closed file'') else Inr ())"

definition wfile_close :: "wfile \<Rightarrow> wfile" where
  "wfile_close f = f\<lparr>w_closed := True\<rparr>"

section \<open>Input files\<close>

text \<open>\<open>StorletInputFile\<close>; the subclass \<open>StorletRangeInputFile\<close> adds start, end and the
  current point, kept in \<open>in_range\<close>.\<close>

record range = rg_start :: int  rg_end :: int  rg_point :: int

record infile =
  in_fd :: int
  in_file :: rfile
  in_metadata :: json
  in_buf :: string
  in_range :: "range option"

definition StorletInputFile :: "json \<Rightarrow> int \<Rightarrow> rfile \<Rightarrow> infile" where
  "StorletInputFile md fd f = \<lparr>in_fd = fd, in_file = f, in_metadata = md, in_buf = [], in_range = None\<rparr>"

definition StorletRangeInputFile :: "json \<Rightarrow> int \<Rightarrow> rfile \<Rightarrow> int \<Rightarrow> int \<Rightarrow> infile res" where
  "StorletRangeInputFile md fd f start end' =
     rbind (rfile_seek f start) (\<lambda>f'.
       Inr ((StorletInputFile md fd f')\<lparr>in_range :=
         Some \<lparr>rg_start = start, rg_end = end', rg_point = start\<rparr>\<rparr>))"

definition in_closed :: "infile \<Rightarrow> bool" where "in_closed f = r_closed (in_file f)"

definition in_close :: "infile \<Rightarrow> infile" where
  "in_close f = f\<lparr>in_file := (in_file f)\<lparr>r_closed := True\<rparr>\<rparr>"

text \<open>\<open>_read\<close>: the plain method, or the range subclass's, which caps the size.\<close>

definition in__read :: "infile \<Rightarrow> int \<Rightarrow> string res \<times> infile" where
  "in__read f sz =
     (case in_range f of
        None \<Rightarrow> (case rfile_read (in_file f) sz of (r, g) \<Rightarrow> (r, f\<lparr>in_file := g\<rparr>))
      | Some rg \<Rightarrow>
         (let sz' = (if sz \<ge> 0 then min sz (rg_end rg - rg_point rg) else rg_end rg - rg_point rg) in
          case rfile_read (in_file f) sz' of
            (Inl e, g) \<Rightarrow> (Inl e, f\<lparr>in_file := g\<rparr>)
          | (Inr data, g) \<Rightarrow> (Inr data, f\<lparr>in_file := g,
              in_range := Some (rg\<lparr>rg_point := rg_point rg + int (length data)\<rparr>)\<rparr>)))"

definition in_read :: "infile \<Rightarrow> int \<Rightarrow> string res \<times> infile" where
  "in_read f sz =
     (if sz \<ge> 0 then
        if int (length (in_buf f)) \<ge> sz then
          (Inr (take (nat sz) (in_buf f)), f\<lparr>in_buf := drop (nat sz) (in_buf f)\<rparr>)
        else (case in__read f (sz - int (length (in_buf f))) of
                (Inl e, f') \<Rightarrow> (Inl e, f')
              | (Inr d, f') \<Rightarrow> (Inr (in_buf f @ d), f'\<lparr>in_buf := []\<rparr>))
      else (case in__read f (-1) of
                (Inl e, f') \<Rightarrow> (Inl e, f')
              | (Inr d, f') \<Rightarrow> (Inr (in_buf f @ d), f'\<lparr>in_buf := []\<rparr>)))"

text \<open>Iteration (\<open>next\<close>): everything at once, then the end.\<close>

definition in_next :: "infile \<Rightarrow> string res \<times> infile" where
  "in_next f = (case in_read f (-1) of (Inl e, f') \<Rightarrow> (Inl e, f')
     | (Inr b, f') \<Rightarrow> (if b = [] then (Inl StopIteration, f') else (Inr b, f')))"

abbreviation nl :: char where "nl \<equiv> CHR 0x0A"

text \<open>Bytes not yet returned: what bounds the loops below.\<close>

definition in_avail :: "infile \<Rightarrow> nat" where
  "in_avail f = length (in_buf f) + (length (r_content (in_file f)) - r_pos (in_file f))"

lemma rfile_read_avail:
  "rfile_read g n = (Inr d, g') \<Longrightarrow>
    r_content g' = r_content g \<and>
    (length (r_content g) - r_pos g') + length d = length (r_content g) - r_pos g"
  by (auto simp: rfile_read_def Let_def split: if_splits)

lemma in__read_avail:
  "in__read f n = (Inr d, f') \<Longrightarrow> in_buf f' = in_buf f \<and>
    in_avail f' + length d = in_avail f"
  by (auto simp: in__read_def in_avail_def Let_def dest!: rfile_read_avail split: option.splits prod.splits sum.splits)

lemma in_read_avail: "in_read f n = (Inr d, f') \<Longrightarrow> in_avail f' + length d = in_avail f"
  by (auto simp: in_read_def in_avail_def dest!: in__read_avail split: if_splits prod.splits sum.splits)

lemma avail_less: "a + length b = c \<Longrightarrow> b \<noteq> [] \<Longrightarrow> a < (c :: nat)"
  by (cases b) auto

function readline_loop :: "int \<Rightarrow> string \<Rightarrow> infile \<Rightarrow> string res \<times> infile" where
  "readline_loop sz data f =
     (if nl \<notin> set data \<and> (sz < 0 \<or> int (length data) < sz) then
        (case in_read f (if sz < 0 then 1024 else sz - int (length data)) of
           (Inl e, f') \<Rightarrow> (Inl e, f')
         | (Inr chunk, f') \<Rightarrow>
             if chunk = [] then (Inr data, f') else readline_loop sz (data @ chunk) f')
      else (Inr data, f))"
  by pat_completeness auto
termination
  by (relation "measure (\<lambda>(sz, data, f). in_avail f)") (auto dest!: in_read_avail [OF sym] intro: avail_less)

declare readline_loop.simps [simp del]

definition in_readline :: "infile \<Rightarrow> int \<Rightarrow> string res \<times> infile" where
  "in_readline f sz =
     (case readline_loop sz [] f of
        (Inl e, f') \<Rightarrow> (Inl e, f')
      | (Inr data, f') \<Rightarrow>
          if nl \<in> set data then
            (case partition_on nl data of (a, sep, r) \<Rightarrow>
               (Inr (a @ sep), f'\<lparr>in_buf := r @ in_buf f'\<rparr>))
          else (Inr data, f'))"

lemma readline_loop_avail:
  "readline_loop n data f = (Inr d, f') \<Longrightarrow> length data + in_avail f = length d + in_avail f'"
proof (induction n data f arbitrary: d f' rule: readline_loop.induct)
  case (1 sz data f)
  show ?case
    using "1.prems" "1.IH" readline_loop.simps [of sz data f]
    by (fastforce split: if_splits prod.splits sum.splits dest: in_read_avail)
qed

lemma in_readline_avail: "in_readline f n = (Inr d, f') \<Longrightarrow> in_avail f' + length d = in_avail f"
  by (auto simp: in_readline_def in_avail_def split: if_splits prod.splits sum.splits
      dest!: readline_loop_avail partition_on_append)

text \<open>\<open>readlines\<close>: as written, a non-negative \<open>sizehint\<close> grows by the length of each line.\<close>

function readlines_loop :: "int \<Rightarrow> string list \<Rightarrow> infile \<Rightarrow> string list res \<times> infile" where
  "readlines_loop hint lines f =
     (case in_readline f hint of
        (Inl e, f') \<Rightarrow> (Inl e, f')
      | (Inr line, f') \<Rightarrow>
          if line = [] then (Inr lines, f')
          else if hint \<ge> 0 then
            (let hint' = hint + int (length line) in
             if hint' \<le> 0 then (Inr (lines @ [line]), f')
             else readlines_loop hint' (lines @ [line]) f')
          else readlines_loop hint (lines @ [line]) f')"
  by pat_completeness auto
termination
  by (relation "measure (\<lambda>(hint, lines, f). in_avail f)") (auto dest!: in_readline_avail [OF sym] intro: avail_less)

declare readlines_loop.simps [simp del]

definition in_readlines :: "infile \<Rightarrow> int \<Rightarrow> string list res \<times> infile" where
  "in_readlines f sizehint = readlines_loop sizehint [] f"

section \<open>What reading means\<close>

text \<open>The bytes a file will still deliver, and the states in which reading cannot fail.\<close>

definition src_rest :: "infile \<Rightarrow> string" where
  "src_rest f = (let left = drop (r_pos (in_file f)) (r_content (in_file f)) in
     case in_range f of None \<Rightarrow> left | Some rg \<Rightarrow> take (nat (rg_end rg - rg_point rg)) left)"

definition in_rest :: "infile \<Rightarrow> string" where
  "in_rest f = in_buf f @ src_rest f"

definition in_ok :: "infile \<Rightarrow> bool" where
  "in_ok f \<longleftrightarrow> \<not> in_closed f \<and>
     (case in_range f of None \<Rightarrow> True | Some rg \<Rightarrow> rg_start rg \<le> rg_point rg \<and> rg_point rg \<le> rg_end rg)"

lemma rfile_read_open:
  "\<not> r_closed g \<Longrightarrow> -1 \<le> n \<Longrightarrow> rfile_read g n =
     (let d = (if n = -1 then drop (r_pos g) (r_content g) else take (nat n) (drop (r_pos g) (r_content g)))
      in (Inr d, g\<lparr>r_pos := r_pos g + length d\<rparr>))"
  by (simp add: rfile_read_def Let_def)

lemma in__read_plain:
  assumes "in_ok f" "-1 \<le> n" "in_range f = None"
  shows "\<exists>f'. in__read f n = (Inr (if n < 0 then src_rest f else take (nat n) (src_rest f)), f') \<and>
    in_ok f' \<and> in_buf f' = in_buf f \<and>
    src_rest f' = (if n < 0 then [] else drop (nat n) (src_rest f))"
  using assms
  by (auto simp: in__read_def in_ok_def in_closed_def rfile_read_open src_rest_def Let_def
      drop_drop add.commute min_def)

lemma in__read_range:
  assumes "in_ok f" "-1 \<le> n" "in_range f = Some rg"
  shows "\<exists>f'. in__read f n = (Inr (if n < 0 then src_rest f else take (nat n) (src_rest f)), f') \<and>
    in_ok f' \<and> in_buf f' = in_buf f \<and>
    src_rest f' = (if n < 0 then [] else drop (nat n) (src_rest f))"
proof -
  let ?left = "drop (r_pos (in_file f)) (r_content (in_file f))"
  define room where "room = rg_end rg - rg_point rg"
  define k where "k = (if n \<ge> 0 then min n room else room)"
  have room: "0 \<le> room" "rg_start rg \<le> rg_point rg" and opn: "\<not> r_closed (in_file f)"
    using assms by (auto simp: in_ok_def in_closed_def room_def)
  have k0: "0 \<le> k" "k \<noteq> -1" using room by (auto simp: k_def)
  let ?d = "take (nat k) ?left"
  have rd: "in__read f n = (Inr ?d, f\<lparr>in_file := (in_file f)\<lparr>r_pos := r_pos (in_file f) + length ?d\<rparr>,
      in_range := Some (rg\<lparr>rg_point := rg_point rg + int (length ?d)\<rparr>)\<rparr>)"
  proof -
    have kk: "(if n \<ge> 0 then min n (rg_end rg - rg_point rg) else rg_end rg - rg_point rg) = k"
      by (simp add: k_def room_def)
    show ?thesis
      unfolding in__read_def assms(3) option.case Let_def kk using opn k0 by (simp add: rfile_read_open Let_def)
  qed
  have src: "src_rest f = take (nat room) ?left" using assms(3) by (simp add: src_rest_def room_def Let_def)
  have d: "?d = (if n < 0 then src_rest f else take (nat n) (src_rest f))"
    using room by (auto simp: src k_def min_def)
  have "int (length ?d) \<le> room" using k0 room by (auto simp: k_def)
  moreover have "take (nat (room - int (length ?d))) (drop (r_pos (in_file f) + length ?d) (r_content (in_file f)))
      = drop (nat k) (take (nat room) ?left)"
  proof (cases "nat k \<le> length ?left")
    case True
    then have "int (length ?d) = k" using k0 by simp
    moreover have "nat (room - k) = nat room - nat k" using k0 by (simp add: nat_diff_distrib')
    ultimately show ?thesis using k0 by (simp add: drop_take drop_drop add.commute)
  qed (simp add: drop_drop add.commute)
  moreover have "drop (nat k) (take (nat room) ?left) = (if n < 0 then [] else drop (nat n) (src_rest f))"
    using room by (auto simp: src k_def min_def)
  ultimately show ?thesis
    using rd d opn room assms(3) by (auto simp: in_ok_def in_closed_def src_rest_def room_def Let_def algebra_simps)
qed

lemma in__read_spec:
  assumes "in_ok f" "-1 \<le> n"
  shows "\<exists>f'. in__read f n = (Inr (if n < 0 then src_rest f else take (nat n) (src_rest f)), f') \<and>
    in_ok f' \<and> in_buf f' = in_buf f \<and>
    src_rest f' = (if n < 0 then [] else drop (nat n) (src_rest f))"
  using in__read_plain [OF assms] in__read_range [OF assms] by (cases "in_range f") auto

lemma in_ok_buf [simp]: "in_ok (f\<lparr>in_buf := b\<rparr>) = in_ok f"
  by (simp add: in_ok_def in_closed_def)

lemma src_rest_buf [simp]: "src_rest (f\<lparr>in_buf := b\<rparr>) = src_rest f"
  by (simp add: src_rest_def)

lemma in_read_spec:
  assumes "in_ok f"
  shows "\<exists>f'. in_read f n = (Inr (if n < 0 then in_rest f else take (nat n) (in_rest f)), f') \<and>
    in_ok f' \<and> in_rest f' = (if n < 0 then [] else drop (nat n) (in_rest f))"
proof (cases "n \<ge> 0 \<and> int (length (in_buf f)) \<ge> n")
  case True
  then show ?thesis using assms by (auto simp: in_read_def in_rest_def)
next
  case False
  define m where "m = (if n < 0 then -1 else n - int (length (in_buf f)))"
  have m: "-1 \<le> m" "n < 0 \<longleftrightarrow> m < 0" using False by (auto simp: m_def)
  obtain f' where rd: "in__read f m = (Inr (if m < 0 then src_rest f else take (nat m) (src_rest f)), f')"
      and f': "in_ok f'" "src_rest f' = (if m < 0 then [] else drop (nat m) (src_rest f))"
    using in__read_spec [OF assms m(1)] by blast
  have "in_read f n = (Inr (in_buf f @ (if m < 0 then src_rest f else take (nat m) (src_rest f))), f'\<lparr>in_buf := []\<rparr>)"
    using False rd by (cases "n < 0") (simp_all add: in_read_def m_def)
  moreover have "0 \<le> n \<Longrightarrow> nat n = length (in_buf f) + nat m" using False by (simp add: m_def)
  ultimately show ?thesis
    using f' m by (cases "n < 0") (simp_all add: in_rest_def)
qed

section \<open>Lines\<close>

text \<open>The first line of a text with its newline, and the text cut into lines.\<close>

definition first_line :: "string \<Rightarrow> string" where
  "first_line s = takeWhile (\<lambda>c. c \<noteq> nl) s @ (if nl \<in> set s then [nl] else [])"

lemma first_line_partition: "partition_on nl s = (a, b, r) \<Longrightarrow> first_line s = a @ b"
  unfolding first_line_def by (induction s arbitrary: a b r) (auto split: if_splits prod.splits)

lemma first_line_not_Nil [simp]: "s \<noteq> [] \<Longrightarrow> first_line s \<noteq> []"
  by (cases s) (auto simp: first_line_def)

lemma first_line_Nil [simp]: "first_line [] = []"
  by (simp add: first_line_def)

lemma first_line_no_nl: "nl \<notin> set s \<Longrightarrow> first_line s = s"
  unfolding first_line_def by (auto simp: takeWhile_eq_all_conv)

lemma first_line_append_nl: "nl \<in> set s \<Longrightarrow> first_line (s @ t) = first_line s"
  unfolding first_line_def by (auto simp: takeWhile_append1)

lemma first_line_append_rest: "first_line s @ drop (length (first_line s)) s = s"
proof -
  obtain a b r where p: "partition_on nl s = (a, b, r)" by (cases "partition_on nl s") auto
  then have "s = (a @ b) @ r" using partition_on_append by fastforce
  then show ?thesis using first_line_partition [OF p] by simp
qed

lemma first_line_length_le: "length (first_line s) \<le> length s"
  using first_line_append_rest [of s] by (metis length_append le_add1)

fun lines_of :: "string \<Rightarrow> string list" where
  "lines_of s = (if s = [] then [] else first_line s # lines_of (drop (length (first_line s)) s))"

declare lines_of.simps [simp del]

lemma concat_lines_of: "concat (lines_of s) = s"
proof (induction s rule: lines_of.induct)
  case (1 s)
  then show ?case by (cases "s = []") (auto simp: lines_of.simps [of s] lines_of.simps [of "[]"] first_line_append_rest)
qed

section \<open>Correctness of readline and readlines\<close>

lemma readline_loop_spec:
  assumes "in_ok f"
  shows "\<exists>d f'. readline_loop sz data f = (Inr d, f') \<and> in_ok f' \<and>
    d @ in_rest f' = data @ in_rest f \<and>
    (nl \<in> set d \<or> in_rest f' = [] \<or> (0 \<le> sz \<and> sz \<le> int (length d))) \<and>
    (0 \<le> sz \<and> int (length data) \<le> sz \<longrightarrow> int (length d) \<le> sz)"
  using assms
proof (induction sz data f rule: readline_loop.induct)
  case (1 sz data f)
  let ?n = "if sz < 0 then 1024 else sz - int (length data)"
  show ?case
  proof (cases "nl \<notin> set data \<and> (sz < 0 \<or> int (length data) < sz)")
    case True
    obtain f' where rd: "in_read f ?n = (Inr (take (nat ?n) (in_rest f)), f')" and ok: "in_ok f'"
      and rest: "in_rest f' = drop (nat ?n) (in_rest f)"
      using in_read_spec [OF "1.prems", of ?n] True by (auto split: if_splits)
    show ?thesis
    proof (cases "take (nat ?n) (in_rest f) = []")
      case emp: True
      then have "in_rest f = []" using True by (auto split: if_splits)
      then show ?thesis
        using True rd ok rest emp by (auto simp: readline_loop.simps [of sz data f])
    next
      case ne: False
      have step: "readline_loop sz data f = readline_loop sz (data @ take (nat ?n) (in_rest f)) f'"
        using True rd ne by (simp add: readline_loop.simps [of sz data f])
      have "int (length data) \<le> sz \<Longrightarrow> int (length (data @ take (nat ?n) (in_rest f))) \<le> sz"
        using True by auto
      then show ?thesis
        using "1.IH" [OF True rd [symmetric] refl ne ok] rest unfolding step by auto
    qed
  next
    case False
    then have "readline_loop sz data f = (Inr data, f)" by (auto simp: readline_loop.simps [of sz data f])
    then show ?thesis using False "1.prems" by auto
  qed
qed

definition limit :: "int \<Rightarrow> string \<Rightarrow> string" where
  "limit sz s = (if sz < 0 then s else take (nat sz) s)"

lemma in_readline_spec:
  assumes "in_ok f"
  shows "\<exists>f'. in_readline f sz = (Inr (first_line (limit sz (in_rest f))), f') \<and> in_ok f' \<and>
    first_line (limit sz (in_rest f)) @ in_rest f' = in_rest f"
proof -
  obtain d f' where lp: "readline_loop sz [] f = (Inr d, f')" and ok: "in_ok f'"
    and app: "d @ in_rest f' = in_rest f"
    and stop: "nl \<in> set d \<or> in_rest f' = [] \<or> (0 \<le> sz \<and> sz \<le> int (length d))"
    and le: "0 \<le> sz \<longrightarrow> int (length d) \<le> sz"
    using readline_loop_spec [OF assms, of sz "[]"] by auto
  show ?thesis
  proof (cases "nl \<in> set d")
    case True
    obtain a b r where p: "partition_on nl d = (a, b, r)" by (cases "partition_on nl d") auto
    have "\<exists>x. limit sz (d @ in_rest f') = d @ x"
      using le by (cases "sz < 0") (simp_all add: limit_def)
    then have "first_line (limit sz (in_rest f)) = first_line d"
      unfolding app using True by (auto simp: first_line_append_nl)
    moreover have ab: "a @ b = first_line d" using first_line_partition [OF p] by simp
    moreover have abr: "(a @ b) @ r = d" using partition_on_append [OF p] by simp
    moreover from ab abr app have "first_line d @ r @ in_rest f' = in_rest f" by (metis append_assoc)
    ultimately show ?thesis
      using lp ok True p by (auto simp: in_readline_def in_rest_def)
  next
    case False
    have "limit sz (in_rest f) = d"
      using stop False le app by (auto simp: limit_def simp flip: app)
    then show ?thesis
      using lp ok False app by (auto simp: in_readline_def first_line_no_nl)
  qed
qed

lemma readlines_loop_neg:
  assumes "in_ok f" "hint < 0"
  shows "\<exists>f'. readlines_loop hint ls f = (Inr (ls @ lines_of (in_rest f)), f') \<and> in_ok f' \<and> in_rest f' = []"
  using assms
proof (induction hint ls f rule: readlines_loop.induct)
  case (1 hint ls f)
  let ?l = "first_line (in_rest f)"
  obtain f' where rl: "in_readline f hint = (Inr ?l, f')" and ok: "in_ok f'"
    and rest: "?l @ in_rest f' = in_rest f"
    using in_readline_spec [OF "1.prems"(1), of hint] "1.prems"(2) by (auto simp: limit_def)
  show ?case
  proof (cases "in_rest f = []")
    case True
    then show ?thesis using rl ok rest
      by (auto simp: readlines_loop.simps [of hint ls f] lines_of.simps [of "[]"])
  next
    case False
    have "in_rest f' = drop (length ?l) (in_rest f)" using rest by (metis append_eq_conv_conj)
    then have ln: "lines_of (in_rest f) = ?l # lines_of (in_rest f')"
      using False by (simp add: lines_of.simps [of "in_rest f"])
    have "readlines_loop hint ls f = readlines_loop hint (ls @ [?l]) f'"
      using rl False "1.prems"(2) by (simp add: readlines_loop.simps [of hint ls f])
    then show ?thesis
      using "1.IH"(2) [OF rl [symmetric] refl _ _ ok] False "1.prems"(2) ln by simp
  qed
qed

lemma readlines_loop_pos:
  assumes "in_ok f" "0 < hint"
  shows "\<exists>ls' f'. readlines_loop hint ls f = (Inr ls', f') \<and> in_ok f' \<and> in_rest f' = [] \<and>
    concat ls' = concat ls @ in_rest f"
  using assms
proof (induction hint ls f rule: readlines_loop.induct)
  case (1 hint ls f)
  let ?l = "first_line (limit hint (in_rest f))"
  obtain f' where rl: "in_readline f hint = (Inr ?l, f')" and ok: "in_ok f'"
    and rest: "?l @ in_rest f' = in_rest f"
    using in_readline_spec [OF "1.prems"(1), of hint] by auto
  show ?case
  proof (cases "in_rest f = []")
    case True
    then show ?thesis using rl ok rest by (auto simp: readlines_loop.simps [of hint ls f] limit_def)
  next
    case False
    then have ne: "?l \<noteq> []" using "1.prems"(2) by (simp add: limit_def)
    have "readlines_loop hint ls f = readlines_loop (hint + int (length ?l)) (ls @ [?l]) f'"
      using rl ne "1.prems"(2) by (auto simp: readlines_loop.simps [of hint ls f] Let_def)
    moreover have "\<exists>ls' g. readlines_loop (hint + int (length ?l)) (ls @ [?l]) f' = (Inr ls', g) \<and>
        in_ok g \<and> in_rest g = [] \<and> concat ls' = concat (ls @ [?l]) @ in_rest f'"
      by (rule "1.IH"(1) [OF rl [symmetric] refl ne _ refl]) (use ok "1.prems"(2) in auto)
    ultimately show ?thesis using rest by auto
  qed
qed

section \<open>The reader interface\<close>

text \<open>
  What a storlet relies on when it reads its input in chunks: a read returns the next
  bytes of one stream and moves on. The copy loop of the sample storlets is a client:
  \<open>while True: buf = f.read(n); if not buf: break; write(buf)\<close> (one unit of fuel per
  iteration).
\<close>

fun copy_chunks :: "('f \<Rightarrow> int \<Rightarrow> string res \<times> 'f) \<Rightarrow> int \<Rightarrow> nat \<Rightarrow> 'f \<Rightarrow> (string list res \<times> 'f) option" where
  "copy_chunks rd n 0 f = None"
| "copy_chunks rd n (Suc k) f = (case rd f n of
     (Inl e, f') \<Rightarrow> Some (Inl e, f')
   | (Inr b, f') \<Rightarrow> if b = [] then Some (Inr [], f')
       else (case copy_chunks rd n k f' of
               Some (Inr bs, f'') \<Rightarrow> Some (Inr (b # bs), f'')
             | x \<Rightarrow> x))"

locale byte_stream =
  fixes rd :: "'f \<Rightarrow> int \<Rightarrow> string res \<times> 'f" and rest :: "'f \<Rightarrow> string" and ok :: "'f \<Rightarrow> bool"
  assumes read_some: "ok f \<Longrightarrow> 0 \<le> n \<Longrightarrow>
      \<exists>f'. rd f n = (Inr (take (nat n) (rest f)), f') \<and> ok f' \<and> rest f' = drop (nat n) (rest f)"
    and read_all: "ok f \<Longrightarrow> n < 0 \<Longrightarrow> \<exists>f'. rd f n = (Inr (rest f), f') \<and> ok f' \<and> rest f' = []"
begin

lemma copy_chunks_all:
  assumes "ok f" "0 < n" "length (rest f) < k"
  shows "\<exists>bs f'. copy_chunks rd n k f = Some (Inr bs, f') \<and> ok f' \<and> rest f' = [] \<and>
    concat bs = rest f \<and> list_all (\<lambda>b. b \<noteq> [] \<and> int (length b) \<le> n) bs"
  using assms
proof (induction k arbitrary: f)
  case (Suc k)
  obtain f' where rd: "rd f n = (Inr (take (nat n) (rest f)), f')" and ok': "ok f'"
    and rest': "rest f' = drop (nat n) (rest f)"
    using read_some [OF Suc.prems(1), of n] Suc.prems(2) by auto
  show ?case
  proof (cases "rest f = []")
    case False
    then have "length (rest f') < k" using rest' Suc.prems by (cases "rest f") auto
    from Suc.IH [OF ok' Suc.prems(2) this] obtain bs f'' where
      "copy_chunks rd n k f' = Some (Inr bs, f'')" "ok f''" "rest f'' = []" "concat bs = rest f'"
      "list_all (\<lambda>b. b \<noteq> [] \<and> int (length b) \<le> n) bs"
      by blast
    then show ?thesis using rd rest' False Suc.prems(2) by auto
  qed (use rd ok' rest' in auto)
qed simp

end

interpretation inf: byte_stream in_read in_rest in_ok
proof
  fix f n
  show "in_ok f \<Longrightarrow> 0 \<le> n \<Longrightarrow> \<exists>f'. in_read f n = (Inr (take (nat n) (in_rest f)), f') \<and> in_ok f' \<and>
      in_rest f' = drop (nat n) (in_rest f)"
    using in_read_spec [of f n] by auto
  show "in_ok f \<Longrightarrow> n < 0 \<Longrightarrow> \<exists>f'. in_read f n = (Inr (in_rest f), f') \<and> in_ok f' \<and> in_rest f' = []"
    using in_read_spec [of f n] by auto
qed

section \<open>Output files\<close>

record outfile =
  out_fd :: int
  out_obj :: wfile
  out_md :: wfile
  out_metadata :: "json option"

definition StorletOutputFile :: "int \<Rightarrow> outfile" where
  "StorletOutputFile obj_fd = \<lparr>out_fd = obj_fd, out_obj = wfile_open, out_md = wfile_open, out_metadata = None\<rparr>"

definition out_get_metadata :: "outfile \<Rightarrow> json res" where
  "out_get_metadata f = (case out_metadata f of None \<Rightarrow> Inl (IOErr ''Metadata is not set yet'')
     | Some md \<Rightarrow> Inr md)"

definition out_set_metadata :: "outfile \<Rightarrow> json \<Rightarrow> unit res \<times> outfile" where
  "out_set_metadata f md =
     (if w_closed (out_md f) then (Inl (IOErr ''Sending metadata twice is not allowed''), f)
      else (case wfile_write (out_md f) (utf8_encode (dumps md)) of
              (Inl e, w) \<Rightarrow> (Inl e, f\<lparr>out_md := w\<rparr>)
            | (Inr _, w) \<Rightarrow> (Inr (), f\<lparr>out_metadata := Some md, out_md := wfile_close w\<rparr>)))"

definition out_closed :: "outfile \<Rightarrow> bool" where "out_closed f = w_closed (out_obj f)"

definition out_close :: "outfile \<Rightarrow> outfile" where
  "out_close f = (let f1 = (if \<not> w_closed (out_md f) then f\<lparr>out_md := wfile_close (out_md f)\<rparr> else f) in
     f1\<lparr>out_obj := wfile_close (out_obj f1)\<rparr>)"

definition out_write :: "outfile \<Rightarrow> string \<Rightarrow> unit res \<times> outfile" where
  "out_write f b =
     (if \<not> w_closed (out_md f) then (Inl (IOErr ''Body should be sent after metadata is sent''), f)
      else (case wfile_write (out_obj f) b of (r, w) \<Rightarrow> (r, f\<lparr>out_obj := w\<rparr>)))"

definition out_writelines :: "outfile \<Rightarrow> string list \<Rightarrow> unit res \<times> outfile" where
  "out_writelines f bs =
     (if \<not> w_closed (out_md f) then (Inl (IOErr ''Body should be sent after metadata is sent''), f)
      else (case wfile_write (out_obj f) (concat bs) of (r, w) \<Rightarrow> (r, f\<lparr>out_obj := w\<rparr>)))"

definition out_flush :: "outfile \<Rightarrow> unit res" where
  "out_flush f = wfile_flush (out_obj f)"

text \<open>The operations a storlet may apply to an output file, as a step relation, and the
  states they reach from a fresh file.\<close>

datatype out_op = SetMetadata json | Write string | Writelines "string list" | Flush | CloseOut

inductive out_step :: "outfile \<Rightarrow> out_op \<Rightarrow> unit res \<Rightarrow> outfile \<Rightarrow> bool" where
  set_md: "out_set_metadata f md = (r, f') \<Longrightarrow> out_step f (SetMetadata md) r f'"
| wr: "out_write f b = (r, f') \<Longrightarrow> out_step f (Write b) r f'"
| wrl: "out_writelines f bs = (r, f') \<Longrightarrow> out_step f (Writelines bs) r f'"
| fl: "out_flush f = r \<Longrightarrow> out_step f Flush r f"
| cl: "out_step f CloseOut (Inr ()) (out_close f)"

inductive_cases out_step_SetMetadataE: "out_step f (SetMetadata md) r f'"
inductive_cases out_step_WriteE: "out_step f (Write b) r f'"

inductive out_trace :: "outfile \<Rightarrow> (out_op \<times> unit res) list \<Rightarrow> outfile \<Rightarrow> bool" where
  out_nil: "out_trace f [] f"
| out_snoc: "out_trace f xs g \<Longrightarrow> out_step g x r h \<Longrightarrow> out_trace f (xs @ [(x, r)]) h"

lemmas out_defs = out_set_metadata_def out_write_def out_writelines_def out_flush_def out_close_def
  wfile_write_def wfile_flush_def wfile_close_def

text \<open>What has been accepted on the body and on the metadata channel by a trace.\<close>

fun body_of :: "(out_op \<times> unit res) list \<Rightarrow> string" where
  "body_of [] = []"
| "body_of ((Write b, Inr _) # xs) = b @ body_of xs"
| "body_of ((Writelines bs, Inr _) # xs) = concat bs @ body_of xs"
| "body_of (_ # xs) = body_of xs"

fun md_of :: "(out_op \<times> unit res) list \<Rightarrow> json list" where
  "md_of [] = []"
| "md_of ((SetMetadata md, Inr _) # xs) = md # md_of xs"
| "md_of (_ # xs) = md_of xs"

lemma body_of_append: "body_of (xs @ ys) = body_of xs @ body_of ys"
  by (induction xs rule: body_of.induct) auto

lemma md_of_append: "md_of (xs @ ys) = md_of xs @ md_of ys"
  by (induction xs rule: md_of.induct) auto

definition out_inv :: "(out_op \<times> unit res) list \<Rightarrow> outfile \<Rightarrow> bool" where
  "out_inv xs f \<longleftrightarrow> w_data (out_obj f) = body_of xs \<and>
     w_data (out_md f) = concat (map (\<lambda>md. utf8_encode (dumps md)) (md_of xs)) \<and>
     length (md_of xs) \<le> 1 \<and>
     out_metadata f = (case md_of xs of [] \<Rightarrow> None | md # _ \<Rightarrow> Some md) \<and>
     (md_of xs \<noteq> [] \<or> body_of xs \<noteq> [] \<or> w_closed (out_obj f) \<longrightarrow> w_closed (out_md f)) \<and>
     (body_of xs \<noteq> [] \<longrightarrow> md_of xs \<noteq> [])\<and>
     (w_closed (out_md f) \<longrightarrow> md_of xs \<noteq> [] \<or> w_closed (out_obj f))"

lemma out_inv_step:
  assumes "out_step g x r h" "out_inv xs g"
  shows "out_inv (xs @ [(x, r)]) h"
  using assms
proof (cases rule: out_step.cases)
  case (set_md md)
  then show ?thesis using assms(2)
    by (cases "md_of xs") (auto simp: out_inv_def out_defs md_of_append body_of_append split: if_splits)
next
  case (wr b)
  then show ?thesis using assms(2)
    by (auto simp: out_inv_def out_defs md_of_append body_of_append split: if_splits)
next
  case (wrl bs)
  then show ?thesis using assms(2)
    by (auto simp: out_inv_def out_defs md_of_append body_of_append split: if_splits)
next
  case fl
  then show ?thesis using assms(2)
    by (auto simp: out_inv_def out_defs md_of_append body_of_append split: if_splits)
next
  case cl
  then show ?thesis using assms(2)
    by (auto simp: out_inv_def out_defs md_of_append body_of_append Let_def)
qed

lemma out_trace_inv: "out_trace f xs g \<Longrightarrow> f = StorletOutputFile fd \<Longrightarrow> out_inv xs g"
proof (induction rule: out_trace.induct)
  case (out_nil f)
  then show ?case by (simp add: out_inv_def StorletOutputFile_def wfile_open_def)
next
  case (out_snoc f xs g x r h)
  then show ?case by (auto intro: out_inv_step)
qed

section \<open>The storlet's logger\<close>

record slogger =
  sl_name :: string
  sl_fd :: int
  sl_file :: wfile

definition StorletLogger :: "string \<Rightarrow> int \<Rightarrow> slogger" where
  "StorletLogger name fd = \<lparr>sl_name = name, sl_fd = fd, sl_file = wfile_open\<rparr>"

definition sl_close :: "slogger \<Rightarrow> slogger" where
  "sl_close l = l\<lparr>sl_file := wfile_close (sl_file l)\<rparr>"

definition emit_log :: "slogger \<Rightarrow> string \<Rightarrow> string \<Rightarrow> unit res \<times> slogger" where
  "emit_log l level msg =
     (case wfile_write (sl_file l) (utf8_encode (sl_name l @ '' '' @ level @ '': '' @ msg)) of
        (r, w) \<Rightarrow> (r, l\<lparr>sl_file := w\<rparr>))"

definition sl_debug :: "slogger \<Rightarrow> string \<Rightarrow> unit res \<times> slogger" where "sl_debug l m = emit_log l ''DEBUG'' m"
definition sl_info :: "slogger \<Rightarrow> string \<Rightarrow> unit res \<times> slogger" where "sl_info l m = emit_log l ''INFO'' m"
definition sl_warn :: "slogger \<Rightarrow> string \<Rightarrow> unit res \<times> slogger" where "sl_warn l m = emit_log l ''WARN'' m"
definition sl_error :: "slogger \<Rightarrow> string \<Rightarrow> unit res \<times> slogger" where "sl_error l m = emit_log l ''ERROR'' m"

section \<open>Methods of the base class\<close>

text \<open>What \<open>StorletFile\<close> defines and a subclass does not override: an output file cannot be read or iterated over, an input file
  cannot be written, and neither can be positioned by a storlet. The files are context managers that close themselves.\<close>

definition in_fileno :: "infile \<Rightarrow> int" where "in_fileno f = in_fd f"
definition out_fileno :: "outfile \<Rightarrow> int" where "out_fileno f = out_fd f"

definition in_seek :: "infile \<Rightarrow> int \<Rightarrow> int \<Rightarrow> unit res \<times> infile" where "in_seek f offset whence = (Inl NotImplementedError, f)"
definition out_seek :: "outfile \<Rightarrow> int \<Rightarrow> int \<Rightarrow> unit res \<times> outfile" where "out_seek f offset whence = (Inl NotImplementedError, f)"
definition out_read :: "outfile \<Rightarrow> int \<Rightarrow> string res \<times> outfile" where "out_read f sz = (Inl NotImplementedError, f)"
definition out_readline :: "outfile \<Rightarrow> int \<Rightarrow> string res \<times> outfile" where "out_readline f sz = (Inl NotImplementedError, f)"
definition out_readlines :: "outfile \<Rightarrow> int \<Rightarrow> string list res \<times> outfile" where "out_readlines f hint = (Inl NotImplementedError, f)"
definition in_write :: "infile \<Rightarrow> string \<Rightarrow> unit res \<times> infile" where "in_write f buf = (Inl NotImplementedError, f)"
definition in_writelines :: "infile \<Rightarrow> string list \<Rightarrow> unit res \<times> infile" where "in_writelines f seq = (Inl NotImplementedError, f)"
definition in_set_metadata :: "infile \<Rightarrow> json \<Rightarrow> unit res \<times> infile" where "in_set_metadata f md = (Inl NotImplementedError, f)"
definition in_flush :: "infile \<Rightarrow> unit res \<times> infile" where "in_flush f = (Inl NotImplementedError, f)"

definition out_next :: "outfile \<Rightarrow> string res \<times> outfile" where
  "out_next f = (case out_read f (-1) of (Inl e, f') \<Rightarrow> (Inl e, f')
     | (Inr b, f') \<Rightarrow> (if b = [] then (Inl StopIteration, f') else (Inr b, f')))"

definition in_with :: "infile \<Rightarrow> (infile \<Rightarrow> 'a res \<times> infile) \<Rightarrow> 'a res \<times> infile" where
  "in_with f body = (case body f of (r, f') \<Rightarrow> (r, in_close f'))"

definition out_with :: "outfile \<Rightarrow> (outfile \<Rightarrow> 'a res \<times> outfile) \<Rightarrow> 'a res \<times> outfile" where
  "out_with f body = (case body f of (r, f') \<Rightarrow> (r, out_close f'))"

definition sl_exception :: "slogger \<Rightarrow> string \<Rightarrow> unit res \<times> slogger" where "sl_exception l m = (Inl NotImplementedError, l)"

text \<open>A loop over an output file ends with the exception and still closes both channels.\<close>

lemma with_out_next: "out_with f out_next = (Inl NotImplementedError, out_close f)"
  by (simp add: out_with_def out_next_def out_read_def)

lemma with_in_closed: "in_with f body = (r, f') \<Longrightarrow> in_closed f'"
  by (auto simp: in_with_def in_closed_def in_close_def split: prod.splits)

section \<open>Properties\<close>

text \<open>Reading from an open input file returns the next bytes of its content and nothing else: all of
  the rest for a negative size, otherwise at most that many, and the file continues after them. A range
  file stops at its end.\<close>

theorem read_is_prefix:
  assumes "in_ok f"
  shows "\<exists>f'. in_read f n = (Inr (if n < 0 then in_rest f else take (nat n) (in_rest f)), f') \<and>
    in_ok f' \<and> in_rest f' = (if n < 0 then [] else drop (nat n) (in_rest f))"
  by (rule in_read_spec [OF assms])

definition sample_infile :: infile where
  "sample_infile = StorletInputFile JNull 4 \<lparr>r_content = ''ab'' @ [nl] @ ''cde'', r_pos = 0, r_closed = False\<rparr>"

lemma sample_infile_ok: "in_ok sample_infile" "in_rest sample_infile = ''ab'' @ [nl] @ ''cde''"
  by (simp_all add: sample_infile_def StorletInputFile_def in_ok_def in_closed_def in_rest_def src_rest_def)

theorem read_is_prefix_witness: "\<exists>f'. in_read sample_infile 4 = (Inr (''ab'' @ [nl] @ ''c''), f') \<and> in_rest f' = ''de''"
  using read_is_prefix [OF sample_infile_ok(1), of 4] sample_infile_ok(2) by auto

text \<open>\<open>readline\<close> returns the first line of what is left, with its newline, or its first \<open>size\<close> bytes
  when the line is longer, and puts back everything it read beyond that.\<close>

theorem readline_is_first_line:
  assumes "in_ok f"
  shows "\<exists>f'. in_readline f sz = (Inr (first_line (limit sz (in_rest f))), f') \<and> in_ok f' \<and>
    first_line (limit sz (in_rest f)) @ in_rest f' = in_rest f"
  by (rule in_readline_spec [OF assms])

theorem readline_is_first_line_witness:
  "\<exists>f'. in_readline sample_infile (-1) = (Inr (''ab'' @ [nl]), f') \<and> in_rest f' = ''cde''"
  using readline_is_first_line [OF sample_infile_ok(1), of "-1"] sample_infile_ok(2)
  by (auto simp: limit_def first_line_def)

text \<open>\<open>readlines()\<close> cuts the rest of the file into its lines.\<close>

theorem readlines_are_lines:
  assumes "in_ok f" "sizehint < 0"
  shows "\<exists>f'. in_readlines f sizehint = (Inr (lines_of (in_rest f)), f') \<and> in_rest f' = []"
  using readlines_loop_neg [OF assms, of "[]"] by (auto simp: in_readlines_def)

theorem readlines_are_lines_witness:
  "\<exists>f'. in_readlines sample_infile (-1) = (Inr [''ab'' @ [nl], ''cde''], f') \<and> in_rest f' = []"
  using readlines_are_lines [OF sample_infile_ok(1), of "-1"] sample_infile_ok(2)
  by (auto simp: lines_of.simps first_line_def)

text \<open>A positive \<open>sizehint\<close> never limits \<open>readlines\<close>, because the hint is increased by each line where
  it should be decreased: the whole file is always read.\<close>

theorem readlines_ignores_hint:
  assumes "in_ok f" "0 < sizehint"
  shows "\<exists>ls f'. in_readlines f sizehint = (Inr ls, f') \<and> in_rest f' = [] \<and> concat ls = in_rest f"
  using readlines_loop_pos [OF assms, of "[]"] by (auto simp: in_readlines_def)

theorem readlines_ignores_hint_witness:
  "\<exists>ls f'. in_readlines sample_infile 1 = (Inr ls, f') \<and> concat ls = ''ab'' @ [nl] @ ''cde''"
  using readlines_ignores_hint [OF sample_infile_ok(1), of 1] sample_infile_ok(2) by auto

text \<open>A storlet that gets the byte range \<open>start\<close> to \<open>end\<close> of an object and copies it chunk by chunk
  gets exactly these bytes: the copy loop ends and its chunks make up the slice.\<close>

theorem range_copy_is_slice:
  assumes "0 \<le> start" "start \<le> end'" "0 < chunk"
  shows "\<exists>f bs f'. StorletRangeInputFile md fd \<lparr>r_content = body, r_pos = p, r_closed = False\<rparr> start end' = Inr f \<and>
    copy_chunks in_read chunk (length body + 1) f = Some (Inr bs, f') \<and>
    concat bs = take (nat (end' - start)) (drop (nat start) body)"
proof -
  define f where "f = (StorletInputFile md fd \<lparr>r_content = body, r_pos = nat start, r_closed = False\<rparr>)
    \<lparr>in_range := Some \<lparr>rg_start = start, rg_end = end', rg_point = start\<rparr>\<rparr>"
  have mk: "StorletRangeInputFile md fd \<lparr>r_content = body, r_pos = p, r_closed = False\<rparr> start end' = Inr f"
    using assms by (simp add: StorletRangeInputFile_def rfile_seek_def f_def)
  have f: "in_ok f" "in_rest f = take (nat (end' - start)) (drop (nat start) body)"
    using assms by (simp_all add: f_def StorletInputFile_def in_ok_def in_closed_def in_rest_def src_rest_def)
  then have "length (in_rest f) < length body + 1" by simp
  from inf.copy_chunks_all [OF f(1) assms(3) this] f(2) mk show ?thesis by auto
qed

theorem range_copy_is_slice_witness:
  "\<exists>f bs f'. StorletRangeInputFile JNull 4 \<lparr>r_content = ''abcdef'', r_pos = 0, r_closed = False\<rparr> 1 4 = Inr f \<and>
    copy_chunks in_read 2 7 f = Some (Inr bs, f') \<and> concat bs = ''bcd''"
  using range_copy_is_slice [of 1 4 2 JNull 4 "''abcdef''" 0] by (simp add: eval_nat_numeral)

text \<open>C17: However a storlet uses an output file, metadata is sent at most once and before any byte of the
  body, what the metadata channel holds is its JSON text, and the body is the concatenation of the accepted
  writes.\<close>

theorem output_metadata_first:
  assumes "out_trace (StorletOutputFile fd) ops f"
  shows "length (md_of ops) \<le> 1 \<and> (body_of ops \<noteq> [] \<longrightarrow> md_of ops \<noteq> []) \<and>
    w_data (out_obj f) = body_of ops \<and> w_data (out_md f) = concat (map (\<lambda>md. utf8_encode (dumps md)) (md_of ops)) \<and>
    out_get_metadata f = (case md_of ops of [] \<Rightarrow> Inl (IOErr ''Metadata is not set yet'') | md # _ \<Rightarrow> Inr md)"
  using out_trace_inv [OF assms refl] by (auto simp: out_inv_def out_get_metadata_def split: list.splits)

definition sample_out_ops :: "(out_op \<times> unit res) list" where
  "sample_out_ops = [(Write ''x'', Inl (IOErr ''Body should be sent after metadata is sent'')),
     (SetMetadata (JObj []), Inr ()), (Write ''body'', Inr ())]"

lemma sample_out_trace:
  "out_trace (StorletOutputFile 5) sample_out_ops
     \<lparr>out_fd = 5, out_obj = \<lparr>w_data = ''body'', w_closed = False\<rparr>, out_md = \<lparr>w_data = ''{}'', w_closed = True\<rparr>,
      out_metadata = Some (JObj [])\<rparr>"
proof -
  let ?e = "Inl (IOErr ''Body should be sent after metadata is sent'') :: unit res"
  let ?f0 = "StorletOutputFile 5" and ?f1 = "snd (out_set_metadata (StorletOutputFile 5) (JObj []))"
  have 1: "out_step ?f0 (Write ''x'') ?e ?f0" and 2: "out_step ?f0 (SetMetadata (JObj [])) (Inr ()) ?f1"
    by (auto intro!: out_step.intros simp: out_defs StorletOutputFile_def wfile_open_def)
  have 3: "out_step ?f1 (Write ''body'') (Inr ()) \<lparr>out_fd = 5, out_obj = \<lparr>w_data = ''body'', w_closed = False\<rparr>,
      out_md = \<lparr>w_data = ''{}'', w_closed = True\<rparr>, out_metadata = Some (JObj [])\<rparr>"
    by (rule out_step.wr) (simp add: out_defs StorletOutputFile_def wfile_open_def utf8_encode_def)
  show ?thesis unfolding sample_out_ops_def
    using out_snoc [OF out_snoc [OF out_snoc [OF out_nil 1] 2] 3] by simp
qed

theorem output_metadata_first_witness: "length (md_of sample_out_ops) \<le> 1 \<and> body_of sample_out_ops = ''body''"
  using output_metadata_first [OF sample_out_trace] by simp

end
