(* ===== verification/Os.thy ===== *)
theory Os
  imports Prelude "HOL-Library.While_Combinator"
begin

text \<open>
  The operating-system calls of the agents, as a record of functions over a world \<open>'w\<close>, so
  that every operation of the agents is a function of what these calls answer. A result
  \<open>Inl e\<close> is an \<open>OSError\<close> with that errno.

  The locale \<open>process_os\<close> states what POSIX documents about child processes: a forked child
  is waitable until it is reaped, waiting for one that is not a child fails with ECHILD,
  \<open>wait\<close> returns one of the children. Python restarts interrupted calls, so EINTR does not
  show. The process table at the end satisfies it.
\<close>

section \<open>Calls\<close>

record 'w os_ops =
  os_waitpid_nohang :: "int \<Rightarrow> 'w \<Rightarrow> (errno + int \<times> int) \<times> 'w"
  os_waitpid :: "int \<Rightarrow> 'w \<Rightarrow> (errno + int \<times> int) \<times> 'w"
  os_wait :: "'w \<Rightarrow> (errno + int \<times> int) \<times> 'w"
  os_kill :: "int \<Rightarrow> 'w \<Rightarrow> (errno + unit) \<times> 'w"
  os_killpg :: "'w \<Rightarrow> 'w"
  os_fork :: "'w \<Rightarrow> (errno + int) \<times> 'w"
  os_close :: "int \<Rightarrow> 'w \<Rightarrow> (errno + unit) \<times> 'w"
  os_uuid4 :: "'w \<Rightarrow> string \<times> 'w"

locale process_os =
  fixes ops :: "'w os_ops" and children :: "'w \<Rightarrow> int set" and ok :: "'w \<Rightarrow> bool"
  assumes finite_children: "ok w \<Longrightarrow> finite (children w)"
    and nohang: "ok w \<Longrightarrow> os_waitpid_nohang ops p w = (r, w') \<Longrightarrow> ok w' \<and>
      (if p \<notin> children w then r = Inl ECHILD \<and> children w' = children w
       else r = Inr (0, 0) \<and> children w' = children w \<or>
            (\<exists>rc. r = Inr (p, rc) \<and> children w' = children w - {p}))"
    and waitpid: "ok w \<Longrightarrow> os_waitpid ops p w = (r, w') \<Longrightarrow> ok w' \<and>
      (if p \<notin> children w then r = Inl ECHILD \<and> children w' = children w
       else \<exists>rc. r = Inr (p, rc) \<and> children w' = children w - {p})"
    and wait: "ok w \<Longrightarrow> os_wait ops w = (r, w') \<Longrightarrow> ok w' \<and>
      (if children w = {} then r = Inl ECHILD \<and> children w' = {}
       else \<exists>p rc. r = Inr (p, rc) \<and> p \<in> children w \<and> children w' = children w - {p})"
    and kill: "ok w \<Longrightarrow> os_kill ops p w = (k, w') \<Longrightarrow> ok w' \<and> children w' = children w \<and>
      (p \<in> children w \<longrightarrow> k = Inr ())"
    and fork: "ok w \<Longrightarrow> os_fork ops w = (f, w') \<Longrightarrow> ok w' \<and>
      (case f of Inl _ \<Rightarrow> children w' = children w
       | Inr p \<Rightarrow> 0 < p \<and> p \<notin> children w \<and> children w' = insert p (children w))"
    and close: "ok w \<Longrightarrow> os_close ops fd w = (c, w') \<Longrightarrow> ok w' \<and> children w' = children w"
    and uuid4: "ok w \<Longrightarrow> os_uuid4 ops w = (u, w') \<Longrightarrow> ok w' \<and> children w' = children w"
    and children_pos: "ok w \<Longrightarrow> p \<in> children w \<Longrightarrow> 0 < p"

section \<open>A process table\<close>

text \<open>Running children, terminated ones with their wait status, the next pid, the open
  descriptors and the uuids still to come.\<close>

record world =
  w_running :: "int list"
  w_zombies :: "(int \<times> int) list"
  w_next_pid :: int
  w_fds :: "int list"
  w_uuids :: nat

definition world_children :: "world \<Rightarrow> int set" where
  "world_children w = set (w_running w) \<union> fst ` set (w_zombies w)"

definition world_ok :: "world \<Rightarrow> bool" where
  "world_ok w \<longleftrightarrow> 0 < w_next_pid w \<and> (\<forall>p \<in> world_children w. 0 < p \<and> p < w_next_pid w) \<and>
     distinct (w_running w @ map fst (w_zombies w))"

definition reap :: "int \<Rightarrow> world \<Rightarrow> world" where
  "reap p w = w\<lparr>w_zombies := filter (\<lambda>z. fst z \<noteq> p) (w_zombies w)\<rparr>"

definition table_nohang :: "int \<Rightarrow> world \<Rightarrow> (errno + int \<times> int) \<times> world" where
  "table_nohang p w = (case map_of (w_zombies w) p of
     Some rc \<Rightarrow> (Inr (p, rc), reap p w)
   | None \<Rightarrow> if p \<in> set (w_running w) then (Inr (0, 0), w) else (Inl ECHILD, w))"

text \<open>A blocking wait for a running child returns when that child has ended by itself.\<close>

definition table_waitpid :: "int \<Rightarrow> world \<Rightarrow> (errno + int \<times> int) \<times> world" where
  "table_waitpid p w = (case map_of (w_zombies w) p of
     Some rc \<Rightarrow> (Inr (p, rc), reap p w)
   | None \<Rightarrow> if p \<in> set (w_running w) then (Inr (p, 0), w\<lparr>w_running := remove1 p (w_running w)\<rparr>)
            else (Inl ECHILD, w))"

definition table_wait :: "world \<Rightarrow> (errno + int \<times> int) \<times> world" where
  "table_wait w = (case w_zombies w of
     (p, rc) # _ \<Rightarrow> (Inr (p, rc), reap p w)
   | [] \<Rightarrow> (case w_running w of [] \<Rightarrow> (Inl ECHILD, w)
            | p # ps \<Rightarrow> (Inr (p, 0), w\<lparr>w_running := ps\<rparr>)))"

definition table_kill :: "int \<Rightarrow> world \<Rightarrow> (errno + unit) \<times> world" where
  "table_kill p w =
     (if p \<in> set (w_running w)
      then (Inr (), w\<lparr>w_running := remove1 p (w_running w), w_zombies := w_zombies w @ [(p, 9)]\<rparr>)
      else if p \<in> fst ` set (w_zombies w) then (Inr (), w) else (Inl ESRCH, w))"

definition table_killpg :: "world \<Rightarrow> world" where
  "table_killpg w = w\<lparr>w_running := [], w_zombies := w_zombies w @ map (\<lambda>p. (p, 9)) (w_running w)\<rparr>"

definition table_fork :: "world \<Rightarrow> (errno + int) \<times> world" where
  "table_fork w = (Inr (w_next_pid w),
     w\<lparr>w_running := w_running w @ [w_next_pid w], w_next_pid := w_next_pid w + 1\<rparr>)"

definition table_close :: "int \<Rightarrow> world \<Rightarrow> (errno + unit) \<times> world" where
  "table_close fd w = (if fd \<in> set (w_fds w) then (Inr (), w\<lparr>w_fds := removeAll fd (w_fds w)\<rparr>)
     else (Inl EBADF, w))"

definition table_uuid4 :: "world \<Rightarrow> string \<times> world" where
  "table_uuid4 w = (nat_str (10000000 + w_uuids w) @ ''-uuid'', w\<lparr>w_uuids := Suc (w_uuids w)\<rparr>)"

definition table_ops :: "world os_ops" where
  "table_ops = \<lparr>os_waitpid_nohang = table_nohang, os_waitpid = table_waitpid, os_wait = table_wait,
     os_kill = table_kill, os_killpg = table_killpg, os_fork = table_fork, os_close = table_close,
     os_uuid4 = table_uuid4\<rparr>"

lemma reap_props [simp]: "w_running (reap p w) = w_running w" "w_next_pid (reap p w) = w_next_pid w"
  "w_zombies (reap p w) = filter (\<lambda>z. fst z \<noteq> p) (w_zombies w)"
  by (simp_all add: reap_def)

lemma world_other [simp]:
  "world_children (w\<lparr>w_fds := fs\<rparr>) = world_children w" "world_ok (w\<lparr>w_fds := fs\<rparr>) = world_ok w"
  "world_children (w\<lparr>w_uuids := n\<rparr>) = world_children w" "world_ok (w\<lparr>w_uuids := n\<rparr>) = world_ok w"
  by (simp_all add: world_children_def world_ok_def)

lemma reap_children:
  "world_ok w \<Longrightarrow> p \<in> fst ` set (w_zombies w) \<Longrightarrow>
    world_ok (reap p w) \<and> world_children (reap p w) = world_children w - {p}"
  unfolding world_ok_def world_children_def by (auto simp: distinct_map_filter)

lemma wait_children:
  assumes "world_ok w" "table_wait w = (r, w')"
  shows "world_ok w' \<and> (if world_children w = {} then r = Inl ECHILD \<and> world_children w' = {}
    else \<exists>p rc. r = Inr (p, rc) \<and> p \<in> world_children w \<and> world_children w' = world_children w - {p})"
proof (cases "w_zombies w")
  case (Cons z zs)
  then have "fst z \<in> fst ` set (w_zombies w)" by simp
  then have "world_ok (reap (fst z) w) \<and> world_children (reap (fst z) w) = world_children w - {fst z}"
    using reap_children assms(1) by blast
  moreover have "fst z \<in> world_children w" using Cons by (simp add: world_children_def)
  ultimately show ?thesis using assms(2) Cons by (cases z) (auto simp: table_wait_def)
next
  case Nil
  show ?thesis
  proof (cases "w_running w")
    case (Cons p ps)
    then show ?thesis using assms Nil
      by (auto simp: table_wait_def world_ok_def world_children_def)
  qed (use assms Nil in \<open>auto simp: table_wait_def world_children_def\<close>)
qed

lemma map_of_fst: "map_of zs p = Some rc \<Longrightarrow> p \<in> fst ` set zs"
  by (metis domI dom_map_of_conv_image_fst)

lemma running_removed:
  assumes "world_ok w" "p \<in> set (w_running w)"
  shows "world_ok (w\<lparr>w_running := remove1 p (w_running w)\<rparr>)"
    "world_children (w\<lparr>w_running := remove1 p (w_running w)\<rparr>) = world_children w - {p}"
    "world_ok (w\<lparr>w_running := remove1 p (w_running w), w_zombies := w_zombies w @ [(p, 9)]\<rparr>)"
    "world_children (w\<lparr>w_running := remove1 p (w_running w), w_zombies := w_zombies w @ [(p, 9)]\<rparr>)
      = world_children w"
  using assms unfolding world_ok_def world_children_def by auto

lemma in_children: "p \<in> world_children w \<longleftrightarrow> p \<in> set (w_running w) \<or> p \<in> fst ` set (w_zombies w)"
  by (simp add: world_children_def)

lemma zombie_None: "map_of (w_zombies w) p = None \<Longrightarrow> p \<in> world_children w \<longleftrightarrow> p \<in> set (w_running w)"
  by (auto simp: world_children_def map_of_eq_None_iff)

lemma zombie_Some:
  assumes "world_ok w" "map_of (w_zombies w) p = Some rc"
  shows "p \<in> world_children w" "world_ok (reap p w)" "world_children (reap p w) = world_children w - {p}"
  using map_of_fst [OF assms(2)] reap_children [OF assms(1), of p] by (auto simp: world_children_def [of w])

lemma nohang_children:
  assumes "world_ok w" "table_nohang p w = (r, w')"
  shows "world_ok w' \<and> (if p \<notin> world_children w then r = Inl ECHILD \<and> world_children w' = world_children w
    else r = Inr (0, 0) \<and> world_children w' = world_children w \<or>
         (\<exists>rc. r = Inr (p, rc) \<and> world_children w' = world_children w - {p}))"
proof (cases "map_of (w_zombies w) p")
  case None
  then show ?thesis using assms zombie_None [OF None] by (auto simp: table_nohang_def)
next
  case (Some rc)
  then show ?thesis using assms(2) zombie_Some [OF assms(1) Some] by (auto simp: table_nohang_def)
qed

lemma waitpid_children:
  assumes "world_ok w" "table_waitpid p w = (r, w')"
  shows "world_ok w' \<and> (if p \<notin> world_children w then r = Inl ECHILD \<and> world_children w' = world_children w
    else \<exists>rc. r = Inr (p, rc) \<and> world_children w' = world_children w - {p})"
proof (cases "map_of (w_zombies w) p")
  case None
  then show ?thesis using assms zombie_None [OF None] running_removed [OF assms(1)]
    by (auto simp: table_waitpid_def)
next
  case (Some rc)
  then show ?thesis using assms(2) zombie_Some [OF assms(1) Some] by (auto simp: table_waitpid_def)
qed

lemma fork_children:
  assumes "world_ok w"
  shows "w_next_pid w \<notin> world_children w"
    "world_children (snd (table_fork w)) = insert (w_next_pid w) (world_children w)"
    "world_ok (snd (table_fork w))"
proof -
  show fresh: "w_next_pid w \<notin> world_children w" using assms by (auto simp: world_ok_def)
  show ch: "world_children (snd (table_fork w)) = insert (w_next_pid w) (world_children w)"
    by (auto simp: table_fork_def world_children_def)
  have "distinct (w_running (snd (table_fork w)) @ map fst (w_zombies (snd (table_fork w))))"
    using assms fresh by (simp add: table_fork_def world_ok_def in_children disjoint_iff)
  then show "world_ok (snd (table_fork w))"
    using assms ch by (force simp: world_ok_def table_fork_def)
qed

interpretation table: process_os table_ops world_children world_ok
proof (unfold_locales, goal_cases)
  case (1 w)
  then show ?case by (simp add: world_children_def)
next
  case (2 w p r w')
  then show ?case by (intro nohang_children) (simp_all add: table_ops_def)
next
  case (3 w p r w')
  then show ?case by (intro waitpid_children) (simp_all add: table_ops_def)
next
  case (4 w r w')
  then show ?case by (intro wait_children) (simp_all add: table_ops_def)
next
  case (5 w p r w')
  then show ?case
    by (auto simp: table_ops_def table_kill_def running_removed in_children split: if_splits)
next
  case (6 w r w')
  then show ?case using fork_children [of w] by (auto simp: table_ops_def table_fork_def world_ok_def)
next
  case (7 w fd r w')
  then show ?case by (auto simp: table_ops_def table_close_def split: if_splits)
next
  case (8 w u w')
  then show ?case by (auto simp: table_ops_def table_uuid4_def)
next
  case (9 w p)
  then show ?case by (auto simp: world_ok_def)
qed

end
