(* ===== verification/Daemon.thy ===== *)
theory Daemon
  imports Server Files Os
begin

text \<open>
  The daemon that runs one Python storlet (\<open>storlets/agent/daemon/server.py\<close>): its table
  of running tasks, the pool limit, the forked child that runs the storlet, cancellation and
  termination. The operating system is a \<^typ>\<open>'w os_ops\<close>; the storlet class is a parameter of
  the state, a function from the logger, the files and the parameters to what is left of them.
  Logging is not modelled.

  A loop of the code is a \<^const>\<open>while_option\<close>; where it never ends the handler's result is the
  marker \<^const>\<open>Diverges\<close>. Under the laws of \<open>process_os\<close> and with a positive pool size it never
  is, the task table never exceeds the pool, and its pids are children of the daemon.
\<close>

section \<open>State\<close>

type_synonym storlet =
  "slogger \<Rightarrow> infile list \<Rightarrow> outfile list \<Rightarrow> json \<Rightarrow> unit res \<times> slogger \<times> infile list \<times> outfile list"

text \<open>\<open>d_run\<close> holds, in the process that ran the storlet, what the run left of its files.\<close>

record 'w dstate =
  d_storlet_name :: string
  d_storlet :: storlet
  d_pool_size :: int
  task_id_to_pid :: "int dict"
  d_world :: 'w
  d_run :: "(slogger option \<times> infile list \<times> outfile list) option"

text \<open>\<open>load\<close> is \<open>getattr(importlib.import_module(module), cls)\<close>.\<close>

definition StorletDaemon_init ::
  "(string \<Rightarrow> string \<Rightarrow> storlet res) \<Rightarrow> string \<Rightarrow> int \<Rightarrow> 'w \<Rightarrow> 'w dstate res" where
  "StorletDaemon_init load name pool w =
     (case split_on CHR ''.'' name of
        [module_name, cls_name] \<Rightarrow>
          (case load module_name cls_name of
             Inl e \<Rightarrow>
               (case e of
                  ImportError \<Rightarrow> Inl (StorletDaemonLoadError (''Failed to load storlet '' @ name))
                | AttributeError _ \<Rightarrow> Inl (StorletDaemonLoadError (''Failed to load storlet '' @ name))
                | _ \<Rightarrow> Inl e)
           | Inr cls \<Rightarrow> Inr \<lparr>d_storlet_name = name, d_storlet = cls, d_pool_size = pool,
               task_id_to_pid = [], d_world = w, d_run = None\<rparr>)
      | _ \<Rightarrow> Inl (ValueError (''Invalid storlet name '' @ name)))"

section \<open>Child processes\<close>

text \<open>The loop of \<open>_cleanup_pids\<close> over the items of the table: the ids to remove.\<close>

fun cleanup_scan :: "'w os_ops \<Rightarrow> int dict \<Rightarrow> 'w \<Rightarrow> string list \<times> 'w" where
  "cleanup_scan ops [] w = ([], w)"
| "cleanup_scan ops ((tid, daemon_pid) # rest) w =
     (case os_waitpid_nohang ops daemon_pid w of
        (Inr (pid, rc), w') \<Rightarrow>
          (case cleanup_scan ops rest w' of (ts, w'') \<Rightarrow>
             (if pid \<noteq> 0 \<or> rc \<noteq> 0 then tid # ts else ts, w''))
      | (Inl e, w') \<Rightarrow>
          (case cleanup_scan ops rest w' of (ts, w'') \<Rightarrow>
             (if e = ESRCH \<or> e = ECHILD then tid # ts else ts, w'')))"

definition cleanup_pids :: "'w os_ops \<Rightarrow> 'w dstate \<Rightarrow> 'w dstate" where
  "cleanup_pids ops s =
     (case cleanup_scan ops (task_id_to_pid s) (d_world s) of (terminated, w) \<Rightarrow>
        s\<lparr>task_id_to_pid := foldl (\<lambda>d t. dict_pop t d) (task_id_to_pid s) terminated, d_world := w\<rparr>)"

definition remove_pid :: "int \<Rightarrow> 'w dstate \<Rightarrow> 'w dstate" where
  "remove_pid pid s = (case find (\<lambda>(t, p). p = pid) (task_id_to_pid s) of
     None \<Rightarrow> s | Some (tid, _) \<Rightarrow> s\<lparr>task_id_to_pid := dict_pop tid (task_id_to_pid s)\<rparr>)"

definition wait_child_process :: "'w os_ops \<Rightarrow> 'w dstate \<Rightarrow> 'w dstate" where
  "wait_child_process ops s =
     (let prev_num = length (task_id_to_pid s); s1 = cleanup_pids ops s in
      if task_id_to_pid s1 = [] \<or> length (task_id_to_pid s1) < prev_num then s1
      else (case os_wait ops (d_world s1) of
              (Inr (pid, _), w) \<Rightarrow> remove_pid pid (s1\<lparr>d_world := w\<rparr>)
            | (Inl e, w) \<Rightarrow>
                if e = ECHILD then s1\<lparr>task_id_to_pid := [], d_world := w\<rparr> else s1\<lparr>d_world := w\<rparr>))"

definition wait_all_child_processes :: "'w os_ops \<Rightarrow> 'w dstate \<Rightarrow> 'w dstate option" where
  "wait_all_child_processes ops =
     while_option (\<lambda>s. length (task_id_to_pid s) \<noteq> 0) (wait_child_process ops)"

text \<open>The loop at the head of \<open>execute\<close>.\<close>

definition wait_for_slot :: "'w os_ops \<Rightarrow> 'w dstate \<Rightarrow> 'w dstate option" where
  "wait_for_slot ops =
     while_option (\<lambda>s. int (length (task_id_to_pid s)) \<ge> d_pool_size s) (wait_child_process ops)"

definition safe_close :: "'w os_ops \<Rightarrow> int \<Rightarrow> 'w \<Rightarrow> unit res \<times> 'w" where
  "safe_close ops fd w = (case os_close ops fd w of
     (Inr _, w') \<Rightarrow> (Inr (), w')
   | (Inl e, w') \<Rightarrow> (if e \<noteq> EBADF then Inl (OSErrno e) else Inr (), w'))"

fun close_fds :: "'w os_ops \<Rightarrow> int list \<Rightarrow> 'w \<Rightarrow> unit res \<times> 'w" where
  "close_fds ops [] w = (Inr (), w)"
| "close_fds ops (fd # rest) w = (case safe_close ops fd w of
     (Inl e, w') \<Rightarrow> (Inl e, w') | (Inr _, w') \<Rightarrow> close_fds ops rest w')"

section \<open>Running the storlet\<close>

text \<open>Python's \<open>int(v)\<close> of a decoded value. A float is cut at the point; its exponent forms
  are outside the model and are refused.\<close>

fun int_of_json :: "json \<Rightarrow> int res" where
  "int_of_json (JStr s) = py_int s"
| "int_of_json (JInt i) = Inr i"
| "int_of_json (JBool b) = Inr (if b then 1 else 0)"
| "int_of_json (JFloat s) = py_int (takeWhile (\<lambda>c. c \<noteq> CHR ''.'') s)"
| "int_of_json _ = Inl (TypeError ''int() argument must be a string or a number'')"

definition opt_get :: "json dict \<Rightarrow> string \<Rightarrow> json" where
  "opt_get d k = (case dict_get d k of None \<Rightarrow> JNull | Some v \<Rightarrow> v)"

text \<open>\<open>content fd\<close> is the file object of the descriptor.\<close>

definition create_input_file :: "(int \<Rightarrow> rfile) \<Rightarrow> json dict \<Rightarrow> json \<Rightarrow> int \<Rightarrow> infile res" where
  "create_input_file content st_md in_md fd =
     (let start = opt_get st_md ''start''; end' = opt_get st_md ''end'' in
      if start \<noteq> JNull \<and> end' \<noteq> JNull then
        rbind (int_of_json start) (\<lambda>a. rbind (int_of_json end') (\<lambda>b.
          StorletRangeInputFile in_md fd (content fd) a b))
      else Inr (StorletInputFile in_md fd (content fd)))"

definition safe_close_in :: "infile \<Rightarrow> infile" where
  "safe_close_in f = (if \<not> in_closed f then in_close f else f)"

definition safe_close_out :: "outfile \<Rightarrow> outfile" where
  "safe_close_out f = (if \<not> out_closed f then out_close f else f)"

text \<open>\<open>_execute\<close>. The result is what it raises, if anything, and the files as it leaves them
  (\<open>None\<close> when they could not be created).\<close>

definition execute_storlet ::
  "(int \<Rightarrow> rfile) \<Rightarrow> datagram \<Rightarrow> 'w dstate \<Rightarrow> unit res \<times> (slogger option \<times> infile list \<times> outfile list) option" where
  "execute_storlet content dtg s =
     (case mapM (\<lambda>(st_md, md, fd). create_input_file content st_md md fd)
             (zip (object_in_storlet_metadata dtg) (zip (object_in_metadata dtg) (object_in_fds dtg))) of
        Inl e \<Rightarrow> (Inl e, None)
      | Inr in_files \<Rightarrow>
          (let out_files = map (\<lambda>(md_fd, fd). StorletOutputFile fd)
                             (zip (object_metadata_out_fds dtg) (object_out_fds dtg));
               (r, lg, ins, outs) =
                 (case logger_out_fd dtg of
                    None \<Rightarrow> (Inl (TypeError ''an integer is required''), None, in_files, out_files)
                  | Some fd \<Rightarrow>
                      (case d_storlet s (StorletLogger (d_storlet_name s) fd) in_files out_files (params dtg) of
                         (r, lg, ins, outs) \<Rightarrow> (r, Some (sl_close lg), ins, outs)));
               raised = (case r of Inl e \<Rightarrow> if is_Exception e then Inr () else Inl e | Inr _ \<Rightarrow> Inr ())
           in (raised, Some (lg, map safe_close_in ins, map safe_close_out outs))))"

section \<open>Command handlers\<close>

text \<open>The child's branch of \<open>execute\<close>: close the service descriptor, run, \<open>sys.exit()\<close>.\<close>

definition execute_child ::
  "'w os_ops \<Rightarrow> (int \<Rightarrow> rfile) \<Rightarrow> datagram \<Rightarrow> 'w dstate \<Rightarrow> cmd_resp res \<times> 'w dstate" where
  "execute_child ops content dtg s =
     (case service_out_fd dtg of
        None \<Rightarrow> (Inl (TypeError ''an integer is required''), s)
      | Some fd \<Rightarrow>
          (case safe_close ops fd (d_world s) of
             (Inl e, w) \<Rightarrow> (Inl e, s\<lparr>d_world := w\<rparr>)
           | (Inr _, w) \<Rightarrow>
               (case execute_storlet content dtg s of
                  (Inl e, files) \<Rightarrow> (Inl e, s\<lparr>d_world := w, d_run := files\<rparr>)
                | (Inr _, files) \<Rightarrow> (Inl (SystemExit 0), s\<lparr>d_world := w, d_run := files\<rparr>))))"

definition daemon_execute :: "'w os_ops \<Rightarrow> (int \<Rightarrow> rfile) \<Rightarrow> 'w dstate handler" where
  "daemon_execute ops content dtg s =
     (case os_uuid4 ops (d_world s) of (u, w) \<Rightarrow>
      let tid = take 8 u in
      case wait_for_slot ops (s\<lparr>d_world := w\<rparr>) of
        None \<Rightarrow> (Inl Diverges, s\<lparr>d_world := w\<rparr>)
      | Some s1 \<Rightarrow>
          (case os_fork ops (d_world s1) of
             (Inl e, w1) \<Rightarrow> (Inl (OSErrno e), s1\<lparr>d_world := w1\<rparr>)
           | (Inr pid, w1) \<Rightarrow>
               if pid \<noteq> 0 then
                 (case close_fds ops (invocation_fds dtg) w1 of
                    (r, w2) \<Rightarrow>
                      (rbind r (\<lambda>_. Inr (CommandSuccess ''OK'' True (Some tid))),
                       s1\<lparr>task_id_to_pid := dict_set tid pid (task_id_to_pid s1), d_world := w2\<rparr>))
               else execute_child ops content dtg (s1\<lparr>d_world := w1\<rparr>)))"

definition daemon_cancel :: "'w os_ops \<Rightarrow> 'w dstate handler" where
  "daemon_cancel ops dtg s =
     (case task_id dtg of
        JList _ \<Rightarrow> (Inl (TypeError ''unhashable type''), s)
      | JObj _ \<Rightarrow> (Inl (TypeError ''unhashable type''), s)
      | tid \<Rightarrow>
          (case (case tid of JStr t \<Rightarrow> dict_get (task_id_to_pid s) t | _ \<Rightarrow> None) of
             None \<Rightarrow> (Inr (CommandFailure (''Task id '' @ str_of_json tid @ '' is not found'') False None), s)
           | Some pid \<Rightarrow>
               (case os_kill ops pid (d_world s) of
                  (Inr _, w) \<Rightarrow> (Inr (CommandSuccess (''Cancelled task '' @ str_of_json tid) False None),
                                 remove_pid pid (s\<lparr>d_world := w\<rparr>))
                | (Inl _, w) \<Rightarrow> (Inr (CommandFailure (''Failed to cancel task '' @ str_of_json tid) False None),
                                 s\<lparr>d_world := w\<rparr>))))"

definition daemon_halt :: "'s handler" where
  "daemon_halt dtg s = (Inr (CommandSuccess ''OK'' False None), s)"

definition daemon_handlers :: "'w os_ops \<Rightarrow> (int \<Rightarrow> rfile) \<Rightarrow> (string \<times> 'w dstate handler) list" where
  "daemon_handlers ops content = [(''ping'', ping), (''execute'', daemon_execute ops content),
     (''cancel'', daemon_cancel ops), (''halt'', daemon_halt)]"

definition daemon_terminate :: "'w os_ops \<Rightarrow> 'w dstate \<Rightarrow> unit res \<times> 'w dstate" where
  "daemon_terminate ops s = (case wait_all_child_processes ops s of
     None \<Rightarrow> (Inl Diverges, s) | Some s' \<Rightarrow> (Inr (), s'))"

definition daemon_force_terminate :: "'w os_ops \<Rightarrow> 'w dstate \<Rightarrow> unit res \<times> 'w dstate" where
  "daemon_force_terminate ops s = (Inr (), s\<lparr>d_world := os_killpg ops (d_world s)\<rparr>)"

definition daemon_main_loop ::
  "'w os_ops \<Rightarrow> (int \<Rightarrow> rfile) \<Rightarrow> int \<Rightarrow> loop_env list \<Rightarrow> 'w dstate \<Rightarrow> (int res \<times> 'w dstate) option" where
  "daemon_main_loop ops content = main_loop (daemon_handlers ops content) (daemon_terminate ops)"
section \<open>The task table\<close>

text \<open>The pids of the table are distinct and are children of the daemon; no more than the
  pool allows.\<close>

definition table_sound :: "int set \<Rightarrow> int dict \<Rightarrow> bool" where
  "table_sound ch d \<longleftrightarrow> dict_ok d \<and> distinct (map snd d) \<and> snd ` set d \<subseteq> ch"

definition daemon_inv :: "('w \<Rightarrow> int set) \<Rightarrow> ('w \<Rightarrow> bool) \<Rightarrow> 'w dstate \<Rightarrow> bool" where
  "daemon_inv children ok s \<longleftrightarrow> ok (d_world s) \<and> table_sound (children (d_world s)) (task_id_to_pid s) \<and>
     0 < d_pool_size s \<and> int (length (task_id_to_pid s)) \<le> d_pool_size s"

lemma dstate_upd_eq [simp]:
  "s\<lparr>task_id_to_pid := a, d_world := b\<rparr> = s\<lparr>task_id_to_pid := c, d_world := d\<rparr> \<longleftrightarrow> a = c \<and> b = d"
  by (cases s) simp

lemma dict_pop_filter: "dict_pop k d = filter (\<lambda>x. fst x \<noteq> k) d"
  unfolding dict_pop_def by (induction d) auto

lemma length_dict_set: "length (dict_set k v d) \<le> Suc (length d)"
  unfolding dict_set_def by (induction d) auto

lemma foldl_dict_pop: "foldl (\<lambda>d t. dict_pop t d) d ts = filter (\<lambda>x. fst x \<notin> set ts) d"
  by (induction ts arbitrary: d) (auto simp: dict_pop_filter intro: filter_cong)

lemma table_sound_filter:
  assumes "table_sound ch d" "\<And>x. x \<in> set d \<Longrightarrow> P x \<Longrightarrow> snd x \<in> ch'"
  shows "table_sound ch' (filter P d)"
  using assms by (auto simp: table_sound_def dict_ok_def distinct_map_filter)

lemma table_pair_eq: "table_sound ch d \<Longrightarrow> x \<in> set d \<Longrightarrow> y \<in> set d \<Longrightarrow> fst x = fst y \<or> snd x = snd y \<Longrightarrow> x = y"
  by (auto simp: table_sound_def dict_ok_def distinct_map dest: inj_onD)

lemma remove_pid_eq:
  assumes "table_sound ch (task_id_to_pid s)"
  shows "remove_pid pid s = s\<lparr>task_id_to_pid := filter (\<lambda>x. snd x \<noteq> pid) (task_id_to_pid s)\<rparr>"
proof (cases "find (\<lambda>(t, p). p = pid) (task_id_to_pid s)")
  case None
  then have "filter (\<lambda>x. snd x \<noteq> pid) (task_id_to_pid s) = task_id_to_pid s"
    by (auto simp: find_None_iff filter_id_conv)
  then show ?thesis using None by (simp add: remove_pid_def)
next
  case (Some x)
  then have x: "x \<in> set (task_id_to_pid s)" "snd x = pid" by (auto simp: find_Some_iff split_def)
  have "filter (\<lambda>y. fst y \<noteq> fst x) (task_id_to_pid s) = filter (\<lambda>y. snd y \<noteq> pid) (task_id_to_pid s)"
    using table_pair_eq [OF assms _ x(1)] x(2) by (intro filter_cong) auto
  then show ?thesis using Some by (cases x) (simp add: remove_pid_def dict_pop_filter)
qed

context process_os
begin

lemma cleanup_scan_spec:
  assumes "ok w" "distinct (map snd d)" "snd ` set d \<subseteq> children w" "cleanup_scan ops d w = (ts, w')"
  shows "\<exists>D. set D \<subseteq> set d \<and> ts = map fst D \<and> ok w' \<and> children w' = children w - snd ` set D"
  using assms
proof (induction d arbitrary: w ts)
  case (Cons x d)
  obtain t p where x: "x = (t, p)" by (cases x)
  obtain r w1 where r: "os_waitpid_nohang ops p w = (r, w1)" by (cases "os_waitpid_nohang ops p w")
  have ch: "ok w1" "r = Inr (0, 0) \<and> children w1 = children w \<or>
      (\<exists>rc. r = Inr (p, rc) \<and> children w1 = children w - {p})"
    using nohang [OF Cons.prems(1) r] Cons.prems(3) by (auto simp: x)
  have p0: "p \<noteq> 0" using children_pos [OF Cons.prems(1), of p] Cons.prems(3) by (auto simp: x)
  have sub: "snd ` set d \<subseteq> children w1" using ch(2) Cons.prems(2,3) by (auto simp: x)
  obtain ts1 where c: "cleanup_scan ops d w1 = (ts1, w')"
      "ts = (if r = Inr (0, 0) then ts1 else t # ts1)"
    using Cons.prems(4) ch(2) p0 by (auto simp: x r split: prod.splits)
  obtain D where "set D \<subseteq> set d" "ts1 = map fst D" "ok w'" "children w' = children w1 - snd ` set D"
    using Cons.IH [OF ch(1) _ sub c(1)] Cons.prems(2) by auto
  then show ?case
    using ch(2) c(2) p0 by (intro exI [of _ "if r = Inr (0, 0) then D else x # D"]) (auto simp: x)
qed auto

text \<open>Cleaning up removes from the table exactly the children it reaps.\<close>

lemma cleanup_pids_spec:
  assumes "ok (d_world s)" "table_sound (children (d_world s)) (task_id_to_pid s)"
  shows "\<exists>ds w. cleanup_pids ops s = s\<lparr>task_id_to_pid := ds, d_world := w\<rparr> \<and> ok w \<and> table_sound (children w) ds \<and>
    length ds \<le> length (task_id_to_pid s) \<and> children w \<subseteq> children (d_world s)"
proof -
  let ?d = "task_id_to_pid s"
  obtain ts w where c: "cleanup_scan ops ?d (d_world s) = (ts, w)" by (cases "cleanup_scan ops ?d (d_world s)")
  obtain D where D: "set D \<subseteq> set ?d" "ts = map fst D" "ok w" "children w = children (d_world s) - snd ` set D"
    using cleanup_scan_spec [OF assms(1) _ _ c] assms(2) by (auto simp: table_sound_def)
  have "table_sound (children w) (filter (\<lambda>x. fst x \<notin> set ts) ?d)"
  proof (rule table_sound_filter [OF assms(2)])
    fix x assume x: "x \<in> set ?d" "fst x \<notin> set ts"
    have "snd x \<noteq> snd y" if "y \<in> set D" for y
      using table_pair_eq [OF assms(2) x(1), of y] that D(1,2) x(2) by auto
    then show "snd x \<in> children w" using x(1) D(4) assms(2) by (auto simp: table_sound_def)
  qed
  moreover have "cleanup_pids ops s = s\<lparr>task_id_to_pid := filter (\<lambda>x. fst x \<notin> set ts) ?d, d_world := w\<rparr>"
    by (simp add: cleanup_pids_def foldl_dict_pop c)
  ultimately show ?thesis using D(3,4) length_filter_le by blast
qed



text \<open>Every round of waiting makes progress: a task leaves the table or a child is reaped.\<close>

lemma wait_child_process_spec:
  assumes "ok (d_world s)" "table_sound (children (d_world s)) (task_id_to_pid s)"
  shows "\<exists>ds w. wait_child_process ops s = s\<lparr>task_id_to_pid := ds, d_world := w\<rparr> \<and> ok w \<and>
    table_sound (children w) ds \<and> length ds \<le> length (task_id_to_pid s) \<and>
    (task_id_to_pid s \<noteq> [] \<longrightarrow>
      card (children w) + length ds < card (children (d_world s)) + length (task_id_to_pid s))"
proof -
  obtain ds w where c: "cleanup_pids ops s = s\<lparr>task_id_to_pid := ds, d_world := w\<rparr>" and w: "ok w"
    "table_sound (children w) ds" "length ds \<le> length (task_id_to_pid s)" "children w \<subseteq> children (d_world s)"
    using cleanup_pids_spec [OF assms] by auto
  have cw: "card (children w) \<le> card (children (d_world s))"
    using w(4) finite_children [OF assms(1)] by (rule card_mono [rotated])
  show ?thesis
  proof (cases "ds = [] \<or> length ds < length (task_id_to_pid s)")
    case True
    then have "wait_child_process ops s = s\<lparr>task_id_to_pid := ds, d_world := w\<rparr>"
      by (auto simp: wait_child_process_def Let_def c)
    moreover have "task_id_to_pid s \<noteq> [] \<Longrightarrow> length ds < length (task_id_to_pid s)" using True by auto
    ultimately show ?thesis using w cw by (intro exI conjI) auto
  next
    case False
    obtain r w1 where r: "os_wait ops w = (r, w1)" by (cases "os_wait ops w")
    have "children w \<noteq> {}" using w(2) False by (cases ds) (auto simp: table_sound_def)
    then obtain p rc where p: "r = Inr (p, rc)" "p \<in> children w" "children w1 = children w - {p}" "ok w1"
      using wait [OF w(1) r] by auto
    define ds1 where "ds1 = filter (\<lambda>x. snd x \<noteq> p) ds"
    have "wait_child_process ops s = s\<lparr>task_id_to_pid := ds1, d_world := w1\<rparr>"
      using False c r p(1) remove_pid_eq [of "children w" "s\<lparr>task_id_to_pid := ds, d_world := w1\<rparr>" p] w(2)
      by (simp add: wait_child_process_def Let_def ds1_def)
    moreover have "table_sound (children w1) ds1"
      unfolding ds1_def using w(2) p(3) by (intro table_sound_filter [OF w(2)]) (auto simp: table_sound_def)
    moreover have "card (children w1) < card (children w)"
      unfolding p(3) by (rule card_Diff1_less [OF finite_children [OF w(1)] p(2)])
    moreover have "length ds1 \<le> length ds" by (simp add: ds1_def)
    ultimately show ?thesis using p(4) w(3) cw by auto
  qed
qed

text \<open>So a loop that waits while some condition on a non-empty table holds ends.\<close>

lemma wait_loop:
  assumes "ok (d_world s)" "table_sound (children (d_world s)) (task_id_to_pid s)"
    and b: "\<And>ds w. b (s\<lparr>task_id_to_pid := ds, d_world := w\<rparr>) \<Longrightarrow> ds \<noteq> []"
  shows "\<exists>ds w. while_option b (wait_child_process ops) s = Some (s\<lparr>task_id_to_pid := ds, d_world := w\<rparr>) \<and>
    \<not> b (s\<lparr>task_id_to_pid := ds, d_world := w\<rparr>) \<and> ok w \<and> table_sound (children w) ds \<and>
    length ds \<le> length (task_id_to_pid s)"
proof -
  define P where "P t \<longleftrightarrow> (\<exists>ds w. t = s\<lparr>task_id_to_pid := ds, d_world := w\<rparr> \<and> ok w \<and>
      table_sound (children w) ds \<and> length ds \<le> length (task_id_to_pid s))" for t
  have Ps: "P s" unfolding P_def using assms
    by (intro exI [of _ "task_id_to_pid s"] exI [of _ "d_world s"]) simp
  have step: "P (wait_child_process ops t) \<and>
      (card (children (d_world (wait_child_process ops t))) + length (task_id_to_pid (wait_child_process ops t)))
        < card (children (d_world t)) + length (task_id_to_pid t)" if "P t" "b t" for t
  proof -
    obtain ds w where t: "t = s\<lparr>task_id_to_pid := ds, d_world := w\<rparr>" "ok w" "table_sound (children w) ds"
        "length ds \<le> length (task_id_to_pid s)"
      using \<open>P t\<close> unfolding P_def by blast
    have ne: "ds \<noteq> []" using b \<open>b t\<close> t(1) by simp
    obtain ds' w' where "wait_child_process ops t = t\<lparr>task_id_to_pid := ds', d_world := w'\<rparr>" "ok w'"
        "table_sound (children w') ds'" "length ds' \<le> length ds"
        "card (children w') + length ds' < card (children w) + length ds"
      using wait_child_process_spec [of t] t ne by auto
    then show ?thesis using t by (simp add: P_def)
  qed
  obtain t where t: "while_option b (wait_child_process ops) s = Some t"
    using measure_while_option_Some [of P b "wait_child_process ops"
      "\<lambda>t. card (children (d_world t)) + length (task_id_to_pid t)", OF step Ps] by blast
  moreover have "P t" using while_option_rule [OF _ t, of P] step Ps by blast
  moreover have "\<not> b t" by (rule while_option_stop [OF t])
  ultimately show ?thesis unfolding P_def by auto
qed

lemma wait_for_slot_spec:
  assumes "daemon_inv children ok s"
  shows "\<exists>ds w. wait_for_slot ops s = Some (s\<lparr>task_id_to_pid := ds, d_world := w\<rparr>) \<and>
    int (length ds) < d_pool_size s \<and> ok w \<and> table_sound (children w) ds"
proof -
  have "\<exists>ds w. wait_for_slot ops s = Some (s\<lparr>task_id_to_pid := ds, d_world := w\<rparr>) \<and>
      \<not> d_pool_size (s\<lparr>task_id_to_pid := ds, d_world := w\<rparr>)
        \<le> int (length (task_id_to_pid (s\<lparr>task_id_to_pid := ds, d_world := w\<rparr>))) \<and>
      ok w \<and> table_sound (children w) ds \<and> length ds \<le> length (task_id_to_pid s)"
    unfolding wait_for_slot_def by (rule wait_loop) (use assms in \<open>auto simp: daemon_inv_def\<close>)
  then show ?thesis by auto
qed

lemma wait_all_spec:
  assumes "daemon_inv children ok s"
  shows "\<exists>w. wait_all_child_processes ops s = Some (s\<lparr>task_id_to_pid := [], d_world := w\<rparr>) \<and> ok w"
  using wait_loop [of s "\<lambda>s. length (task_id_to_pid s) \<noteq> 0"] assms
  by (auto simp: wait_all_child_processes_def daemon_inv_def)

lemma safe_close_spec: "ok w \<Longrightarrow> safe_close ops fd w = (r, w') \<Longrightarrow> ok w' \<and> children w' = children w"
  by (auto simp: safe_close_def split: prod.splits sum.splits dest: close)

lemma safe_close_exc: "safe_close ops fd w = (Inl e, w') \<Longrightarrow> is_Exception e"
  by (auto simp: safe_close_def is_Exception_def split: prod.splits sum.splits if_splits)

lemma close_fds_spec: "ok w \<Longrightarrow> close_fds ops fs w = (r, w') \<Longrightarrow> ok w' \<and> children w' = children w"
  by (induction fs arbitrary: w) (auto split: prod.splits sum.splits dest: safe_close_spec)

lemma close_fds_exc: "close_fds ops fs w = (Inl e, w') \<Longrightarrow> is_Exception e"
  by (induction fs arbitrary: w) (auto split: prod.splits sum.splits dest: safe_close_exc)

lemma table_sound_set:
  assumes "table_sound ch d" "p \<notin> ch"
  shows "table_sound (insert p ch) (dict_set t p d)"
proof -
  have fresh: "(t', p) \<notin> set d" for t' using assms by (force simp: table_sound_def)
  have sub: "set (AList.update t p d) \<subseteq> insert (t, p) (set d)" for d :: "int dict"
    by (induction d) auto
  have "distinct (map snd (AList.update t p d))"
    if "distinct (map snd d)" "\<And>t'. (t', p) \<notin> set d" for d :: "int dict"
    using that
  proof (induction d)
    case (Cons x d)
    have "snd x \<noteq> p" "\<And>t'. (t', p) \<notin> set d" using Cons.prems(2) by (cases x, auto)+
    moreover have "snd ` set (AList.update t p d) \<subseteq> insert p (snd ` set d)"
      using image_mono [OF sub [of d], of snd] by simp
    ultimately have "snd x \<notin> snd ` set (AList.update t p d)" "distinct (map snd (AList.update t p d))"
      using Cons.prems(1) Cons.IH by auto
    moreover have "p \<notin> snd ` set d" using Cons.prems(2) by auto
    ultimately show ?case using Cons.prems(1) by (cases x) simp
  qed simp
  then have "distinct (map snd (dict_set t p d))" using assms(1) fresh by (simp add: table_sound_def dict_set_def)
  moreover have "snd ` set (dict_set t p d) \<subseteq> insert p (snd ` set d)"
    using image_mono [OF sub [of d], of snd] by (simp add: dict_set_def)
  ultimately show ?thesis using assms(1) by (auto simp: table_sound_def)
qed

text \<open>The parent's side of \<open>execute\<close>.\<close>

lemma daemon_execute_spec:
  assumes "daemon_inv children ok s"
  shows "\<exists>r s'. daemon_execute ops content dtg s = (r, s') \<and> daemon_inv children ok s' \<and>
    (case r of Inl e \<Rightarrow> is_Exception e
     | Inr resp \<Rightarrow> (\<exists>pid. let tid = take 8 (fst (os_uuid4 ops (d_world s))) in
         resp = CommandSuccess ''OK'' True (Some tid) \<and> dict_get (task_id_to_pid s') tid = Some pid))"
proof -
  obtain u w where u: "os_uuid4 ops (d_world s) = (u, w)" by (cases "os_uuid4 ops (d_world s)")
  let ?s0 = "s\<lparr>d_world := w\<rparr>"
  have "daemon_inv children ok ?s0"
    using assms uuid4 [OF _ u] by (simp add: daemon_inv_def)
  then obtain ds w1 where slot: "wait_for_slot ops ?s0 = Some (s\<lparr>task_id_to_pid := ds, d_world := w1\<rparr>)"
    and ds: "int (length ds) < d_pool_size s" "ok w1" "table_sound (children w1) ds"
    using wait_for_slot_spec [of ?s0] by auto
  obtain f w2 where f: "os_fork ops w1 = (f, w2)" by (cases "os_fork ops w1")
  note fk = fork [OF ds(2) f]
  show ?thesis
  proof (cases f)
    case (Inl e)
    then show ?thesis using u slot f fk ds assms
      by (simp add: daemon_execute_def daemon_inv_def is_Exception_def)
  next
    case (Inr pid)
    obtain c w3 where c: "close_fds ops (invocation_fds dtg) w2 = (c, w3)"
      by (cases "close_fds ops (invocation_fds dtg) w2")
    let ?d = "dict_set (take 8 u) pid ds"
    have w3: "ok w3" "children w3 = insert pid (children w1)" "pid \<notin> children w1" "pid \<noteq> 0"
      using close_fds_spec [OF _ c] fk Inr by auto
    have "table_sound (children w3) ?d" unfolding w3(2) by (rule table_sound_set [OF ds(3) w3(3)])
    moreover have "length ?d \<le> Suc (length ds)" by (rule length_dict_set)
    ultimately have "daemon_inv children ok (s\<lparr>task_id_to_pid := ?d, d_world := w3\<rparr>)"
      using ds(1) w3(1) assms by (simp add: daemon_inv_def)
    then show ?thesis using u slot f c Inr w3(4) close_fds_exc
      by (cases c) (auto simp: daemon_execute_def Let_def)
  qed
qed

lemma daemon_cancel_known:
  assumes "daemon_inv children ok s" "task_id dtg = JStr t" "dict_get (task_id_to_pid s) t = Some pid"
  shows "\<exists>w. daemon_cancel ops dtg s = (Inr (CommandSuccess (''Cancelled task '' @ t) False None),
    s\<lparr>task_id_to_pid := dict_pop t (task_id_to_pid s), d_world := w\<rparr>) \<and> ok w \<and>
    children w = children (d_world s)"
proof -
  let ?d = "task_id_to_pid s"
  have snd: "table_sound (children (d_world s)) ?d" "ok (d_world s)" using assms(1) by (auto simp: daemon_inv_def)
  have mem: "(t, pid) \<in> set ?d" using assms(3) by (auto simp: dict_get_def dest: map_of_SomeD)
  then have "pid \<in> children (d_world s)" using snd(1) by (force simp: table_sound_def)
  moreover obtain k w where k: "os_kill ops pid (d_world s) = (k, w)" by (cases "os_kill ops pid (d_world s)")
  ultimately have w: "k = Inr ()" "ok w" "children w = children (d_world s)"
    using kill [OF snd(2) k] by auto
  have "filter (\<lambda>x. snd x \<noteq> pid) ?d = dict_pop t ?d"
    unfolding dict_pop_filter using table_pair_eq [OF snd(1) _ mem] by (intro filter_cong) auto
  then have "remove_pid pid (s\<lparr>d_world := w\<rparr>) = s\<lparr>task_id_to_pid := dict_pop t ?d, d_world := w\<rparr>"
    using remove_pid_eq [of "children (d_world s)" "s\<lparr>d_world := w\<rparr>" pid] snd(1) by simp
  then show ?thesis using assms(2,3) k w by (auto simp: daemon_cancel_def)
qed

lemma daemon_inv_pop:
  assumes "daemon_inv children ok s" "ok w" "children w = children (d_world s)"
  shows "daemon_inv children ok (s\<lparr>task_id_to_pid := dict_pop t (task_id_to_pid s), d_world := w\<rparr>)"
proof -
  have "table_sound (children (d_world s)) (dict_pop t (task_id_to_pid s))"
    unfolding dict_pop_filter using assms(1)
    by (intro table_sound_filter) (auto simp: daemon_inv_def table_sound_def)
  moreover have "length (dict_pop t (task_id_to_pid s)) \<le> length (task_id_to_pid s)"
    by (simp add: dict_pop_filter)
  ultimately show ?thesis using assms by (simp add: daemon_inv_def)
qed

lemma daemon_cancel_spec:
  assumes "daemon_inv children ok s" "daemon_cancel ops dtg s = (r, s')"
  shows "daemon_inv children ok s' \<and> (\<forall>e. r = Inl e \<longrightarrow> is_Exception e)"
proof (cases "\<exists>t pid. task_id dtg = JStr t \<and> dict_get (task_id_to_pid s) t = Some pid")
  case True
  then obtain t pid where "task_id dtg = JStr t" "dict_get (task_id_to_pid s) t = Some pid" by blast
  from daemon_cancel_known [OF assms(1) this] show ?thesis
    using assms daemon_inv_pop by auto
next
  case False
  then show ?thesis using assms
    by (auto simp: daemon_cancel_def is_Exception_def split: json.splits option.splits)
qed

end

text \<open>The daemon is an SBus server: its handlers keep the invariant and raise only exceptions
  the dispatcher turns into responses.\<close>

sublocale process_os \<subseteq> d: sbus_server "daemon_handlers ops content" "daemon_inv children ok" for content
proof
  fix n h s dtg r s' assume "(n, h) \<in> set (daemon_handlers ops content)"
  then have "h = ping \<or> h = daemon_halt \<or> h = daemon_cancel ops \<or> h = daemon_execute ops content"
    by (auto simp: daemon_handlers_def)
  note h = this
  show "daemon_inv children ok s'" if "daemon_inv children ok s" "h dtg s = (r, s')"
    using h that daemon_execute_spec [OF that(1), of content dtg] daemon_cancel_spec [OF that(1), of dtg r s']
    by (auto simp: ping_def daemon_halt_def)
  show "is_Exception e" if "daemon_inv children ok s" "h dtg s = (Inl e, s')" for e
    using h that daemon_execute_spec [OF that(1), of content dtg] daemon_cancel_spec [OF that(1), of dtg "Inl e" s']
    by (auto simp: ping_def daemon_halt_def)
qed

context process_os
begin

lemmas daemon_server = d.sbus_server_axioms

end

section \<open>The storlet's process\<close>

text \<open>Whatever the storlet does, every file the daemon opened for it that it hands back is closed.\<close>

lemma safe_close_closed [simp]: "in_closed (safe_close_in f)" "out_closed (safe_close_out g)"
  by (auto simp: safe_close_in_def safe_close_out_def in_closed_def in_close_def out_closed_def out_close_def
      wfile_close_def Let_def)

lemma execute_storlet_closed:
  "execute_storlet content dtg s = (r, Some (lg, ins, outs)) \<Longrightarrow>
     list_all in_closed ins \<and> list_all out_closed outs \<and>
     (case lg of None \<Rightarrow> True | Some l \<Rightarrow> w_closed (sl_file l)) \<and> (\<forall>e. r = Inl e \<longrightarrow> \<not> is_Exception e)"
  by (auto simp: execute_storlet_def Let_def list_all_iff sl_close_def wfile_close_def
      split: sum.splits option.splits prod.splits if_splits)

lemma wait_child_pool: "d_pool_size (wait_child_process ops s) = d_pool_size s"
  by (auto simp: wait_child_process_def cleanup_pids_def remove_pid_def Let_def
      split: prod.splits sum.splits option.splits if_splits)

lemma no_pool_diverges:
  assumes "d_pool_size s \<le> 0"
  shows "wait_for_slot ops s = None"
proof (rule ccontr)
  assume "wait_for_slot ops s \<noteq> None"
  then obtain t where t: "wait_for_slot ops s = Some t" by auto
  have "d_pool_size t = d_pool_size s"
    by (rule while_option_rule [OF _ t [unfolded wait_for_slot_def]]) (simp_all add: wait_child_pool)
  moreover have "int (length (task_id_to_pid t)) < d_pool_size t"
    using while_option_stop [OF t [unfolded wait_for_slot_def]] by simp
  ultimately show False using assms by simp
qed

section \<open>Properties\<close>

text \<open>C8: On a POSIX system and with a positive pool, \<open>execute\<close> always returns in the parent: it answers with
  a fresh entry of the task table (or with an exception the server reports), there are never more tasks than
  the pool allows, and every pid in the table is a child of the daemon.\<close>

theorem execute_keeps_pool:
  assumes "process_os ops children ok" "daemon_inv children ok s"
  shows "\<exists>r s'. daemon_execute ops content dtg s = (r, s') \<and> daemon_inv children ok s' \<and>
    int (length (task_id_to_pid s')) \<le> d_pool_size s' \<and>
    (case r of Inl e \<Rightarrow> is_Exception e
     | Inr resp \<Rightarrow> (\<exists>pid. let tid = take 8 (fst (os_uuid4 ops (d_world s))) in
         resp = CommandSuccess ''OK'' True (Some tid) \<and> dict_get (task_id_to_pid s') tid = Some pid))"
  using process_os.daemon_execute_spec [OF assms, of content dtg] by (auto simp: daemon_inv_def)

definition sample_world :: world where
  "sample_world = \<lparr>w_running = [7], w_zombies = [], w_next_pid = 8, w_fds = [3, 4, 5, 6, 7], w_uuids = 0\<rparr>"

definition sample_content :: "int \<Rightarrow> rfile" where
  "sample_content fd = \<lparr>r_content = ''hello'', r_pos = 0, r_closed = False\<rparr>"

definition sample_daemon :: "world dstate" where
  "sample_daemon = \<lparr>d_storlet_name = ''mod.Cls'', d_storlet = (\<lambda>lg ins outs ps. (Inr (), lg, ins, outs)),
     d_pool_size = 1, task_id_to_pid = [(''t1'', 7)], d_world = sample_world, d_run = None\<rparr>"

lemma sample_daemon_inv: "daemon_inv world_children world_ok sample_daemon"
  by (simp add: daemon_inv_def sample_daemon_def sample_world_def world_ok_def world_children_def table_sound_def
      dict_ok_def)

theorem execute_keeps_pool_witness:
  "\<exists>r s'. daemon_execute table_ops sample_content sample_datagram sample_daemon = (r, s') \<and>
     int (length (task_id_to_pid s')) \<le> d_pool_size s'"
  using execute_keeps_pool [OF table.process_os_axioms sample_daemon_inv, of sample_content sample_datagram] by blast



text \<open>With a pool size of zero or less, \<open>execute\<close> waits for ever on every request: the size is taken from the
  command line without a check.\<close>

theorem execute_hangs_without_pool:
  assumes "d_pool_size s \<le> 0"
  shows "\<exists>s'. daemon_execute ops content dtg s = (Inl Diverges, s')"
proof -
  obtain u w where u: "os_uuid4 ops (d_world s) = (u, w)" by (cases "os_uuid4 ops (d_world s)")
  have "wait_for_slot ops (s\<lparr>d_world := w\<rparr>) = None" by (rule no_pool_diverges) (use assms in simp)
  then show ?thesis using u by (simp add: daemon_execute_def)
qed

theorem execute_hangs_without_pool_witness:
  "\<exists>s'. daemon_execute table_ops sample_content sample_datagram (sample_daemon\<lparr>d_pool_size := 0\<rparr>) = (Inl Diverges, s')"
  by (rule execute_hangs_without_pool) simp

text \<open>Cancelling a known task kills its process, removes that task and no other from the table, and answers
  with a response that is not iterable, so that it also ends the daemon's main loop.\<close>

theorem cancel_known_task:
  assumes "process_os ops children ok" "daemon_inv children ok s" "task_id dtg = JStr t" "dict_has (task_id_to_pid s) t"
  shows "\<exists>r s'. daemon_cancel ops dtg s = (Inr r, s') \<and> status r \<and> \<not> iterable r \<and>
    task_id_to_pid s' = dict_pop t (task_id_to_pid s) \<and> daemon_inv children ok s'"
proof -
  obtain pid where pid: "dict_get (task_id_to_pid s) t = Some pid" using assms(4) by (auto simp: dict_has_iff)
  from process_os.daemon_cancel_known [OF assms(1,2,3) pid] process_os.daemon_inv_pop [OF assms(1,2)]
  show ?thesis by (auto simp: resp_defs)
qed

definition cancel_datagram :: datagram where
  "cancel_datagram = ping_datagram\<lparr>command := JStr ''SBUS_CMD_CANCEL'', task_id := JStr ''t1''\<rparr>"

theorem cancel_known_task_witness:
  "\<exists>r s'. daemon_cancel table_ops cancel_datagram sample_daemon = (Inr r, s') \<and> \<not> iterable r \<and> task_id_to_pid s' = []"
  using cancel_known_task [OF table.process_os_axioms sample_daemon_inv, of cancel_datagram "''t1''"]
  by (auto simp: cancel_datagram_def sample_daemon_def dict_has_def dict_pop_def)


lemma sample_run: "\<exists>lg ins outs. execute_storlet sample_content sample_datagram sample_daemon = (Inr (), Some (lg, ins, outs))"
proof -
  have "(case execute_storlet sample_content sample_datagram sample_daemon of (Inr _, Some _) \<Rightarrow> True | _ \<Rightarrow> False)"
    by code_simp
  then show ?thesis by (auto split: prod.splits sum.splits option.splits)
qed


text \<open>The daemon answers every well-formed datagram, whatever its command and parameters, and is left in a
  state that satisfies the invariant of its task table.\<close>

theorem daemon_answers:
  assumes "process_os ops children ok" "daemon_inv children ok s" "dtg_wf dtg"
  shows "\<exists>r s'. dispatch_command (daemon_handlers ops content) True dtg s = (Inr (iterable r, report_message r), s') \<and>
    daemon_inv children ok s'"
proof -
  have "sbus_server (daemon_handlers ops content) (daemon_inv children ok)"
    by (rule process_os.daemon_server [OF assms(1)])
  from sbus_server.dispatch_alive [OF this assms(2,3)] show ?thesis by blast
qed

theorem daemon_answers_witness:
  "\<exists>r s'. dispatch_command (daemon_handlers table_ops sample_content) True ping_datagram sample_daemon
     = (Inr (iterable r, report_message r), s') \<and> daemon_inv world_children world_ok s'"
  by (rule daemon_answers [OF table.process_os_axioms sample_daemon_inv ping_datagram_wf])

end
