(* ===== verification/Factory.thy ===== *)
theory Factory
  imports Client Daemon
begin

text \<open>
  The daemon factory (\<open>storlets/agent/daemon_factory/server.py\<close>), the first process in a
  storlet container: it starts, watches, kills and shuts down the storlet daemons, one per
  storlet name, and talks to them as an SBus client.

  The world is shared by the process calls (\<open>os_ops\<close>), the client's pipe (\<open>pipe_ops\<close>), the
  test for an executable runtime and \<open>subprocess.Popen\<close>. Waiting a second and logging are
  left out. Parameters come from a decoded message and are \<^typ>\<open>json\<close> values; \<open>str()\<close> of a
  container, which can only reach an argument list, is not spelled out.
\<close>

section \<open>State\<close>

record 'w factory_ops =
  fo_os :: "'w os_ops"
  fo_pipe :: "'w pipe_ops"
  fo_executable :: "string \<Rightarrow> 'w \<Rightarrow> bool"
  fo_popen :: "string list \<Rightarrow> string dict option \<Rightarrow> 'w \<Rightarrow> (errno + int) \<times> 'w"
  fo_environ :: "string dict"

text \<open>Only string names reach the pid table, so only those are kept in the table of pipes.\<close>

record 'w fstate =
  container_id :: string
  storlet_name_to_pipe_name :: "json dict"
  storlet_name_to_pid :: "int dict"
  f_world :: 'w

definition NUM_OF_TRIES_PINGING_STARTING_DAEMON :: nat where
  "NUM_OF_TRIES_PINGING_STARTING_DAEMON = 10"

definition StorletDaemonFactory_init :: "string \<Rightarrow> 'w \<Rightarrow> 'w fstate" where
  "StorletDaemonFactory_init cid w = \<lparr>container_id = cid, storlet_name_to_pipe_name = [],
     storlet_name_to_pid = [], f_world = w\<rparr>"

section \<open>Process arguments\<close>

fun as_str :: "json \<Rightarrow> string res" where
  "as_str (JStr s) = Inr s"
| "as_str _ = Inl (TypeError ''expected str instance'')"

definition env_get :: "string dict \<Rightarrow> string \<Rightarrow> string" where
  "env_get environ k = (case dict_get environ k of None \<Rightarrow> [] | Some v \<Rightarrow> v)"

definition with_env_prefix :: "string dict \<Rightarrow> string \<Rightarrow> string \<Rightarrow> string" where
  "with_env_prefix environ k s = (if env_get environ k \<noteq> [] then env_get environ k @ '':'' @ s else s)"

definition get_jvm_args ::
  "string dict \<Rightarrow> 'w fstate \<Rightarrow> json \<Rightarrow> json \<Rightarrow> json \<Rightarrow> json \<Rightarrow> json \<Rightarrow> (json list \<times> string dict) res" where
  "get_jvm_args environ s storlet_path storlet_name pool_size uds_path log_level =
     (let lib_dir = ''/usr/local/lib/storlets'';
          java_lib_dir = path_join lib_dir ''java'';
          jar_deps = map (path_join java_lib_dir) [''*'', []] in
      rbind (as_str storlet_path) (\<lambda>sp.
        let clspth = join_with '':'' (jar_deps @ [sp]);
            library_path = join_with '':'' [lib_dir, java_lib_dir] in
        Inr ([JStr ''/usr/bin/java'', JStr ''org.openstack.storlet.daemon.SDaemon'', storlet_name, uds_path,
              log_level, JStr (str_of_json pool_size), JStr (container_id s)],
             [(''CLASSPATH'', with_env_prefix environ ''CLASSPATH'' clspth),
              (''LD_LIBRARY_PATH'', with_env_prefix environ ''LD_LIBRARY_PATH'' library_path)])))"

definition get_python_args ::
  "string dict \<Rightarrow> 'w fstate \<Rightarrow> json \<Rightarrow> json \<Rightarrow> json \<Rightarrow> json \<Rightarrow> json \<Rightarrow> (json list \<times> string dict) res" where
  "get_python_args environ s storlet_name pool_size uds_path log_level version =
     (let version' = (if truthy version then version else JStr ''3'');
          interpreter = ''/usr/bin/python'' @ str_of_json version' in
      rbind (as_str storlet_name) (\<lambda>name.
        Inr ([JStr interpreter, JStr ''/usr/local/libexec/storlets/storlets-daemon'', storlet_name, uds_path,
              log_level, JStr (str_of_json pool_size), JStr (container_id s)],
             [(''PYTHONPATH'', with_env_prefix environ ''PYTHONPATH'' (path_join ''/var/lib/storlets'' name))])))"

section \<open>Status of a daemon\<close>

definition get_process_status_by_pid :: "'w factory_ops \<Rightarrow> int \<Rightarrow> string \<Rightarrow> 'w fstate \<Rightarrow> bool res \<times> 'w fstate" where
  "get_process_status_by_pid ops daemon_pid name s =
     (case os_waitpid_nohang (fo_os ops) daemon_pid (f_world s) of
        (Inl e, w) \<Rightarrow>
          ((if e = ECHILD \<or> e = ESRCH then Inr False
            else if e = EPERM then Inl (SDaemonError (''No permission to access the storlet daemon '' @ name))
            else Inl (SDaemonError ''Unknown error'')), s\<lparr>f_world := w\<rparr>)
      | (Inr (pid, rc), w) \<Rightarrow> (Inr (pid = 0 \<and> rc = 0), s\<lparr>f_world := w\<rparr>))"

text \<open>\<open>storlet_name_to_pid.get(name)\<close> for a name from a message.\<close>

fun pid_get :: "'v dict \<Rightarrow> json \<Rightarrow> 'v option res" where
  "pid_get d (JStr n) = Inr (dict_get d n)"
| "pid_get d (JList _) = Inl (TypeError ''unhashable type'')"
| "pid_get d (JObj _) = Inl (TypeError ''unhashable type'')"
| "pid_get d _ = Inr None"

definition get_process_status_by_name :: "'w factory_ops \<Rightarrow> json \<Rightarrow> 'w fstate \<Rightarrow> bool res \<times> 'w fstate" where
  "get_process_status_by_name ops name s =
     (case pid_get (storlet_name_to_pid s) name of
        Inl e \<Rightarrow> (Inl e, s)
      | Inr None \<Rightarrow> (Inr False, s)
      | Inr (Some pid) \<Rightarrow> get_process_status_by_pid ops pid (str_of_json name) s)"

section \<open>Starting a daemon\<close>

text \<open>A client call on a daemon's pipe. A pipe name that is no string cannot be encoded.\<close>

definition daemon_call ::
  "('w pipe_ops \<Rightarrow> sbus_client \<Rightarrow> 'w \<Rightarrow> sbus_response res \<times> 'w) \<Rightarrow> 'w factory_ops \<Rightarrow> json \<Rightarrow> 'w fstate \<Rightarrow>
   sbus_response res \<times> 'w fstate" where
  "daemon_call cmd ops pipe_name s = (case pipe_name of
     JStr p \<Rightarrow> (case cmd (fo_pipe ops) (SBusClient p) (f_world s) of (r, w) \<Rightarrow> (r, s\<lparr>f_world := w\<rparr>))
   | _ \<Rightarrow> (Inl (AttributeError ''encode''), s))"

fun ping_tries :: "'w factory_ops \<Rightarrow> json \<Rightarrow> nat \<Rightarrow> 'w fstate \<Rightarrow> bool res \<times> 'w fstate" where
  "ping_tries ops pipe_name 0 s = (Inr False, s)"
| "ping_tries ops pipe_name (Suc n) s =
     (case daemon_call client_ping ops pipe_name s of
        (Inr resp, s') \<Rightarrow> if truthy (rs_status resp) then (Inr True, s') else ping_tries ops pipe_name n s'
      | (Inl e, s') \<Rightarrow>
          if e = SBusClientSendError then ping_tries ops pipe_name n s'
          else if is_SBusClientException e then (Inr False, s') else (Inl e, s'))"

definition wait_for_daemon_to_initialize :: "'w factory_ops \<Rightarrow> string \<Rightarrow> 'w fstate \<Rightarrow> bool res \<times> 'w fstate" where
  "wait_for_daemon_to_initialize ops name s =
     (case dict_get (storlet_name_to_pipe_name s) name of
        None \<Rightarrow> (Inl (KeyError name), s)
      | Some pipe_name \<Rightarrow> ping_tries ops pipe_name NUM_OF_TRIES_PINGING_STARTING_DAEMON s)"

text \<open>The end of \<open>spawn_subprocess\<close>: is the new process still there, and does it answer?\<close>

definition check_started :: "'w factory_ops \<Rightarrow> int \<Rightarrow> string \<Rightarrow> 'w fstate \<Rightarrow> unit res \<times> 'w fstate" where
  "check_started ops pid name s =
     (case get_process_status_by_pid ops pid name s of
        (Inl e, s1) \<Rightarrow>
          (Inl (if is_SDaemonError e then SDaemonError (''The storlet daemon '' @ name @ '' is terminated'') else e), s1)
      | (Inr st, s1) \<Rightarrow>
          if st then
            (case wait_for_daemon_to_initialize ops name
                    (s1\<lparr>storlet_name_to_pid := dict_set name pid (storlet_name_to_pid s1)\<rparr>) of
               (Inl e, s2) \<Rightarrow> (Inl e, s2)
             | (Inr ready, s2) \<Rightarrow>
                 (if ready then Inr () else Inl (SDaemonError (''No response from the storlet daemon '' @ name)), s2))
          else (Inl (SDaemonError (''The storlet daemon '' @ name @ '' is started but not responsive'')), s1))"

definition spawn_subprocess ::
  "'w factory_ops \<Rightarrow> json list \<Rightarrow> string dict \<Rightarrow> json \<Rightarrow> 'w fstate \<Rightarrow> unit res \<times> 'w fstate" where
  "spawn_subprocess ops pargs env storlet_name s =
     (if pargs = [] then (Inl (SDaemonError ''Invalid process arguments''), s)
      else if \<not> fo_executable ops (str_of_json (hd pargs)) (f_world s)
      then (Inl (SDaemonError ''Requested runtime is unavailable''), s)
      else (case rbind (mapM as_str pargs) (\<lambda>args. rbind (as_str storlet_name) (\<lambda>name. Inr (args, name))) of
          Inl e \<Rightarrow> (Inl e, s)
        | Inr (args, name) \<Rightarrow>
            (case fo_popen ops args (Some env) (f_world s) of
               (Inl _, w) \<Rightarrow> (Inl (SDaemonError (''Unable to start the storlet daemon '' @ name)), s\<lparr>f_world := w\<rparr>)
             | (Inr pid, w) \<Rightarrow>
                 (case fo_popen ops [''logger''] None w of
                    (Inl _, w') \<Rightarrow> (Inl (SDaemonError (''Unable to start the storlet daemon '' @ name)), s\<lparr>f_world := w'\<rparr>)
                  | (Inr _, w') \<Rightarrow> check_started ops pid name (s\<lparr>f_world := w'\<rparr>)))))"

definition lang_lower :: "json \<Rightarrow> string res" where
  "lang_lower l = (case l of JStr s \<Rightarrow> Inr (lower s) | _ \<Rightarrow> Inl (AttributeError ''lower''))"

definition daemon_args ::
  "'w factory_ops \<Rightarrow> 'w fstate \<Rightarrow> json \<Rightarrow> json \<Rightarrow> json \<Rightarrow> json \<Rightarrow> json \<Rightarrow> json \<Rightarrow> json \<Rightarrow>
   (json list \<times> string dict) res" where
  "daemon_args ops s language storlet_path storlet_name pool_size uds_path log_level version =
     rbind (lang_lower language) (\<lambda>l.
       if l = ''java'' then get_jvm_args (fo_environ ops) s storlet_path storlet_name pool_size uds_path log_level
       else if l = ''python'' then
         get_python_args (fo_environ ops) s storlet_name pool_size uds_path log_level version
       else Inl (SDaemonError (''Got unsupported daemon language: '' @ str_of_json language)))"

text \<open>\<open>d[name] = v\<close> on the table of pipes.\<close>

definition assign_pipe :: "json \<Rightarrow> json \<Rightarrow> 'w fstate \<Rightarrow> 'w fstate res" where
  "assign_pipe name uds_path s = (case name of
     JStr n \<Rightarrow> Inr (s\<lparr>storlet_name_to_pipe_name := dict_set n uds_path (storlet_name_to_pipe_name s)\<rparr>)
   | JList _ \<Rightarrow> Inl (TypeError ''unhashable type'')
   | JObj _ \<Rightarrow> Inl (TypeError ''unhashable type'')
   | _ \<Rightarrow> Inr s)"

definition process_start_daemon ::
  "'w factory_ops \<Rightarrow> json \<Rightarrow> json \<Rightarrow> json \<Rightarrow> json \<Rightarrow> json \<Rightarrow> json \<Rightarrow> json \<Rightarrow> 'w fstate \<Rightarrow> bool res \<times> 'w fstate" where
  "process_start_daemon ops language storlet_path storlet_name pool_size uds_path log_level version s =
     (case rbind (daemon_args ops s language storlet_path storlet_name pool_size uds_path log_level version)
             (\<lambda>(pargs, env). rbind (assign_pipe storlet_name uds_path s) (\<lambda>s1. Inr (pargs, env, s1))) of
        Inl e \<Rightarrow> (Inl e, s)
      | Inr (pargs, env, s1) \<Rightarrow>
          (case get_process_status_by_name ops storlet_name s1 of
             (Inl e, s2) \<Rightarrow> (Inl e, s2)
           | (Inr True, s2) \<Rightarrow> (Inr False, s2)
           | (Inr False, s2) \<Rightarrow>
               (case spawn_subprocess ops pargs env storlet_name s2 of
                  (Inl e, s3) \<Rightarrow> (Inl e, s3) | (Inr _, s3) \<Rightarrow> (Inr True, s3))))"

section \<open>Stopping daemons\<close>

definition process_kill :: "'w factory_ops \<Rightarrow> json \<Rightarrow> 'w fstate \<Rightarrow> (int \<times> int) res \<times> 'w fstate" where
  "process_kill ops storlet_name s =
     (let name = str_of_json storlet_name;
          failed = SDaemonError (''Failed to send kill signal to the storlet daemon '' @ name) in
      case pid_get (storlet_name_to_pid s) storlet_name of
        Inl e \<Rightarrow> (Inl e, s)
      | Inr None \<Rightarrow> (Inl (SDaemonError (''The storlet daemon '' @ name @ '' is not found'')), s)
      | Inr (Some pid) \<Rightarrow>
          (case os_kill (fo_os ops) pid (f_world s) of
             (Inl _, w) \<Rightarrow> (Inl failed, s\<lparr>f_world := w\<rparr>)
           | (Inr _, w) \<Rightarrow>
               (case os_waitpid_nohang (fo_os ops) pid w of
                  (Inl _, w') \<Rightarrow> (Inl failed, s\<lparr>f_world := w'\<rparr>)
                | (Inr pr, w') \<Rightarrow>
                    (Inr pr, s\<lparr>f_world := w', storlet_name_to_pid := dict_pop name (storlet_name_to_pid s)\<rparr>))))"

text \<open>The loop shared by \<open>process_kill_all\<close> and \<open>shutdown_all_processes\<close>: stop the daemons one by
  one, collecting the names of those that raise \<open>SDaemonError\<close> when \<open>try_all\<close> holds.\<close>

fun stop_each ::
  "(json \<Rightarrow> 'w fstate \<Rightarrow> 'a res \<times> 'w fstate) \<Rightarrow> bool \<Rightarrow> string list \<Rightarrow> 'w fstate \<Rightarrow> string list res \<times> 'w fstate" where
  "stop_each stop try_all [] s = (Inr [], s)"
| "stop_each stop try_all (name # names) s =
     (case stop (JStr name) s of
        (Inr _, s') \<Rightarrow> stop_each stop try_all names s'
      | (Inl e, s') \<Rightarrow>
          if is_SDaemonError e \<and> try_all then
            (case stop_each stop try_all names s' of (r, s'') \<Rightarrow> (rbind r (\<lambda>failed. Inr (name # failed)), s''))
          else (Inl e, s'))"

definition process_kill_all :: "'w factory_ops \<Rightarrow> bool \<Rightarrow> 'w fstate \<Rightarrow> unit res \<times> 'w fstate" where
  "process_kill_all ops try_all s =
     (case stop_each (process_kill ops) try_all (map fst (storlet_name_to_pid s)) s of
        (Inl e, s') \<Rightarrow> (Inl e, s')
      | (Inr failed, s') \<Rightarrow>
          (if failed \<noteq> [] then Inl (SDaemonError (''Failed to kill some storlet daemons: '' @ join_with '', '' failed))
           else Inr (), s'))"

definition shutdown_process :: "'w factory_ops \<Rightarrow> json \<Rightarrow> 'w fstate \<Rightarrow> unit res \<times> 'w fstate" where
  "shutdown_process ops storlet_name s =
     (let name = str_of_json storlet_name in
      case pid_get (storlet_name_to_pid s) storlet_name of
        Inl e \<Rightarrow> (Inl e, s)
      | Inr None \<Rightarrow> (Inl (SDaemonError (''PID of the storlet daemon '' @ name @ '' is not found'')), s)
      | Inr (Some pid) \<Rightarrow>
          (case dict_get (storlet_name_to_pipe_name s) name of
             None \<Rightarrow> (Inl (KeyError name), s)
           | Some pipe_name \<Rightarrow>
               (case daemon_call client_halt ops pipe_name s of
                  (Inl e, s1) \<Rightarrow>
                    (Inl (if is_SBusClientException e
                          then SDaemonError (''Failed to send halt command to the storlet daemon '' @ name) else e), s1)
                | (Inr resp, s1) \<Rightarrow>
                    if \<not> truthy (rs_status resp) then (Inl (SDaemonError (''Failed to send halt to '' @ name)), s1)
                    else (case os_waitpid (fo_os ops) pid (f_world s1) of
                        (Inl _, w) \<Rightarrow> (Inl (SDaemonError (''Failed to wait the storlet daemon '' @ name)), s1\<lparr>f_world := w\<rparr>)
                      | (Inr _, w) \<Rightarrow>
                          (Inr (), s1\<lparr>f_world := w, storlet_name_to_pid := dict_pop name (storlet_name_to_pid s1)\<rparr>)))))"

definition shutdown_all_processes :: "'w factory_ops \<Rightarrow> bool \<Rightarrow> 'w fstate \<Rightarrow> string list res \<times> 'w fstate" where
  "shutdown_all_processes ops try_all s =
     (let names = map fst (storlet_name_to_pid s) in
      case stop_each (shutdown_process ops) try_all names s of
        (Inl e, s') \<Rightarrow> (Inl e, s')
      | (Inr failed, s') \<Rightarrow>
          (if failed \<noteq> [] then Inl (SDaemonError (''Failed to shutdown some storlet daemons: '' @ join_with '', '' failed))
           else Inr names, s'))"

section \<open>Command handlers\<close>

text \<open>\<open>except SDaemonError as err: return CommandFailure(err.args[0], iterable)\<close>\<close>

definition sdaemon_failure :: "bool \<Rightarrow> cmd_resp res \<Rightarrow> cmd_resp res" where
  "sdaemon_failure it r = (case r of Inl (SDaemonError m) \<Rightarrow> Inr (CommandFailure m it None) | _ \<Rightarrow> r)"

definition start_daemon :: "'w factory_ops \<Rightarrow> 'w fstate handler" where
  "start_daemon ops dtg s =
     (case rbind (jgetitem (params dtg) ''storlet_name'') (\<lambda>name.
           rbind (jgetitem (params dtg) ''daemon_language'') (\<lambda>lang.
           rbind (jgetitem (params dtg) ''storlet_path'') (\<lambda>path.
           rbind (jgetitem (params dtg) ''pool_size'') (\<lambda>pool.
           rbind (jgetitem (params dtg) ''uds_path'') (\<lambda>uds.
           rbind (jgetitem (params dtg) ''log_level'') (\<lambda>level.
           rbind (jget (params dtg) ''daemon_language_version'') (\<lambda>version.
             Inr (name, lang, path, pool, uds, level, version)))))))) of
        Inl e \<Rightarrow> (Inl e, s)
      | Inr (name, lang, path, pool, uds, level, version) \<Rightarrow>
          (case process_start_daemon ops lang path name pool uds level version s of
             (r, s') \<Rightarrow> (sdaemon_failure True (rbind r (\<lambda>started.
                Inr (CommandSuccess (if started then ''OK''
                  else ''The storlet daemon '' @ str_of_json name @ '' is already running'') True None))), s')))"

definition stop_daemon :: "'w factory_ops \<Rightarrow> 'w fstate handler" where
  "stop_daemon ops dtg s =
     (case jgetitem (params dtg) ''storlet_name'' of
        Inl e \<Rightarrow> (Inl e, s)
      | Inr name \<Rightarrow>
          (case process_kill ops name s of
             (r, s') \<Rightarrow> (sdaemon_failure True (rbind r (\<lambda>_.
                Inr (CommandSuccess (''The storlet daemon '' @ str_of_json name @ '' is stopped'') True None))), s')))"

definition daemon_status :: "'w factory_ops \<Rightarrow> 'w fstate handler" where
  "daemon_status ops dtg s =
     (case jgetitem (params dtg) ''storlet_name'' of
        Inl e \<Rightarrow> (Inl e, s)
      | Inr name \<Rightarrow>
          (case get_process_status_by_name ops name s of
             (r, s') \<Rightarrow> (sdaemon_failure True (rbind r (\<lambda>running.
                Inr (if running
                  then CommandSuccess (''The storlet daemon '' @ str_of_json name @ '' seems to be OK'') True None
                  else CommandFailure (''No running storlet daemons for '' @ str_of_json name) True None))), s')))"

definition stop_daemons :: "'w factory_ops \<Rightarrow> 'w fstate handler" where
  "stop_daemons ops dtg s =
     (case process_kill_all ops True s of
        (r, s') \<Rightarrow> (sdaemon_failure False (rbind r (\<lambda>_. Inr (CommandSuccess ''OK'' False None))), s'))"

definition factory_halt :: "'w factory_ops \<Rightarrow> 'w fstate handler" where
  "factory_halt ops dtg s =
     (case shutdown_all_processes ops True s of
        (r, s') \<Rightarrow> (sdaemon_failure False (rbind r (\<lambda>_.
           Inr (CommandSuccess ''Stopped all storlet daemons. Terminating.'' False None))), s'))"

definition factory_handlers :: "'w factory_ops \<Rightarrow> (string \<times> 'w fstate handler) list" where
  "factory_handlers ops = [(''ping'', ping), (''start_daemon'', start_daemon ops), (''stop_daemon'', stop_daemon ops),
     (''daemon_status'', daemon_status ops), (''stop_daemons'', stop_daemons ops), (''halt'', factory_halt ops)]"

definition factory_terminate :: "'w factory_ops \<Rightarrow> 'w fstate \<Rightarrow> unit res \<times> 'w fstate" where
  "factory_terminate ops s = (case shutdown_all_processes ops True s of (r, s') \<Rightarrow> (rbind r (\<lambda>_. Inr ()), s'))"

definition factory_force_terminate :: "'w factory_ops \<Rightarrow> 'w fstate \<Rightarrow> unit res \<times> 'w fstate" where
  "factory_force_terminate ops = process_kill_all ops True"

definition factory_main_loop ::
  "'w factory_ops \<Rightarrow> int \<Rightarrow> loop_env list \<Rightarrow> 'w fstate \<Rightarrow> (int res \<times> 'w fstate) option" where
  "factory_main_loop ops = main_loop (factory_handlers ops) (factory_terminate ops)"
section \<open>Stopping all daemons\<close>

text \<open>What stopping one daemon does to the pid table: on success the name leaves it, on an
  error nothing changes. Stopping all leaves exactly the names that failed.\<close>

locale stopper =
  fixes stop :: "json \<Rightarrow> 'w fstate \<Rightarrow> 'a res \<times> 'w fstate"
  assumes stop_ok: "stop (JStr n) s = (Inr x, s') \<Longrightarrow> storlet_name_to_pid s' = dict_pop n (storlet_name_to_pid s)"
    and stop_err: "stop (JStr n) s = (Inl e, s') \<Longrightarrow> storlet_name_to_pid s' = storlet_name_to_pid s"
begin

lemma stop_each_exc:
  "stop_each stop True names s = (Inl e, s') \<Longrightarrow> \<not> is_SDaemonError e"
  by (induction names arbitrary: s) (auto simp: rbind_def split: prod.splits sum.splits if_splits)

lemma stop_each_spec:
  assumes "stop_each stop True names s = (Inr failed, s')" "distinct names"
  shows "failed = filter (\<lambda>n. n \<in> set failed) names \<and>
    storlet_name_to_pid s' = filter (\<lambda>x. fst x \<in> set names \<longrightarrow> fst x \<in> set failed) (storlet_name_to_pid s)"
  using assms
proof (induction names arbitrary: s failed)
  case (Cons n names)
  obtain r s1 where st: "stop (JStr n) s = (r, s1)" by (cases "stop (JStr n) s")
  let ?keep = "\<lambda>ns fs x. fst x \<in> set ns \<longrightarrow> fst x \<in> set fs"
  show ?case
  proof (cases r)
    case (Inl e)
    then obtain fs where fs: "stop_each stop True names s1 = (Inr fs, s')" "failed = n # fs"
      using Cons.prems(1) st by (auto simp: rbind_Inr_iff split: if_splits prod.splits)
    note ih = Cons.IH [OF fs(1)]
    have "filter (?keep names fs) (storlet_name_to_pid s) = filter (?keep (n # names) failed) (storlet_name_to_pid s)"
      using Cons.prems(2) fs(2) by (intro filter_cong) auto
    moreover have "filter (\<lambda>m. m \<in> set failed) names = filter (\<lambda>m. m \<in> set fs) names"
      using Cons.prems(2) fs(2) by (intro filter_cong) auto
    ultimately show ?thesis using ih Cons.prems(2) stop_err [OF st [unfolded Inl]] fs(2) by auto
  next
    case (Inr x)
    then have fs: "stop_each stop True names s1 = (Inr failed, s')" using Cons.prems(1) st by simp
    note ih = Cons.IH [OF fs]
    have "set failed \<subseteq> set names" using ih Cons.prems(2) by (metis distinct.simps(2) filter_is_subset)
    then have nf: "n \<notin> set failed" using Cons.prems(2) by auto
    have "storlet_name_to_pid s1 = filter (\<lambda>x. fst x \<noteq> n) (storlet_name_to_pid s)"
      using stop_ok [OF st [unfolded Inr]] by (simp add: dict_pop_filter)
    then have "storlet_name_to_pid s' = filter (?keep (n # names) failed) (storlet_name_to_pid s)"
      using ih Cons.prems(2) nf by (auto intro: filter_cong)
    then show ?thesis using ih Cons.prems(2) nf by auto
  qed
qed auto

lemma stop_each_all:
  assumes "stop_each stop True (map fst (storlet_name_to_pid s)) s = (Inr failed, s')" "dict_ok (storlet_name_to_pid s)"
  shows "map fst (storlet_name_to_pid s') = failed"
proof -
  have "failed = filter (\<lambda>n. n \<in> set failed) (map fst (storlet_name_to_pid s)) \<and>
      storlet_name_to_pid s' = filter (\<lambda>x. fst x \<in> set failed) (storlet_name_to_pid s)"
    using stop_each_spec [OF assms(1)] assms(2) by (auto simp: dict_ok_def intro!: filter_cong)
  then show ?thesis by (simp add: filter_map comp_def)
qed

end



interpretation kill: stopper "process_kill ops" for ops
  by unfold_locales (auto simp: process_kill_def Let_def split: option.splits prod.splits sum.splits)

interpretation shut: stopper "shutdown_process ops" for ops
  by unfold_locales (auto simp: shutdown_process_def daemon_call_def Let_def
      split: option.splits prod.splits sum.splits if_splits json.splits)

lemma process_kill_SDaemonError: "process_kill ops (JStr n) s = (Inl e, s') \<Longrightarrow> is_SDaemonError e"
  by (auto simp: process_kill_def Let_def is_SDaemonError_def split: option.splits prod.splits sum.splits)

lemma stop_each_kill: "\<exists>failed s'. stop_each (process_kill ops) True names s = (Inr failed, s')"
proof (induction names arbitrary: s)
  case (Cons n names)
  obtain r s1 where st: "process_kill ops (JStr n) s = (r, s1)" by (cases "process_kill ops (JStr n) s")
  obtain failed s' where "stop_each (process_kill ops) True names s1 = (Inr failed, s')" using Cons by blast
  then show ?case using st process_kill_SDaemonError by (cases r) fastforce+
qed simp

text \<open>The names that a kill of all daemons reports are exactly the ones still in the table.\<close>

lemma process_kill_all_spec:
  assumes "dict_ok (storlet_name_to_pid s)"
  shows "\<exists>s'. process_kill_all ops True s =
    ((let left = map fst (storlet_name_to_pid s') in if left = [] then Inr ()
      else Inl (SDaemonError (''Failed to kill some storlet daemons: '' @ join_with '', '' left))), s')"
proof -
  obtain failed s' where st: "stop_each (process_kill ops) True (map fst (storlet_name_to_pid s)) s = (Inr failed, s')"
    using stop_each_kill by blast
  have "map fst (storlet_name_to_pid s') = failed" by (rule kill.stop_each_all [OF st assms])
  then show ?thesis using st by (auto simp: process_kill_all_def Let_def)
qed

lemma shutdown_all_spec:
  assumes "dict_ok (storlet_name_to_pid s)" "shutdown_all_processes ops True s = (r, s')"
  shows "(case r of Inr names \<Rightarrow> names = map fst (storlet_name_to_pid s) \<and> storlet_name_to_pid s' = []
    | Inl e \<Rightarrow> is_SDaemonError e \<longrightarrow> storlet_name_to_pid s' \<noteq> [] \<and>
        e = SDaemonError (''Failed to shutdown some storlet daemons: '' @
              join_with '', '' (map fst (storlet_name_to_pid s'))))"
proof -
  let ?names = "map fst (storlet_name_to_pid s)"
  obtain x s1 where st: "stop_each (shutdown_process ops) True ?names s = (x, s1)"
    by (cases "stop_each (shutdown_process ops) True ?names s")
  show ?thesis
  proof (cases x)
    case (Inl e)
    then show ?thesis using st assms(2) shut.stop_each_exc [OF st [unfolded Inl]]
      by (auto simp: shutdown_all_processes_def Let_def)
  next
    case (Inr failed)
    have "map fst (storlet_name_to_pid s1) = failed" by (rule shut.stop_each_all [OF st [unfolded Inr] assms(1)])
    then show ?thesis using st assms(2) Inr by (auto simp: shutdown_all_processes_def Let_def)
  qed
qed

section \<open>The state of the factory\<close>

text \<open>Every daemon in the pid table has a pipe, and there is one entry per storlet.\<close>

definition factory_inv :: "('w \<Rightarrow> bool) \<Rightarrow> 'w fstate \<Rightarrow> bool" where
  "factory_inv ok s \<longleftrightarrow> ok (f_world s) \<and> dict_ok (storlet_name_to_pid s) \<and> dict_ok (storlet_name_to_pipe_name s) \<and>
     (\<forall>n. dict_has (storlet_name_to_pid s) n \<longrightarrow> dict_has (storlet_name_to_pipe_name s) n)"

text \<open>An operation keeps an invariant and raises nothing but exceptions.\<close>

definition keeps :: "('s \<Rightarrow> bool) \<Rightarrow> 'a res \<times> 's \<Rightarrow> bool" where
  "keeps I x \<longleftrightarrow> I (snd x) \<and> (\<forall>e. fst x = Inl e \<longrightarrow> is_Exception e)"

lemma keeps_simps [simp]:
  "keeps I (Inr v, s) \<longleftrightarrow> I s" "keeps I (Inl e, s) \<longleftrightarrow> I s \<and> is_Exception e"
  by (auto simp: keeps_def)

lemma keeps_Inr: "keeps I x \<Longrightarrow> x = (Inr v, s) \<Longrightarrow> I s" by simp
lemma keeps_Inl: "keeps I x \<Longrightarrow> x = (Inl e, s) \<Longrightarrow> I s \<and> is_Exception e" by simp

lemma is_Exception_simps [simp]:
  "is_Exception (SDaemonError m)" "is_Exception (KeyError m)" "is_Exception (TypeError m)"
  "is_Exception (AttributeError m)" "is_Exception (OSErrno n)" "is_Exception (ValueError m)"
  by (simp_all add: is_Exception_def)

lemma as_str_exc [simp]: "as_str j = Inl e \<Longrightarrow> is_Exception e" by (cases j) auto

lemma mapM_exc: "mapM f xs = Inl e \<Longrightarrow> (\<And>x e. f x = Inl e \<Longrightarrow> is_Exception e) \<Longrightarrow> is_Exception e"
  by (auto dest!: mapM_Inl)

lemma jgetitem_exc: "jgetitem j k = Inl e \<Longrightarrow> is_Exception e"
  by (cases j) (auto split: option.splits)

lemma jget_exc: "jget j k = Inl e \<Longrightarrow> is_Exception e" by (cases j) auto

lemma pid_get_exc: "pid_get d j = Inl e \<Longrightarrow> is_Exception e" by (cases j) auto

lemma factory_inv_world: "factory_inv ok s \<Longrightarrow> ok w \<Longrightarrow> factory_inv ok (s\<lparr>f_world := w\<rparr>)"
  by (simp add: factory_inv_def)

lemma factory_inv_pop:
  "factory_inv ok s \<Longrightarrow> ok w \<Longrightarrow>
    factory_inv ok (s\<lparr>f_world := w, storlet_name_to_pid := dict_pop n (storlet_name_to_pid s)\<rparr>)"
  by (auto simp: factory_inv_def dict_has_iff split: if_splits)

lemma factory_inv_pid:
  "factory_inv ok s \<Longrightarrow> dict_has (storlet_name_to_pipe_name s) n \<Longrightarrow>
    factory_inv ok (s\<lparr>storlet_name_to_pid := dict_set n pid (storlet_name_to_pid s)\<rparr>)"
  by (auto simp: factory_inv_def dict_has_iff split: if_splits)

lemma assign_pipe_inv: "factory_inv ok s \<Longrightarrow> assign_pipe n u s = Inr s' \<Longrightarrow> factory_inv ok s'"
  by (auto simp: assign_pipe_def factory_inv_def dict_has_iff split: json.splits if_splits)

lemma assign_pipe_has: "assign_pipe (JStr n) u s = Inr s' \<Longrightarrow> dict_get (storlet_name_to_pipe_name s') n = Some u"
  by (auto simp: assign_pipe_def)

lemma daemon_args_exc: "daemon_args ops s l sp n ps u ll v = Inl e \<Longrightarrow> is_Exception e"
  by (auto simp: daemon_args_def lang_lower_def get_jvm_args_def get_python_args_def Let_def rbind_def
      split: json.splits sum.splits if_splits)

lemma status_tables:
  "get_process_status_by_pid ops pid n s = (r, s') \<Longrightarrow>
    storlet_name_to_pid s' = storlet_name_to_pid s \<and> storlet_name_to_pipe_name s' = storlet_name_to_pipe_name s"
  by (auto simp: get_process_status_by_pid_def split: prod.splits sum.splits)

lemma status_by_name_tables:
  "get_process_status_by_name ops n s = (r, s') \<Longrightarrow>
    storlet_name_to_pid s' = storlet_name_to_pid s \<and> storlet_name_to_pipe_name s' = storlet_name_to_pipe_name s"
  by (auto simp: get_process_status_by_name_def dest: status_tables split: sum.splits option.splits)

text \<open>The calls the factory relies on: processes, the client's pipe, and \<open>Popen\<close>.\<close>

locale factory_os =
  p: process_os "fo_os ops" children ok + c: pipe_os "fo_pipe ops" open_fds rest ok
  for ops :: "'w factory_ops" and children open_fds rest ok +
  assumes popen: "ok w \<Longrightarrow> fo_popen ops a e w = (x, w') \<Longrightarrow> ok w'"
begin

lemma status_keeps:
  assumes "factory_inv ok s"
  shows "keeps (factory_inv ok) (get_process_status_by_pid ops pid n s)"
proof -
  obtain r w where r: "os_waitpid_nohang (fo_os ops) pid (f_world s) = (r, w)"
    by (cases "os_waitpid_nohang (fo_os ops) pid (f_world s)")
  have "ok w" using p.nohang [OF _ r] assms by (simp add: factory_inv_def)
  then have "factory_inv ok (s\<lparr>f_world := w\<rparr>)" by (rule factory_inv_world [OF assms])
  then show ?thesis using r by (cases r) (auto simp: get_process_status_by_pid_def)
qed

lemma status_by_name_keeps:
  "factory_inv ok s \<Longrightarrow> keeps (factory_inv ok) (get_process_status_by_name ops n s)"
  by (auto simp: get_process_status_by_name_def dest: pid_get_exc status_keeps split: sum.splits option.splits)

lemma daemon_call_keeps:
  assumes "factory_inv ok s" and cmd: "cmd = client_ping \<or> cmd = client_halt"
  shows "keeps (factory_inv ok) (daemon_call cmd ops pipe_name s)"
proof (cases "\<exists>pn. pipe_name = JStr pn")
  case True
  then obtain pn where pn: "pipe_name = JStr pn" by blast
  have w: "ok (f_world s)" using assms(1) by (simp add: factory_inv_def)
  have "\<exists>x w'. cmd (fo_pipe ops) (SBusClient pn) (f_world s) = (x, w') \<and> ok w' \<and> (\<forall>e. x = Inl e \<longrightarrow> is_Exception e)"
    using cmd c.request_spec [OF w, of 16 pn]
    by (fastforce simp: client_ping_def client_halt_def client_request_def SBusClient_def)
  then show ?thesis using pn factory_inv_world [OF assms(1)] by (auto simp: daemon_call_def keeps_def)
next
  case False
  then show ?thesis using assms(1) by (cases pipe_name) (auto simp: daemon_call_def)
qed

lemma ping_tries_keeps: "factory_inv ok s \<Longrightarrow> keeps (factory_inv ok) (ping_tries ops pn n s)"
proof (induction n arbitrary: s)
  case (Suc n)
  obtain r s' where r: "daemon_call client_ping ops pn s = (r, s')" by (cases "daemon_call client_ping ops pn s")
  have "keeps (factory_inv ok) (r, s')" using daemon_call_keeps [OF Suc.prems, of client_ping pn] r by simp
  then show ?case using r Suc.IH [of s'] by (cases r) auto
qed simp

lemma wait_init_keeps: "factory_inv ok s \<Longrightarrow> keeps (factory_inv ok) (wait_for_daemon_to_initialize ops n s)"
  by (auto simp: wait_for_daemon_to_initialize_def ping_tries_keeps split: option.splits)

lemma check_started_keeps:
  assumes "factory_inv ok s" "dict_has (storlet_name_to_pipe_name s) n"
  shows "keeps (factory_inv ok) (check_started ops pid n s)"
proof -
  obtain r s1 where r: "get_process_status_by_pid ops pid n s = (r, s1)" by (cases "get_process_status_by_pid ops pid n s")
  have k: "keeps (factory_inv ok) (r, s1)" using status_keeps [OF assms(1), of pid n] r by simp
  show ?thesis
  proof (cases "r = Inr True")
    case True
    then have "factory_inv ok (s1\<lparr>storlet_name_to_pid := dict_set n pid (storlet_name_to_pid s1)\<rparr>)"
      using k assms(2) status_tables [OF r] by (intro factory_inv_pid) auto
    from wait_init_keeps [OF this, of n] show ?thesis
      using True r by (auto simp: check_started_def keeps_def split: sum.splits prod.splits)
  next
    case False
    then show ?thesis using r k by (cases r) (auto simp: check_started_def)
  qed
qed

lemma spawn_keeps:
  assumes "factory_inv ok s" "\<And>n. name = JStr n \<Longrightarrow> dict_has (storlet_name_to_pipe_name s) n"
  shows "keeps (factory_inv ok) (spawn_subprocess ops pargs env name s)"
proof (cases "rbind (mapM as_str pargs) (\<lambda>args. rbind (as_str name) (\<lambda>name. Inr (args, name)))")
  case (Inl e)
  then have "is_Exception e" by (auto simp: rbind_def split: sum.splits dest: mapM_exc)
  then show ?thesis using Inl assms(1) by (auto simp: spawn_subprocess_def)
next
  case (Inr an)
  then obtain args n where an: "an = (args, n)" and n: "name = JStr n"
    by (cases name) (auto simp: rbind_Inr_iff)
  obtain x w where x: "fo_popen ops args (Some env) (f_world s) = (x, w)" by (cases "fo_popen ops args (Some env) (f_world s)")
  obtain y w' where y: "fo_popen ops [''logger''] None w = (y, w')" by (cases "fo_popen ops [''logger''] None w")
  have "ok (f_world s)" using assms(1) by (simp add: factory_inv_def)
  then have okw: "ok w" using popen x by blast
  then have "ok w'" using popen y by blast
  with okw have iw: "factory_inv ok (s\<lparr>f_world := w\<rparr>)" "factory_inv ok (s\<lparr>f_world := w'\<rparr>)"
    by (auto intro: factory_inv_world [OF assms(1)])
  have "keeps (factory_inv ok) (check_started ops pid n (s\<lparr>f_world := w'\<rparr>))" for pid
    using check_started_keeps [OF iw(2)] assms(2) [OF n] by simp
  then show ?thesis using Inr an x y iw assms(1)
    by (cases x; cases y) (auto simp: spawn_subprocess_def)
qed

lemma process_start_keeps:
  assumes "factory_inv ok s"
  shows "keeps (factory_inv ok) (process_start_daemon ops l sp name ps u ll v s)"
proof (cases "rbind (daemon_args ops s l sp name ps u ll v)
             (\<lambda>(pargs, env). rbind (assign_pipe name u s) (\<lambda>s1. Inr (pargs, env, s1)))")
  case (Inl e)
  have "is_Exception x" if "assign_pipe name u s = Inl x" for x
    using that by (auto simp: assign_pipe_def split: json.splits)
  then have "is_Exception e" using Inl
    by (auto simp: rbind_def split: sum.splits prod.splits dest: daemon_args_exc)
  then show ?thesis using Inl assms by (simp add: process_start_daemon_def)
next
  case (Inr x)
  then obtain pargs env s1 where x: "x = (pargs, env, s1)" and a: "assign_pipe name u s = Inr s1"
    by (cases x) (auto simp: rbind_Inr_iff split: prod.splits)
  obtain r s2 where r: "get_process_status_by_name ops name s1 = (r, s2)"
    by (cases "get_process_status_by_name ops name s1")
  have k: "keeps (factory_inv ok) (r, s2)"
    using status_by_name_keeps [OF assign_pipe_inv [OF assms a], of name] r by simp
  have "keeps (factory_inv ok) (spawn_subprocess ops pargs env name s2)" if "r = Inr False"
    using k that a status_by_name_tables [OF r]
    by (intro spawn_keeps) (auto simp: dict_has_iff dest: assign_pipe_has)
  then show ?thesis using Inr x r k unfolding process_start_daemon_def
    by (cases r) (auto simp: keeps_def split: bool.splits prod.splits sum.splits)
qed

lemma process_kill_keeps:
  assumes "factory_inv ok s"
  shows "keeps (factory_inv ok) (process_kill ops name s)"
proof (cases "pid_get (storlet_name_to_pid s) name")
  case (Inl e)
  then show ?thesis using assms pid_get_exc by (auto simp: process_kill_def Let_def)
next
  case (Inr x)
  show ?thesis
  proof (cases x)
    case (Some pid)
    obtain k w where k: "os_kill (fo_os ops) pid (f_world s) = (k, w)" by (cases "os_kill (fo_os ops) pid (f_world s)")
    obtain r w' where r: "os_waitpid_nohang (fo_os ops) pid w = (r, w')" by (cases "os_waitpid_nohang (fo_os ops) pid w")
    have "ok (f_world s)" using assms by (simp add: factory_inv_def)
    then have okw: "ok w" using p.kill [OF _ k] by simp
    then have "ok w'" using p.nohang [OF _ r] by simp
    then show ?thesis using Inr Some k r okw factory_inv_world [OF assms] factory_inv_pop [OF assms]
      by (cases k; cases r) (auto simp: process_kill_def Let_def)
  qed (use Inr assms in \<open>simp add: process_kill_def Let_def\<close>)
qed

lemma shutdown_keeps:
  assumes "factory_inv ok s"
  shows "keeps (factory_inv ok) (shutdown_process ops (JStr n) s)"
proof (cases "dict_get (storlet_name_to_pid s) n")
  case (Some pid)
  then obtain pn where pn: "dict_get (storlet_name_to_pipe_name s) n = Some pn"
    using assms by (force simp: factory_inv_def dict_has_iff)
  obtain r s1 where r: "daemon_call client_halt ops pn s = (r, s1)" by (cases "daemon_call client_halt ops pn s")
  have k: "keeps (factory_inv ok) (r, s1)" using daemon_call_keeps [OF assms, of client_halt pn] r by simp
  obtain v w where v: "os_waitpid (fo_os ops) pid (f_world s1) = (v, w)" by (cases "os_waitpid (fo_os ops) pid (f_world s1)")
  have "ok w" if "factory_inv ok s1" using p.waitpid [OF _ v] that by (simp add: factory_inv_def)
  then show ?thesis using Some pn r v k factory_inv_world factory_inv_pop
    by (cases r; cases v) (auto simp: shutdown_process_def Let_def)
qed (use assms in \<open>simp add: shutdown_process_def Let_def\<close>)

lemma stop_each_keeps:
  assumes "\<And>n s. factory_inv ok s \<Longrightarrow> keeps (factory_inv ok) (stop (JStr n) s)"
  shows "factory_inv ok s \<Longrightarrow> keeps (factory_inv ok) (stop_each stop b names s)"
proof (induction names arbitrary: s)
  case (Cons n names)
  obtain r s1 where r: "stop (JStr n) s = (r, s1)" by (cases "stop (JStr n) s")
  have k: "keeps (factory_inv ok) (r, s1)" using assms [OF Cons.prems, of n] r by simp
  then have "keeps (factory_inv ok) (stop_each stop b names s1)" using Cons.IH by (cases r) auto
  then show ?case using r k
    by (cases r) (auto simp: keeps_def rbind_def split: prod.splits sum.splits)
qed simp

lemma kill_all_keeps:
  assumes "factory_inv ok s"
  shows "keeps (factory_inv ok) (process_kill_all ops b s)"
proof -
  obtain r s' where r: "stop_each (process_kill ops) b (map fst (storlet_name_to_pid s)) s = (r, s')"
    by (cases "stop_each (process_kill ops) b (map fst (storlet_name_to_pid s)) s")
  have "keeps (factory_inv ok) (r, s')"
    unfolding r [symmetric] by (rule stop_each_keeps [OF _ assms]) (rule process_kill_keeps)
  then show ?thesis using r by (cases r) (auto simp: process_kill_all_def)
qed

lemma shutdown_all_keeps:
  assumes "factory_inv ok s"
  shows "keeps (factory_inv ok) (shutdown_all_processes ops b s)"
proof -
  obtain r s' where r: "stop_each (shutdown_process ops) b (map fst (storlet_name_to_pid s)) s = (r, s')"
    by (cases "stop_each (shutdown_process ops) b (map fst (storlet_name_to_pid s)) s")
  have "keeps (factory_inv ok) (r, s')"
    unfolding r [symmetric] by (rule stop_each_keeps [OF _ assms]) (rule shutdown_keeps)
  then show ?thesis using r by (cases r) (auto simp: shutdown_all_processes_def Let_def)
qed

lemma sdaemon_failure_keeps:
  "keeps I x \<Longrightarrow> keeps I (case x of (r, s') \<Rightarrow> (sdaemon_failure b (rbind r (\<lambda>v. Inr (f v))), s'))"
  by (cases x; cases "fst x") (auto simp: sdaemon_failure_def split: py_exc.splits)

lemma handler_keeps:
  assumes "(n, h) \<in> set (factory_handlers ops)" "factory_inv ok s"
  shows "keeps (factory_inv ok) (h dtg s)"
proof -
  have "keeps (factory_inv ok) (start_daemon ops dtg s)"
  proof -
    have *: "keeps (factory_inv ok) (case q of Inl e \<Rightarrow> (Inl e, s) | Inr x \<Rightarrow> g x)"
      if "\<And>e. q = Inl e \<Longrightarrow> is_Exception e" "\<And>x. keeps (factory_inv ok) (g x)" for q :: "'q res" and g
      using that assms(2) by (cases q) auto
    show ?thesis unfolding start_daemon_def
    proof (rule *)
      fix x show "keeps (factory_inv ok) (case x of (name, lang, path, pool, uds, level, version) \<Rightarrow>
          (case process_start_daemon ops lang path name pool uds level version s of
             (r, s') \<Rightarrow> (sdaemon_failure True (rbind r (\<lambda>started.
                Inr (CommandSuccess (if started then ''OK''
                  else ''The storlet daemon '' @ str_of_json name @ '' is already running'') True None))), s')))"
        by (cases x rule: prod_cases7)
          (simp only: prod.case, rule sdaemon_failure_keeps, rule process_start_keeps [OF assms(2)])
    qed (auto simp: rbind_def split: sum.splits dest: jgetitem_exc jget_exc)
  qed
  moreover have "keeps (factory_inv ok) (stop_daemon ops dtg s)" "keeps (factory_inv ok) (daemon_status ops dtg s)"
    unfolding stop_daemon_def daemon_status_def
    by (cases "jgetitem (params dtg) ''storlet_name''";
        simp add: assms(2) jgetitem_exc sdaemon_failure_keeps process_kill_keeps status_by_name_keeps)+
  moreover have "keeps (factory_inv ok) (stop_daemons ops dtg s)" "keeps (factory_inv ok) (factory_halt ops dtg s)"
    unfolding stop_daemons_def factory_halt_def
    by (intro sdaemon_failure_keeps kill_all_keeps shutdown_all_keeps assms(2))+
  ultimately show ?thesis using assms by (auto simp: factory_handlers_def ping_def)
qed

end

text \<open>The factory is an SBus server too.\<close>

sublocale factory_os \<subseteq> f: sbus_server "factory_handlers ops" "factory_inv ok"
proof
  fix n h s dtg r s' assume h: "(n, h) \<in> set (factory_handlers ops)" "factory_inv ok s"
  note k = handler_keeps [OF h, of dtg]
  show "factory_inv ok s'" if "h dtg s = (r, s')" using k that by (simp add: keeps_def)
  show "is_Exception e" if "h dtg s = (Inl e, s')" for e using k that by simp
qed

section \<open>A container\<close>

text \<open>A container's world: the process table of the factory and the daemon that answers on the
  pipe, a server with handlers \<open>hs\<close>. Both halves satisfy their interface, and so does the whole.\<close>

definition on_fst :: "('a \<Rightarrow> 'r \<times> 'a) \<Rightarrow> 'a \<times> 'b \<Rightarrow> 'r \<times> 'a \<times> 'b" where
  "on_fst f w = (case f (fst w) of (r, a) \<Rightarrow> (r, a, snd w))"

definition on_snd :: "('b \<Rightarrow> 'r \<times> 'b) \<Rightarrow> 'a \<times> 'b \<Rightarrow> 'r \<times> 'a \<times> 'b" where
  "on_snd f w = (case f (snd w) of (r, b) \<Rightarrow> (r, fst w, b))"

definition fst_os :: "'a os_ops \<Rightarrow> ('a \<times> 'b) os_ops" where
  "fst_os o1 = \<lparr>os_waitpid_nohang = \<lambda>p. on_fst (os_waitpid_nohang o1 p), os_waitpid = \<lambda>p. on_fst (os_waitpid o1 p),
     os_wait = on_fst (os_wait o1), os_kill = \<lambda>p. on_fst (os_kill o1 p), os_killpg = \<lambda>w. (os_killpg o1 (fst w), snd w),
     os_fork = on_fst (os_fork o1), os_close = \<lambda>fd. on_fst (os_close o1 fd), os_uuid4 = on_fst (os_uuid4 o1)\<rparr>"

definition snd_pipe :: "'b pipe_ops \<Rightarrow> ('a \<times> 'b) pipe_ops" where
  "snd_pipe o2 = \<lparr>os_pipe = on_snd (os_pipe o2), sbus_send_msg = \<lambda>n a. on_snd (sbus_send_msg o2 n a),
     os_read = \<lambda>fd k. on_snd (os_read o2 fd k), pipe_close = \<lambda>fd. on_snd (pipe_close o2 fd)\<rparr>"

definition container_ops :: "(string \<times> 's handler) list \<Rightarrow> (world \<times> 's served) factory_ops" where
  "container_ops hs = \<lparr>fo_os = fst_os table_ops, fo_pipe = snd_pipe (served_ops hs),
     fo_executable = (\<lambda>_ _. True), fo_popen = (\<lambda>_ _. on_fst table_fork), fo_environ = []\<rparr>"

lemma on_fst_eq: "on_fst f w = (r, w') \<longleftrightarrow> f (fst w) = (r, fst w') \<and> snd w' = snd w"
  by (cases w') (auto simp: on_fst_def split: prod.splits)

lemma on_snd_eq: "on_snd f w = (r, w') \<longleftrightarrow> f (snd w) = (r, snd w') \<and> fst w' = fst w"
  by (cases w') (auto simp: on_snd_def split: prod.splits)

lemma fst_process_os:
  assumes "process_os o1 ch ok"
  shows "process_os (fst_os o1) (\<lambda>w. ch (fst w)) (\<lambda>w. ok (fst w) \<and> Q (snd w))"
proof (unfold_locales, goal_cases)
  case (2 w p r w')
  then show ?case using process_os.nohang [OF assms, of "fst w" p r "fst w'"]
    by (auto simp: fst_os_def on_fst_eq split: if_splits)
next
  case (3 w p r w')
  then show ?case using process_os.waitpid [OF assms, of "fst w" p r "fst w'"]
    by (auto simp: fst_os_def on_fst_eq split: if_splits)
next
  case (4 w r w')
  then show ?case using process_os.wait [OF assms, of "fst w" r "fst w'"]
    by (auto simp: fst_os_def on_fst_eq split: if_splits)
next
  case (5 w p r w')
  then show ?case using process_os.kill [OF assms, of "fst w" p r "fst w'"] by (simp add: fst_os_def on_fst_eq)
next
  case (6 w r w')
  then show ?case using process_os.fork [OF assms, of "fst w" r "fst w'"] by (simp add: fst_os_def on_fst_eq)
next
  case (7 w fd r w')
  then show ?case using process_os.close [OF assms, of "fst w" fd r "fst w'"] by (simp add: fst_os_def on_fst_eq)
next
  case (8 w u w')
  then show ?case using process_os.uuid4 [OF assms, of "fst w" u "fst w'"] by (simp add: fst_os_def on_fst_eq)
qed (use process_os.finite_children [OF assms] process_os.children_pos [OF assms] in auto)

lemma snd_pipe_os:
  assumes "pipe_os o2 ofds rest ok"
  shows "pipe_os (snd_pipe o2) (\<lambda>w. ofds (snd w)) (\<lambda>fd w. rest fd (snd w)) (\<lambda>w. P (fst w) \<and> ok (snd w))"
proof (unfold_locales, goal_cases)
  case (1 w p w')
  then show ?case using pipe_os.pipe [OF assms, of "snd w" p "snd w'"] by (simp add: snd_pipe_def on_snd_eq)
next
  case (2 w name a rc w')
  then show ?case using pipe_os.send [OF assms, of "snd w" name a rc "snd w'"] by (simp add: snd_pipe_def on_snd_eq)
next
  case (3 w fd n b w')
  then show ?case using pipe_os.read [OF assms, of "snd w" fd n b "snd w'"] by (simp add: snd_pipe_def on_snd_eq)
next
  case (4 w fd c w')
  then show ?case using pipe_os.close [OF assms, of "snd w" fd c "snd w'"] by (simp add: snd_pipe_def on_snd_eq)
qed

interpretation container: factory_os "container_ops hs" "\<lambda>w. world_children (fst w)" "\<lambda>w. set (sv_open (snd w))"
  "\<lambda>fd w. sv_reply (snd w)" "\<lambda>w. world_ok (fst w) \<and> sv_ok (snd w)" for hs
proof (intro factory_os.intro factory_os_axioms.intro)
  show "process_os (fo_os (container_ops hs)) (\<lambda>w. world_children (fst w)) (\<lambda>w. world_ok (fst w) \<and> sv_ok (snd w))"
    using fst_process_os [OF table.process_os_axioms] by (simp add: container_ops_def)
  show "pipe_os (fo_pipe (container_ops hs)) (\<lambda>w. set (sv_open (snd w))) (\<lambda>fd w. sv_reply (snd w))
      (\<lambda>w. world_ok (fst w) \<and> sv_ok (snd w))"
    using snd_pipe_os [OF srv.pipe_os_axioms] by (simp add: container_ops_def)
  show "world_ok (fst w') \<and> sv_ok (snd w')"
    if "world_ok (fst w) \<and> sv_ok (snd w)" "fo_popen (container_ops hs) a e w = (x, w')" for w a e x w'
    using that fork_children(3) [of "fst w"] by (cases "table_fork (fst w)") (auto simp: container_ops_def on_fst_eq)
qed

lemma send_snd:
  "send_command (snd_pipe o2) path wfd cmd ps tid extra w = on_snd (send_command o2 path wfd cmd ps tid extra) w"
  by (auto simp: send_command_def SBus_send_def on_snd_def snd_pipe_def split: sum.splits prod.splits)

definition ping_sent :: "int \<Rightarrow> datagram" where
  "ping_sent wfd = \<lparr>dclass = SBusServiceDatagram, command = JStr ''SBUS_CMD_PING'',
     sfds = [SBusFileDescriptor SBUS_FD_SERVICE_OUT wfd [] JNull], params = JNull, task_id = JNull\<rparr>"

lemma ping_sent:
  "build_datagram (JStr ''SBUS_CMD_PING'') [SBusFileDescriptor SBUS_FD_SERVICE_OUT wfd [] JNull] JNull JNull
     = Inr (ping_sent wfd)"
  "dtg_ok (ping_sent wfd)"
  by (simp_all add: ping_sent_def build_datagram_def service_datagram_def datagram_init_Inr SBusFileDescriptor_def
      dtg_ok_def sfd_ok_def opt_ok_def fd_consts dict_ok_def)

lemma ping_wire: "wire_size (ping_sent wfd) \<le> MAX_MSG_LENGTH"
proof -
  have "wire_size (ping_sent 0) \<le> MAX_MSG_LENGTH" by code_simp
  moreover have "wire_size (ping_sent wfd) = wire_size (ping_sent 0)"
    by (simp add: wire_size_def serialized_metadata_def serialized_cmd_params_def metadata_def cmd_params_def
        ping_sent_def sfd_metadata_def SBusFileDescriptor_def)
  ultimately show ?thesis by simp
qed

lemma handle_ping:
  assumes "map_of hs ''ping'' = Some ping" "command dtg = JStr ''SBUS_CMD_PING''"
  shows "handle_command hs dtg s = (Inr (CommandSuccess ''OK'' True None), s)"
proof -
  have "''SBUS_CMD_PING'' \<in> set sbus_cmd_attrs" by code_simp
  moreover have "lower (drop (length SBUS_CMD_PREFIX) ''SBUS_CMD_PING'') = ''ping''" by code_simp
  ultimately show ?thesis using assms by (simp add: handle_command_def get_handler_def ping_def)
qed

text \<open>A ping from the factory to a server that offers it: over the client, the frame and the dispatcher.\<close>

lemma container_ping:
  fixes s :: "(world \<times> 's served) fstate"
  assumes srv: "sbus_server hs I" "map_of hs ''ping'' = Some ping"
    and st: "I (sv_state (snd (f_world s)))" and ok: "world_ok (fst (f_world s)) \<and> sv_ok (snd (f_world s))"
  shows "\<exists>s'. daemon_call client_ping (container_ops hs) (JStr p) s =
    (Inr (response_of (CommandSuccess ''OK'' True None)), s')"
proof -
  let ?v = "snd (f_world s)" and ?ops = "snd_pipe (served_ops hs) :: (world \<times> 's served) pipe_ops"
  let ?wfd = "sv_next ?v + 1"
  define w1 where "w1 = (fst (f_world s), snd (sv_pipe ?v))"
  have pipe: "os_pipe ?ops (f_world s) = (Inr (sv_next ?v, ?wfd), w1)"
    by (simp add: snd_pipe_def on_snd_def served_ops_def sv_pipe_def w1_def)
  have "I (sv_state (snd w1))" using st by (simp add: w1_def sv_pipe_def)
  from send_served [OF srv(1) this ping_sent(1) refl ping_sent(2) ping_wire, where path = p and wfd = ?wfd] handle_ping [OF srv(2)]
  have "send_command (served_ops hs) p ?wfd (JStr ''SBUS_CMD_PING'') JNull JNull [] (snd w1)
      = (Inr (), (snd w1)\<lparr>sv_reply := report_message (CommandSuccess ''OK'' True None)\<rparr>)"
    by (auto simp: ping_sent_def)
  then have snt: "send_command ?ops p ?wfd (JStr ''SBUS_CMD_PING'') JNull JNull [] w1 = (Inr (),
      (fst w1, (snd w1)\<lparr>sv_reply := report_message (CommandSuccess ''OK'' True None)\<rparr>))"
    by (simp add: send_snd on_snd_def)
  have nr: "\<And>k v e v'. os_read ?ops (sv_next ?v) k v \<noteq> (Inl e, v')"
    by (auto simp: snd_pipe_def on_snd_def served_ops_def sv_read_def)
  have dec: "utf8_decode (report_message r) = Inr (report_message r)" for r
    unfolding report_message_def by (rule js.utf8_dec_enc) simp
  have po: "pipe_os ?ops (\<lambda>w. set (sv_open (snd w))) (\<lambda>fd w. sv_reply (snd w)) (\<lambda>w. world_ok (fst w) \<and> sv_ok (snd w))"
    by (rule snd_pipe_os [OF srv.pipe_os_axioms])
  from pipe_os.request_reply [OF po ok _ pipe snt nr, of 16] dec parse_report show ?thesis
    by (auto simp: daemon_call_def client_ping_def client_request_def SBusClient_def container_ops_def)
qed

lemma container_ready:
  fixes s :: "(world \<times> 's served) fstate"
  assumes "sbus_server hs I" "map_of hs ''ping'' = Some ping" "I (sv_state (snd (f_world s)))"
    "world_ok (fst (f_world s)) \<and> sv_ok (snd (f_world s))" "dict_get (storlet_name_to_pipe_name s) n = Some (JStr p)"
  shows "\<exists>s'. wait_for_daemon_to_initialize (container_ops hs) n s = (Inr True, s')"
  using container_ping [OF assms(1-4), of p] assms(5)
  by (auto simp: wait_for_daemon_to_initialize_def NUM_OF_TRIES_PINGING_STARTING_DAEMON_def eval_nat_numeral
      response_of_def resp_defs)

section \<open>What starting a daemon records\<close>

lemma ping_tries_tables:
  "ping_tries ops pn n s = (r, s') \<Longrightarrow> storlet_name_to_pid s' = storlet_name_to_pid s \<and>
     storlet_name_to_pipe_name s' = storlet_name_to_pipe_name s"
proof (induction n arbitrary: s)
  case (Suc n)
  have "storlet_name_to_pid s1 = storlet_name_to_pid s \<and> storlet_name_to_pipe_name s1 = storlet_name_to_pipe_name s"
    if "daemon_call client_ping ops pn s = (x, s1)" for x s1
    using that by (auto simp: daemon_call_def split: json.splits prod.splits)
  then show ?case using Suc by (fastforce split: prod.splits sum.splits if_splits)
qed simp

lemma check_started_tables:
  assumes "check_started ops pid n s = (Inr (), s')"
  shows "storlet_name_to_pid s' = dict_set n pid (storlet_name_to_pid s) \<and>
    storlet_name_to_pipe_name s' = storlet_name_to_pipe_name s"
  using assms
  by (auto simp: check_started_def wait_for_daemon_to_initialize_def dest!: status_tables ping_tries_tables
      split: prod.splits sum.splits if_splits option.splits)

lemma spawn_tables:
  assumes "spawn_subprocess ops pargs env (JStr n) s = (Inr (), s')"
  shows "(\<exists>pid. storlet_name_to_pid s' = dict_set n pid (storlet_name_to_pid s)) \<and>
    storlet_name_to_pipe_name s' = storlet_name_to_pipe_name s"
  using assms
  by (auto simp: spawn_subprocess_def rbind_Inr_iff dest!: check_started_tables
      split: prod.splits sum.splits if_splits)

text \<open>A daemon reported as started has its pid and its pipe in the tables; the others are as before.\<close>

lemma process_start_tables:
  assumes "process_start_daemon ops l sp (JStr n) ps u ll v s = (Inr True, s')"
  shows "\<exists>pid. storlet_name_to_pid s' = dict_set n pid (storlet_name_to_pid s) \<and>
    storlet_name_to_pipe_name s' = dict_set n u (storlet_name_to_pipe_name s)"
  using assms
  by (auto simp: process_start_daemon_def assign_pipe_def rbind_Inr_iff dest!: status_by_name_tables spawn_tables
      split: prod.splits sum.splits bool.splits)

section \<open>Properties\<close>

context factory_os
begin

lemmas factory_server = f.sbus_server_axioms

text \<open>A daemon that the status check found dead is no child any more.\<close>

lemma status_false_gone:
  assumes "factory_inv ok s" "get_process_status_by_pid ops pid n s = (Inr False, s')"
  shows "pid \<notin> children (f_world s')"
proof -
  obtain r w where r: "os_waitpid_nohang (fo_os ops) pid (f_world s) = (r, w)"
    by (cases "os_waitpid_nohang (fo_os ops) pid (f_world s)")
  have "ok (f_world s)" using assms(1) by (simp add: factory_inv_def)
  note n = p.nohang [OF this r]
  have s': "s' = s\<lparr>f_world := w\<rparr>" "r \<noteq> Inr (0, 0)"
    using assms(2) r by (cases r; force simp: get_process_status_by_pid_def)+
  with n show ?thesis by (cases "pid \<in> children (f_world s)") auto
qed

lemma kill_gone_fails:
  assumes "factory_inv ok s" "dict_get (storlet_name_to_pid s) n = Some pid" "pid \<notin> children (f_world s)"
  shows "\<exists>w. process_kill ops (JStr n) s =
    (Inl (SDaemonError (''Failed to send kill signal to the storlet daemon '' @ n)), s\<lparr>f_world := w\<rparr>)"
proof -
  obtain k w where k: "os_kill (fo_os ops) pid (f_world s) = (k, w)" by (cases "os_kill (fo_os ops) pid (f_world s)")
  obtain r w' where r: "os_waitpid_nohang (fo_os ops) pid w = (r, w')" by (cases "os_waitpid_nohang (fo_os ops) pid w")
  have "ok (f_world s)" using assms(1) by (simp add: factory_inv_def)
  note kk = p.kill [OF this k]
  then have "r = Inl ECHILD" using p.nohang [OF _ r] assms(3) by auto
  then show ?thesis using assms(2) k r by (cases k) (auto simp: process_kill_def Let_def)
qed

end

text \<open>C21: The factory answers every well-formed datagram, whatever its command and parameters, and keeps its tables
  consistent: one entry per storlet, and a pipe for every daemon.\<close>

theorem factory_answers:
  assumes "factory_os ops children open_fds rest ok" "factory_inv ok s" "dtg_wf dtg"
  shows "\<exists>r s'. dispatch_command (factory_handlers ops) True dtg s = (Inr (iterable r, report_message r), s') \<and>
    factory_inv ok s'"
  using sbus_server.dispatch_alive [OF factory_os.factory_server [OF assms(1)] assms(2,3)] by blast

definition sample_factory :: "(world \<times> nat served) fstate" where
  "sample_factory = \<lparr>container_id = ''cid'', storlet_name_to_pipe_name = [(''s'', JStr ''/pipe'')],
     storlet_name_to_pid = [(''s'', 7)], f_world = (sample_world, sample_served)\<rparr>"

lemma sample_factory_inv: "factory_inv (\<lambda>w. world_ok (fst w) \<and> sv_ok (snd w)) sample_factory"
  by (simp add: factory_inv_def sample_factory_def sample_served_ok sample_world_def world_ok_def world_children_def
      dict_ok_def dict_has_def)

theorem factory_answers_witness:
  "\<exists>r s'. dispatch_command (factory_handlers (container_ops [(''ping'', ping)])) True ping_datagram sample_factory
     = (Inr (iterable r, report_message r), s')"
  using factory_answers [OF container.factory_os_axioms sample_factory_inv ping_datagram_wf] by blast

text \<open>\<open>process_kill_all\<close> tries every daemon and its outcome is exact: it succeeds when no daemon is left in the
  pid table, and otherwise raises an error that lists precisely the ones still in it, in order.\<close>

theorem kill_all_reports_left:
  assumes "dict_ok (storlet_name_to_pid s)"
  shows "\<exists>s'. process_kill_all ops True s =
    ((let left = map fst (storlet_name_to_pid s') in if left = [] then Inr ()
      else Inl (SDaemonError (''Failed to kill some storlet daemons: '' @ join_with '', '' left))), s')"
  by (rule process_kill_all_spec [OF assms])

theorem kill_all_reports_left_witness:
  "\<exists>s'. process_kill_all (container_ops [(''ping'', ping)]) True sample_factory =
    ((let left = map fst (storlet_name_to_pid s') in if left = [] then Inr ()
      else Inl (SDaemonError (''Failed to kill some storlet daemons: '' @ join_with '', '' left))), s')"
  by (rule kill_all_reports_left) (simp add: sample_factory_def dict_ok_def)

text \<open>\<open>shutdown_all_processes\<close> returns the names of all daemons only when every one has been halted and waited
  for; when it reports a failure the error lists exactly the daemons still in the pid table.\<close>

theorem shutdown_all_reports_left:
  assumes "dict_ok (storlet_name_to_pid s)" "shutdown_all_processes ops True s = (r, s')"
  shows "(case r of Inr names \<Rightarrow> names = map fst (storlet_name_to_pid s) \<and> storlet_name_to_pid s' = []
    | Inl e \<Rightarrow> is_SDaemonError e \<longrightarrow> storlet_name_to_pid s' \<noteq> [] \<and>
        e = SDaemonError (''Failed to shutdown some storlet daemons: '' @
              join_with '', '' (map fst (storlet_name_to_pid s'))))"
  by (rule shutdown_all_spec [OF assms])

theorem shutdown_all_reports_left_witness:
  "case shutdown_all_processes (container_ops [(''ping'', ping)]) True sample_factory of (r, s') \<Rightarrow>
     (case r of Inr names \<Rightarrow> storlet_name_to_pid s' = [] | Inl e \<Rightarrow> is_SDaemonError e \<longrightarrow> storlet_name_to_pid s' \<noteq> [])"
  using shutdown_all_reports_left [of sample_factory "container_ops [(''ping'', ping)]"]
  by (fastforce simp: sample_factory_def dict_ok_def split: prod.splits sum.splits)

text \<open>A start request that reports a new daemon has entered its pid and its pipe under the storlet's name and
  touched no other entry.\<close>

theorem start_records_daemon:
  assumes "process_start_daemon ops l sp (JStr n) ps u ll v s = (Inr True, s')"
  shows "\<exists>pid. storlet_name_to_pid s' = dict_set n pid (storlet_name_to_pid s) \<and>
    storlet_name_to_pipe_name s' = dict_set n u (storlet_name_to_pipe_name s)"
  by (rule process_start_tables [OF assms])

definition start_sample where
  "start_sample = process_start_daemon (container_ops [(''ping'', ping)]) (JStr ''Python'') (JStr ''/s'') (JStr ''new'')
     (JInt 3) (JStr ''/uds'') (JStr ''DEBUG'') JNull sample_factory"

lemma start_sample_ok: "fst start_sample = Inr True"
proof -
  let ?s = "sample_factory\<lparr>storlet_name_to_pipe_name := [(''s'', JStr ''/pipe''), (''new'', JStr ''/uds'')],
      storlet_name_to_pid := [(''s'', 7), (''new'', 8)],
      f_world := (sample_world\<lparr>w_running := [7, 8, 9], w_next_pid := 10\<rparr>, sample_served)\<rparr>"
  have "world_ok (fst (f_world ?s)) \<and> sv_ok (snd (f_world ?s))"
    by (auto simp: sample_served_ok world_ok_def world_children_def sample_world_def)
  then obtain s' where s': "wait_for_daemon_to_initialize (container_ops [(''ping'', ping)]) ''new'' ?s = (Inr True, s')"
    using container_ready [OF ping_server, of ?s "''new''" "''/uds''"]
    by (auto simp: sample_served_def dict_get_def)
  have low: "lower ''Python'' = ''python''" by code_simp
  show ?thesis using s'
    by (simp add: start_sample_def process_start_daemon_def daemon_args_def lang_lower_def low get_python_args_def
        assign_pipe_def get_process_status_by_name_def spawn_subprocess_def check_started_def
        get_process_status_by_pid_def container_ops_def fst_os_def on_fst_def table_ops_def table_fork_def
        table_nohang_def sample_factory_def sample_world_def dict_get_def dict_set_def)
qed

theorem start_records_daemon_witness:
  "\<exists>pid. storlet_name_to_pid (snd start_sample) = [(''s'', 7), (''new'', pid)]"
proof -
  have "start_sample = (Inr True, snd start_sample)" using start_sample_ok by (metis prod.collapse)
  from start_records_daemon [OF this [unfolded start_sample_def]] show ?thesis
    by (auto simp: start_sample_def sample_factory_def dict_set_def)
qed

text \<open>A daemon that died cannot be stopped once its status has been asked: the check reaps the process but leaves
  the entry in the pid table, so every later kill of that storlet's daemon fails with an error and leaves the
  entry in place.\<close>

theorem dead_daemon_cannot_be_stopped:
  assumes "factory_os ops children open_fds rest ok" "factory_inv ok s"
    "dict_get (storlet_name_to_pid s) n = Some pid"
    "get_process_status_by_name ops (JStr n) s = (Inr False, s1)"
  shows "\<exists>s2. process_kill ops (JStr n) s1 =
      (Inl (SDaemonError (''Failed to send kill signal to the storlet daemon '' @ n)), s2) \<and>
    storlet_name_to_pid s2 = storlet_name_to_pid s"
proof -
  have st: "get_process_status_by_pid ops pid n s = (Inr False, s1)"
    using assms(3,4) by (simp add: get_process_status_by_name_def)
  have "keeps (factory_inv ok) (Inr False :: bool res, s1)"
    unfolding st [symmetric] by (rule factory_os.status_keeps [OF assms(1,2)])
  then have "factory_inv ok s1" by simp
  moreover have "dict_get (storlet_name_to_pid s1) n = Some pid" using status_tables [OF st] assms(3) by simp
  ultimately show ?thesis
    using factory_os.kill_gone_fails [OF assms(1)] factory_os.status_false_gone [OF assms(1,2) st] status_tables [OF st]
    by fastforce
qed

definition dead_factory :: "(world \<times> nat served) fstate" where
  "dead_factory = sample_factory\<lparr>f_world := (sample_world\<lparr>w_running := [], w_zombies := [(7, 9)]\<rparr>, sample_served)\<rparr>"

definition polled_factory where
  "polled_factory = get_process_status_by_name (container_ops [(''ping'', ping)]) (JStr ''s'') dead_factory"

theorem dead_daemon_cannot_be_stopped_witness:
  "\<exists>s2. process_kill (container_ops [(''ping'', ping)]) (JStr ''s'') (snd polled_factory) =
     (Inl (SDaemonError ''Failed to send kill signal to the storlet daemon s''), s2) \<and> storlet_name_to_pid s2 = [(''s'', 7)]"
proof -
  have p: "polled_factory = (Inr False, snd polled_factory)"
  proof -
    have "fst polled_factory = Inr False" by code_simp
    then show ?thesis by (metis prod.collapse)
  qed
  have "factory_inv (\<lambda>w. world_ok (fst w) \<and> sv_ok (snd w)) dead_factory"
    using sample_served_ok
    by (simp add: dead_factory_def factory_inv_def sample_factory_def sample_world_def world_ok_def world_children_def
        dict_ok_def dict_has_def)
  from dead_daemon_cannot_be_stopped [OF container.factory_os_axioms this _ p [unfolded polled_factory_def], of 7]
  show ?thesis by (simp add: dead_factory_def sample_factory_def dict_get_def polled_factory_def)
qed

end
