(* ===== verification/Stob.thy ===== *)
theory Stob
  imports Files
begin

text \<open>
  The objects that carry request and response data between the middleware and a gateway
  (\<open>storlets/gateway/common/stob.py\<close>): the iterator over a file descriptor with a timeout,
  and the data and request classes.

  The descriptor is modelled by the bytes its peer will still write and by the answers of
  the kernel to the next calls: whether \<open>select\<close> finds the descriptor ready, and if so how
  many bytes \<open>os.read\<close> returns, whether it times out or fails. When the list of answers is
  used up, reads return as much as they may.
\<close>

section \<open>FileDescriptorIterator\<close>

datatype fd_event = NotReady | Ready nat | ReadTimeout | ReadError errno

text \<open>\<open>fi_cancel\<close>: the outcome of the cancel function, if there is one; \<open>fi_cancelled\<close> counts
  its calls.\<close>

record fditer =
  fi_closed :: bool
  fi_fd :: int
  fi_buf :: string
  fi_src :: string
  fi_env :: "fd_event list"
  fi_cancel :: "unit res option"
  fi_cancelled :: nat

definition FileDescriptorIterator :: "int \<Rightarrow> string \<Rightarrow> fd_event list \<Rightarrow> unit res option \<Rightarrow> fditer" where
  "FileDescriptorIterator fd src env cancel = \<lparr>fi_closed = False, fi_fd = fd, fi_buf = [], fi_src = src,
     fi_env = env, fi_cancel = cancel, fi_cancelled = 0\<rparr>"

definition fdi_close :: "fditer \<Rightarrow> fditer" where
  "fdi_close f = (if fi_closed f then f else f\<lparr>fi_closed := True\<rparr>)"

definition next_event :: "fditer \<Rightarrow> fd_event \<times> fditer" where
  "next_event f = (case fi_env f of [] \<Rightarrow> (Ready (length (fi_src f)), f) | e # es \<Rightarrow> (e, f\<lparr>fi_env := es\<rparr>))"

text \<open>\<open>os.read\<close> that finds \<open>k\<close> bytes in the pipe: at least one unless the end is reached.\<close>

definition os_read_some :: "nat \<Rightarrow> nat \<Rightarrow> fditer \<Rightarrow> string \<times> fditer" where
  "os_read_some k sz f = (let n = min (max 1 k) sz in (take n (fi_src f), f\<lparr>fi_src := drop n (fi_src f)\<rparr>))"

definition read_with_timeout :: "fd_event \<Rightarrow> nat \<Rightarrow> fditer \<Rightarrow> string res \<times> fditer" where
  "read_with_timeout e sz f = (case e of
     Ready k \<Rightarrow> (case os_read_some k sz f of (d, f') \<Rightarrow> (Inr d, f'))
   | ReadTimeout \<Rightarrow>
       (case fi_cancel f of
          None \<Rightarrow> (Inl StorletTimeout, fdi_close f)
        | Some (Inr _) \<Rightarrow> (Inl StorletTimeout, fdi_close (f\<lparr>fi_cancelled := Suc (fi_cancelled f)\<rparr>))
        | Some (Inl x) \<Rightarrow> (Inl x, f\<lparr>fi_cancelled := Suc (fi_cancelled f)\<rparr>))
   | ReadError n \<Rightarrow> (Inl (OSErrno n), fdi_close f)
   | NotReady \<Rightarrow> (Inl StopIteration, f))"

text \<open>Cutting the result off the buffer.\<close>

definition fdi_take :: "nat \<Rightarrow> fditer \<Rightarrow> string res \<times> fditer" where
  "fdi_take sz f = (if length (fi_buf f) > sz then (Inr (take sz (fi_buf f)), f\<lparr>fi_buf := drop sz (fi_buf f)\<rparr>)
     else (Inr (fi_buf f), f\<lparr>fi_buf := []\<rparr>))"

text \<open>\<open>next\<close>. \<open>select\<close> on a closed descriptor fails.\<close>

definition fdi_next :: "nat \<Rightarrow> fditer \<Rightarrow> string res \<times> fditer" where
  "fdi_next sz f =
     (if length (fi_buf f) < sz then
        if fi_closed f then (Inl (OSErrno EBADF), f)
        else (case next_event f of (e, f1) \<Rightarrow>
          (case e of
             NotReady \<Rightarrow> (Inl StopIteration, fdi_close f1)
           | _ \<Rightarrow>
              (case read_with_timeout e (sz - length (fi_buf f1)) f1 of
                 (Inl x, f2) \<Rightarrow> (Inl x, f2)
               | (Inr d, f2) \<Rightarrow>
                   (let f3 = f2\<lparr>fi_buf := fi_buf f2 @ d\<rparr> in
                    if fi_buf f3 = [] then (Inl StopIteration, f3) else fdi_take sz f3))))
      else fdi_take sz f)"

definition CHUNK :: nat where "CHUNK = 65536"

definition fdi_read :: "nat \<Rightarrow> fditer \<Rightarrow> string res \<times> fditer" where
  "fdi_read sz f = (if fi_closed f then (Inl (ValueError ''I/O operation on closed file''), f) else fdi_next sz f)"

text \<open>The loop of \<open>readline\<close>; a negative size is \<open>None\<close> here. \<open>None\<close> as result: it never ends.\<close>

partial_function (option) fdi_fill :: "nat option \<Rightarrow> fditer \<Rightarrow> (unit res \<times> fditer) option" where
  "fdi_fill sz f =
     (if nl \<notin> set (fi_buf f) \<and> (case sz of None \<Rightarrow> True | Some n \<Rightarrow> length (fi_buf f) < n) then
        (case fdi_read (case sz of None \<Rightarrow> CHUNK | Some n \<Rightarrow> n - length (fi_buf f)) f of
           (Inl e, f') \<Rightarrow> Some (Inl e, f')
         | (Inr chunk, f') \<Rightarrow>
             if chunk = [] then Some (Inr (), f') else fdi_fill sz (f'\<lparr>fi_buf := fi_buf f' @ chunk\<rparr>))
      else Some (Inr (), f))"

definition fdi_readline :: "nat option \<Rightarrow> fditer \<Rightarrow> (string res \<times> fditer) option" where
  "fdi_readline sz f =
     (if fi_closed f then Some (Inl (ValueError ''I/O operation on closed file''), f)
      else (case fdi_fill sz f of
          None \<Rightarrow> None
        | Some (Inl e, f') \<Rightarrow> Some (Inl e, f')
        | Some (Inr _, f') \<Rightarrow>
            (case partition_on nl (fi_buf f') of (a, sep, r) \<Rightarrow>
               (let data = a @ sep in
                case sz of
                  Some n \<Rightarrow> if length data > n
                    then Some (Inr (take n data), f'\<lparr>fi_buf := drop n data @ r\<rparr>)
                    else Some (Inr data, f'\<lparr>fi_buf := r\<rparr>)
                | None \<Rightarrow> Some (Inr data, f'\<lparr>fi_buf := r\<rparr>)))))"

text \<open>The loop of \<open>readlines\<close>; the hint is an integer as it is counted down.\<close>

partial_function (option) fdi_lines :: "int \<Rightarrow> string list \<Rightarrow> fditer \<Rightarrow> (string list res \<times> fditer) option" where
  "fdi_lines hint ls f =
     (case fdi_readline (if hint < 0 then None else Some (nat hint)) f of
        None \<Rightarrow> None
      | Some (Inl e, f') \<Rightarrow> if e = StopIteration then Some (Inr ls, f') else Some (Inl e, f')
      | Some (Inr line, f') \<Rightarrow>
          if line = [] then Some (Inr ls, f')
          else if hint \<ge> 0 then
            (let hint' = hint - int (length line) in
             if hint' \<le> 0 then Some (Inr (ls @ [line]), f') else fdi_lines hint' (ls @ [line]) f')
          else fdi_lines hint (ls @ [line]) f')"

definition fdi_readlines :: "int \<Rightarrow> fditer \<Rightarrow> (string list res \<times> fditer) option" where
  "fdi_readlines hint f = (if fi_closed f then Some (Inl (ValueError ''I/O operation on closed file''), f)
     else fdi_lines hint [] f)"

section \<open>Data and requests\<close>

text \<open>\<open>StorletData\<close>: an iterator of chunks or a descriptor, with the user metadata.\<close>

record storlet_data =
  user_metadata :: json
  data_fd :: "int option"
  sd_data_iter :: "string list option"
  sd_timeout :: int
  sd_cancel :: bool

definition StorletData :: "json \<Rightarrow> string list option \<Rightarrow> int option \<Rightarrow> int \<Rightarrow> bool \<Rightarrow> storlet_data res" where
  "StorletData md it fd timeout cancel =
     (if it = None \<and> fd = None then Inl (ValueError ''Either of data_iter or data_fd should not be None'')
      else if cancel \<and> it \<noteq> None then Inl (ValueError ''cancel func can only be specified with data_fd'')
      else Inr \<lparr>user_metadata = md, data_fd = fd, sd_data_iter = it, sd_timeout = timeout, sd_cancel = cancel\<rparr>)"

text \<open>What iterating the data gives: the chunks, or those read from the descriptor.\<close>

datatype data_source = Chunks "string list" | FromFd int

definition data_iter :: "storlet_data \<Rightarrow> data_source res" where
  "data_iter d = (case sd_data_iter d of Some cs \<Rightarrow> Inr (Chunks cs)
     | None \<Rightarrow> (case data_fd d of Some fd \<Rightarrow> Inr (FromFd fd) | None \<Rightarrow> Inl (TypeError ''an integer is required'')))"

definition has_fd :: "storlet_data \<Rightarrow> bool" where "has_fd d = (data_fd d \<noteq> None)"

record storlet_request =
  storlet_id :: string
  sr_params :: "json dict"
  sr_data :: storlet_data
  sr_options :: "json dict"
  extra_data_list :: "storlet_data list"

text \<open>\<open>options\<close> may be \<open>None\<close>; a subclass that requires options then fails on \<open>None.get\<close>.\<close>

fun check_required :: "string list \<Rightarrow> json dict option \<Rightarrow> unit res" where
  "check_required [] opts = Inr ()"
| "check_required (k # ks) opts = (case opts of
     None \<Rightarrow> Inl (AttributeError ''get'')
   | Some d \<Rightarrow> (case dict_get d k of
        None \<Rightarrow> Inl (ValueError (''Required option '' @ k @ '' is missing''))
      | Some v \<Rightarrow> if v = JNull then Inl (ValueError (''Required option '' @ k @ '' is missing''))
                  else check_required ks opts))"

definition StorletRequest ::
  "string list \<Rightarrow> string \<Rightarrow> json dict \<Rightarrow> storlet_data \<Rightarrow> json dict option \<Rightarrow> storlet_data list option \<Rightarrow> storlet_request res" where
  "StorletRequest required sid ps data opts extra =
     rbind (check_required required opts) (\<lambda>_.
       Inr \<lparr>storlet_id = sid, sr_params = ps, sr_data = data,
            sr_options = (case opts of None \<Rightarrow> [] | Some d \<Rightarrow> d),
            extra_data_list = (case extra of None \<Rightarrow> [] | Some l \<Rightarrow> l)\<rparr>)"

section \<open>Sources of chunks\<close>

text \<open>
  What a consumer of an iterator relies on (\<open>for chunk in it\<close>): each step gives a non-empty
  piece of what is left, and the iteration stops when nothing is. \<open>drain\<close> is such a loop, with
  one unit of fuel per step.
\<close>

fun drain :: "('f \<Rightarrow> string res \<times> 'f) \<Rightarrow> nat \<Rightarrow> 'f \<Rightarrow> (string list res \<times> 'f) option" where
  "drain nxt 0 f = None"
| "drain nxt (Suc k) f = (case nxt f of
     (Inl e, f') \<Rightarrow> if e = StopIteration then Some (Inr [], f') else Some (Inl e, f')
   | (Inr c, f') \<Rightarrow> (case drain nxt k f' of
        None \<Rightarrow> None
      | Some (Inl e, f'') \<Rightarrow> Some (Inl e, f'')
      | Some (Inr cs, f'') \<Rightarrow> Some (Inr (c # cs), f'')))"

locale chunk_source =
  fixes nxt :: "'f \<Rightarrow> string res \<times> 'f" and rest :: "'f \<Rightarrow> string" and ok :: "'f \<Rightarrow> bool"
  assumes next_end: "ok f \<Longrightarrow> rest f = [] \<Longrightarrow> \<exists>f'. nxt f = (Inl StopIteration, f')"
    and next_some: "ok f \<Longrightarrow> rest f \<noteq> [] \<Longrightarrow> \<exists>c f'. nxt f = (Inr c, f') \<and> ok f' \<and> c \<noteq> [] \<and> rest f = c @ rest f'"
begin

lemma drain_all:
  assumes "ok f" "length (rest f) < k"
  shows "\<exists>cs f'. drain nxt k f = Some (Inr cs, f') \<and> concat cs = rest f \<and> [] \<notin> set cs"
  using assms
proof (induction k arbitrary: f)
  case (Suc k)
  show ?case
  proof (cases "rest f = []")
    case True
    then show ?thesis using next_end [OF Suc.prems(1)] by fastforce
  next
    case False
    then obtain c f' where c: "nxt f = (Inr c, f')" "ok f'" "c \<noteq> []" "rest f = c @ rest f'"
      using next_some [OF Suc.prems(1)] by blast
    have "length (rest f') < length (rest f)" using c(3,4) by (cases c) auto
    then have "length (rest f') < k" using Suc.prems(2) by simp
    from Suc.IH [OF c(2) this] c show ?thesis by fastforce
  qed
qed simp

end

text \<open>The iterator over a descriptor while the descriptor is ready and does not fail, and the
  storlet's own input file.\<close>

definition fdi_rest :: "fditer \<Rightarrow> string" where "fdi_rest f = fi_buf f @ fi_src f"

definition fdi_ok :: "fditer \<Rightarrow> bool" where
  "fdi_ok f \<longleftrightarrow> \<not> fi_closed f \<and> list_all (\<lambda>e. case e of Ready _ \<Rightarrow> True | _ \<Rightarrow> False) (fi_env f)"

lemma next_event_ok:
  assumes "fdi_ok f"
  shows "\<exists>k f1. next_event f = (Ready k, f1) \<and> fdi_ok f1 \<and> fi_buf f1 = fi_buf f \<and> fi_src f1 = fi_src f"
  using assms by (cases "fi_env f") (auto simp: next_event_def fdi_ok_def split: fd_event.splits)

lemma fdi_next_spec:
  assumes "fdi_ok f" "0 < sz"
  shows "if fdi_rest f = [] then \<exists>f'. fdi_next sz f = (Inl StopIteration, f')
    else \<exists>c f'. fdi_next sz f = (Inr c, f') \<and> fdi_ok f' \<and> c \<noteq> [] \<and> length c \<le> sz \<and> fdi_rest f = c @ fdi_rest f'"
proof (cases "length (fi_buf f) < sz")
  case True
  obtain k f1 where f1: "next_event f = (Ready k, f1)" "fdi_ok f1" "fi_buf f1 = fi_buf f" "fi_src f1 = fi_src f"
    using next_event_ok [OF assms(1)] by blast
  define n where "n = min (max 1 k) (sz - length (fi_buf f))"
  have n: "0 < n" "length (fi_buf f) + n \<le> sz" using True by (auto simp: n_def)
  let ?f3 = "f1\<lparr>fi_src := drop n (fi_src f), fi_buf := fi_buf f @ take n (fi_src f)\<rparr>"
  have rd: "read_with_timeout (Ready k) (sz - length (fi_buf f)) f1
      = (Inr (take n (fi_src f)), f1\<lparr>fi_src := drop n (fi_src f)\<rparr>)"
    by (simp only: read_with_timeout_def fd_event.case os_read_some_def f1(4) n_def [symmetric] Let_def prod.case)
  have nx: "fdi_next sz f = (if fi_buf ?f3 = [] then (Inl StopIteration, ?f3) else fdi_take sz ?f3)"
    using True assms(1) f1 by (auto simp: fdi_next_def fdi_ok_def rd Let_def)
  have tk: "fdi_take sz ?f3 = (Inr (fi_buf ?f3), ?f3\<lparr>fi_buf := []\<rparr>)" using n by (auto simp: fdi_take_def)
  have "fi_buf ?f3 = [] \<longleftrightarrow> fdi_rest f = []" using n by (auto simp: fdi_rest_def)
  then show ?thesis using nx tk f1(2) n by (auto simp: fdi_rest_def fdi_ok_def)
next
  case False
  then have "fi_buf f \<noteq> []" using assms(2) by auto
  then show ?thesis using False assms by (auto simp: fdi_next_def fdi_take_def fdi_rest_def fdi_ok_def)
qed

interpretation fdi: chunk_source "fdi_next CHUNK" fdi_rest fdi_ok
proof
  fix f
  show "fdi_ok f \<Longrightarrow> fdi_rest f = [] \<Longrightarrow> \<exists>f'. fdi_next CHUNK f = (Inl StopIteration, f')"
    using fdi_next_spec [of f CHUNK] by (simp add: CHUNK_def)
  show "fdi_ok f \<Longrightarrow> fdi_rest f \<noteq> [] \<Longrightarrow>
      \<exists>c f'. fdi_next CHUNK f = (Inr c, f') \<and> fdi_ok f' \<and> c \<noteq> [] \<and> fdi_rest f = c @ fdi_rest f'"
    using fdi_next_spec [of f CHUNK] by (auto simp: CHUNK_def)
qed

interpretation infc: chunk_source in_next in_rest in_ok
proof
  fix f
  show "in_ok f \<Longrightarrow> in_rest f = [] \<Longrightarrow> \<exists>f'. in_next f = (Inl StopIteration, f')"
    using in_read_spec [of f "-1"] by (auto simp: in_next_def)
  show "in_ok f \<Longrightarrow> in_rest f \<noteq> [] \<Longrightarrow> \<exists>c f'. in_next f = (Inr c, f') \<and> in_ok f' \<and> c \<noteq> [] \<and> in_rest f = c @ in_rest f'"
    using in_read_spec [of f "-1"] by (auto simp: in_next_def)
qed

section \<open>Lines\<close>

text \<open>A full buffer without a newline: reading returns the buffer itself, which is then put back.\<close>

lemma fdi_fill_stuck:
  assumes "\<not> fi_closed f" "nl \<notin> set (fi_buf f)" "fi_buf f \<noteq> []"
    and sz: "case sz of None \<Rightarrow> length (fi_buf f) = CHUNK
      | Some n \<Rightarrow> length (fi_buf f) < n \<and> n - length (fi_buf f) \<le> length (fi_buf f)"
  shows "fdi_fill sz f = None"
proof -
  define P where "P g \<longleftrightarrow> \<not> fi_closed g \<and> nl \<notin> set (fi_buf g) \<and> length (fi_buf g) = length (fi_buf f)" for g :: fditer
  define k where "k = (case sz of None \<Rightarrow> CHUNK | Some n \<Rightarrow> n - length (fi_buf f))"
  have k: "0 < k" "k \<le> length (fi_buf f)" using sz assms(3) by (auto simp: k_def CHUNK_def split: option.splits)
  have step: "\<exists>d g'. fdi_read k g = (Inr d, g') \<and> d \<noteq> [] \<and> P (g'\<lparr>fi_buf := fi_buf g' @ d\<rparr>)" if "P g" for g
  proof -
    have "fdi_read k g = fdi_take k g" using that k by (simp add: P_def fdi_read_def fdi_next_def)
    then show ?thesis using that k
      by (auto simp: P_def fdi_take_def dest: in_set_takeD in_set_dropD)
  qed
  have cond: "nl \<notin> set (fi_buf g) \<and> (case sz of None \<Rightarrow> True | Some n \<Rightarrow> length (fi_buf g) < n)"
    "(case sz of None \<Rightarrow> CHUNK | Some n \<Rightarrow> n - length (fi_buf g)) = k" if "P g" for g
    using that sz by (auto simp: P_def k_def split: option.splits)
  have never: "sz' = sz \<longrightarrow> P g \<longrightarrow> False" if "fdi_fill sz' g = Some y" for sz' g y
    using that
  proof (rule fdi_fill.raw_induct [rotated], goal_cases)
    case (1 fill sz' g y)
    show ?case
    proof (intro impI)
      assume g: "sz' = sz" "P g"
      obtain d g' where d: "fdi_read k g = (Inr d, g')" "d \<noteq> []" "P (g'\<lparr>fi_buf := fi_buf g' @ d\<rparr>)"
        using step [OF g(2)] by blast
      have "fill sz (g'\<lparr>fi_buf := fi_buf g' @ d\<rparr>) = Some y"
        using 1(2) cond [OF g(2)] d(1,2) unfolding g(1) by simp
      then show False using 1(1) d(3) by blast
    qed
  qed
  then show ?thesis using assms by (cases "fdi_fill sz f") (auto simp: P_def)
qed

text \<open>While some condition on the iterator persists under every round, the loop never ends.\<close>

lemma fdi_fill_never:
  assumes "P f"
    and "\<And>g. P g \<Longrightarrow> nl \<notin> set (fi_buf g)"
    and "\<And>g. P g \<Longrightarrow> \<exists>d g'. fdi_read CHUNK g = (Inr d, g') \<and> d \<noteq> [] \<and> P (g'\<lparr>fi_buf := fi_buf g' @ d\<rparr>)"
  shows "fdi_fill None f = None"
proof -
  have never: "sz' = None \<longrightarrow> P g \<longrightarrow> False" if "fdi_fill sz' g = Some y" for sz' g y
    using that
  proof (rule fdi_fill.raw_induct [rotated], goal_cases)
    case (1 fill sz' g y)
    show ?case
    proof (intro impI)
      assume g: "sz' = None" "P g"
      obtain d g' where d: "fdi_read CHUNK g = (Inr d, g')" "d \<noteq> []" "P (g'\<lparr>fi_buf := fi_buf g' @ d\<rparr>)"
        using assms(3) [OF g(2)] by blast
      have "fill None (g'\<lparr>fi_buf := fi_buf g' @ d\<rparr>) = Some y"
        using 1(2) assms(2) [OF g(2)] d(1,2) unfolding g(1) by simp
      then show False using 1(1) d(3) by blast
    qed
  qed
  then show ?thesis using assms(1) by (cases "fdi_fill None f") auto
qed

lemma fdi_fill_line:
  assumes "fdi_ok f" "nl \<in> set (take CHUNK (fdi_rest f))"
  shows "\<exists>f'. fdi_fill None f = Some (Inr (), f') \<and> nl \<in> set (fi_buf f') \<and> fdi_rest f' = fdi_rest f \<and> fdi_ok f'"
  using assms
proof (induction "length (fi_src f)" arbitrary: f rule: less_induct)
  case less
  show ?case
  proof (cases "nl \<in> set (fi_buf f)")
    case True
    then show ?thesis using less.prems by (simp add: fdi_fill.simps [of None f])
  next
    case False
    have len: "length (fi_buf f) < CHUNK"
    proof (rule ccontr)
      assume "\<not> length (fi_buf f) < CHUNK"
      then have "take CHUNK (fdi_rest f) = take CHUNK (fi_buf f)" by (simp add: fdi_rest_def)
      then show False using less.prems(2) False by (auto dest: in_set_takeD)
    qed
    have src: "fi_src f \<noteq> []" using less.prems(2) False by (auto simp: fdi_rest_def dest: in_set_takeD)
    obtain k f1 where f1: "next_event f = (Ready k, f1)" "fdi_ok f1" "fi_buf f1 = fi_buf f" "fi_src f1 = fi_src f"
      using next_event_ok [OF less.prems(1)] by blast
    define n where "n = min (max 1 k) (CHUNK - length (fi_buf f))"
    have n: "0 < n" "length (fi_buf f) + n \<le> CHUNK" using len by (auto simp: n_def)
    define g where "g = f1\<lparr>fi_src := drop n (fi_src f), fi_buf := fi_buf f @ take n (fi_src f)\<rparr>"
    have rd: "read_with_timeout (Ready k) (CHUNK - length (fi_buf f)) f1
        = (Inr (take n (fi_src f)), f1\<lparr>fi_src := drop n (fi_src f)\<rparr>)"
      by (simp only: read_with_timeout_def fd_event.case os_read_some_def f1(4) n_def [symmetric] Let_def prod.case)
    have ne: "take n (fi_src f) \<noteq> []" using n src by simp
    have nx: "fdi_read CHUNK f = (Inr (fi_buf g), g\<lparr>fi_buf := []\<rparr>)"
      using len less.prems(1) f1 ne n
      by (auto simp: fdi_read_def fdi_next_def fdi_ok_def rd Let_def fdi_take_def g_def)
    have fill: "fdi_fill None f = fdi_fill None g"
      using False nx ne by (simp add: fdi_fill.simps [of None f] g_def)
    have "fdi_ok g" "fdi_rest g = fdi_rest f" using f1 by (auto simp: g_def fdi_ok_def fdi_rest_def)
    moreover have "length (fi_src g) < length (fi_src f)" using n src by (simp add: g_def)
    ultimately show ?thesis using less.hyps [of g] less.prems fill by simp
  qed
qed

section \<open>Properties\<close>

text \<open>Iterating over a descriptor, however the kernel cuts the data, ends and yields exactly the bytes the
  peer wrote, in non-empty chunks.\<close>

theorem iterate_all:
  assumes "list_all (\<lambda>e. case e of Ready _ \<Rightarrow> True | _ \<Rightarrow> False) env"
  shows "\<exists>cs f'. drain (fdi_next CHUNK) (length src + 1) (FileDescriptorIterator fd src env cancel) = Some (Inr cs, f') \<and>
    concat cs = src \<and> [] \<notin> set cs"
  using fdi.drain_all [of "FileDescriptorIterator fd src env cancel" "length src + 1"] assms
  by (simp add: fdi_ok_def fdi_rest_def FileDescriptorIterator_def)

theorem iterate_all_witness:
  "\<exists>cs f'. drain (fdi_next CHUNK) 7 (FileDescriptorIterator 3 ''abcdef'' [Ready 2, Ready 1] None) = Some (Inr cs, f') \<and>
    concat cs = ''abcdef''"
  using iterate_all [of "[Ready 2, Ready 1]" "''abcdef''" 3 None] by (auto simp: eval_nat_numeral)

text \<open>\<open>readline()\<close> on a descriptor returns the first line and leaves the rest, when that line ends within the
  first 64 KiB.\<close>

theorem fd_readline_is_first_line:
  assumes "fdi_ok f" "nl \<in> set (take CHUNK (fdi_rest f))"
  shows "\<exists>f'. fdi_readline None f = Some (Inr (first_line (fdi_rest f)), f') \<and> fdi_ok f' \<and>
    first_line (fdi_rest f) @ fdi_rest f' = fdi_rest f"
proof -
  obtain f' where f': "fdi_fill None f = Some (Inr (), f')" "nl \<in> set (fi_buf f')" "fdi_rest f' = fdi_rest f" "fdi_ok f'"
    using fdi_fill_line [OF assms] by blast
  obtain a s r where p: "partition_on nl (fi_buf f') = (a, s, r)" by (cases "partition_on nl (fi_buf f')") auto
  have "a @ s = first_line (fi_buf f')" using first_line_partition [OF p] by simp
  moreover have "first_line (fi_buf f') = first_line (fdi_rest f)"
    unfolding f'(3) [symmetric] unfolding fdi_rest_def by (simp add: first_line_append_nl [OF f'(2)])
  moreover have "a @ s @ r = fi_buf f'" using partition_on_append [OF p] by simp
  then have "(a @ s) @ r @ fi_src f' = fdi_rest f" unfolding f'(3) [symmetric] unfolding fdi_rest_def by (metis append_assoc)
  ultimately show ?thesis using f'(1,4) p assms(1)
    by (auto simp: fdi_readline_def fdi_ok_def fdi_rest_def)
qed

definition sample_fditer :: fditer where
  "sample_fditer = FileDescriptorIterator 3 (''ab'' @ [nl] @ ''cd'') [Ready 1] None"

lemma sample_fditer_ok: "fdi_ok sample_fditer" "fdi_rest sample_fditer = ''ab'' @ [nl] @ ''cd''"
  by (simp_all add: sample_fditer_def FileDescriptorIterator_def fdi_ok_def fdi_rest_def)

theorem fd_readline_is_first_line_witness:
  "\<exists>f'. fdi_readline None sample_fditer = Some (Inr (''ab'' @ [nl]), f') \<and> fdi_rest f' = ''cd''"
  using fd_readline_is_first_line [OF sample_fditer_ok(1)] sample_fditer_ok(2)
  by (auto simp: CHUNK_def first_line_def)

text \<open>\<open>readline()\<close> never returns when the rest of the data has no newline, for instance on the last line of a text
  that does not end with one: at end of file \<open>read\<close> gives the buffered text back as a new chunk, for ever.\<close>

theorem fd_readline_unterminated_hangs:
  assumes "fdi_ok f" "nl \<notin> set (fdi_rest f)" "fdi_rest f \<noteq> []"
  shows "fdi_readline None f = None"
proof -
  have "fdi_fill None f = None"
  proof (rule fdi_fill_never [where P = "\<lambda>g. fdi_ok g \<and> nl \<notin> set (fdi_rest g) \<and> fdi_rest g \<noteq> []"])
    fix g assume g: "fdi_ok g \<and> nl \<notin> set (fdi_rest g) \<and> fdi_rest g \<noteq> []"
    then obtain d g' where d: "fdi_next CHUNK g = (Inr d, g')" "fdi_ok g'" "d \<noteq> []" "fdi_rest g = d @ fdi_rest g'"
      using fdi_next_spec [of g CHUNK] by (auto simp: CHUNK_def)
    then show "\<exists>d g'. fdi_read CHUNK g = (Inr d, g') \<and> d \<noteq> [] \<and>
        (fdi_ok (g'\<lparr>fi_buf := fi_buf g' @ d\<rparr>) \<and> nl \<notin> set (fdi_rest (g'\<lparr>fi_buf := fi_buf g' @ d\<rparr>)) \<and>
         fdi_rest (g'\<lparr>fi_buf := fi_buf g' @ d\<rparr>) \<noteq> [])"
      using g by (auto simp: fdi_read_def fdi_ok_def fdi_rest_def)
  qed (use assms in \<open>auto simp: fdi_rest_def\<close>)
  then show ?thesis using assms(1) by (simp add: fdi_readline_def fdi_ok_def)
qed

theorem fd_readline_unterminated_hangs_witness:
  "fdi_readline None (FileDescriptorIterator 3 ''abc'' [] None) = None"
  by (rule fd_readline_unterminated_hangs) (simp_all add: FileDescriptorIterator_def fdi_ok_def fdi_rest_def)

end
