(* ===== verification/Gateway.thy ===== *)
theory Gateway
  imports Stob
begin

text \<open>
  The container gateway (\<open>storlets/gateway/gateways/container/gateway.py\<close>) with the path
  scheme of \<open>runtime.py\<close>: requests, the validation of storlet and dependency registrations,
  and the cache that brings storlets and their dependencies from the object store to the
  node and from there into the container's directory.

  The file system is a table of files with content, mode and modification time, and a list
  of directories. Times are integers of nanoseconds; \<open>float(s)\<close> reads decimals with up to
  nine fractional digits and no exponent. The object store is a parameter: what the file
  manager returns for a name, the chunks of the object (possibly ending in an error) and its
  permission string.
\<close>

unbundle bit_operations_syntax

section \<open>Paths\<close>

record paths =
  pt_scope :: string
  host_pipe_root_dir :: string
  host_storlet_root_dir :: string
  host_log_root_dir :: string
  host_cache_root_dir :: string

definition conf_get :: "string dict \<Rightarrow> string \<Rightarrow> string \<Rightarrow> string" where
  "conf_get conf k d = (case dict_get conf k of None \<Rightarrow> d | Some v \<Rightarrow> v)"

definition RunTimePaths :: "string \<Rightarrow> string dict \<Rightarrow> paths" where
  "RunTimePaths scope conf =
     (let root = conf_get conf ''host_root'' ''/var/lib/storlets'' in
      \<lparr>pt_scope = scope,
       host_pipe_root_dir = conf_get conf ''pipes_dir'' (path_join (path_join root ''pipes'') ''scopes''),
       host_storlet_root_dir = conf_get conf ''storlets_dir'' (path_join (path_join root ''storlets'') ''scopes''),
       host_log_root_dir = conf_get conf ''log_dir'' (path_join (path_join root ''logs'') ''scopes''),
       host_cache_root_dir = conf_get conf ''cache_dir'' (path_join (path_join root ''cache'') ''scopes'')\<rparr>)"

definition sandbox_pipe_dir :: string where "sandbox_pipe_dir = ''/mnt/channels''"
definition sandbox_storlet_base_dir :: string where "sandbox_storlet_base_dir = ''/var/lib/storlets''"
definition factory_pipe_name :: string where "factory_pipe_name = ''factory_pipe''"

definition host_pipe_dir :: "paths \<Rightarrow> string" where
  "host_pipe_dir p = path_join (host_pipe_root_dir p) (pt_scope p)"
definition host_factory_pipe :: "paths \<Rightarrow> string" where
  "host_factory_pipe p = path_join (host_pipe_dir p) factory_pipe_name"
definition sandbox_factory_pipe :: string where
  "sandbox_factory_pipe = path_join sandbox_pipe_dir factory_pipe_name"
definition get_host_storlet_pipe :: "paths \<Rightarrow> string \<Rightarrow> string" where
  "get_host_storlet_pipe p sid = path_join (host_pipe_dir p) sid"
definition get_sbox_storlet_pipe :: "string \<Rightarrow> string" where
  "get_sbox_storlet_pipe sid = path_join sandbox_pipe_dir sid"
definition get_sbox_storlet_dir :: "string \<Rightarrow> string" where
  "get_sbox_storlet_dir sid = path_join sandbox_storlet_base_dir sid"
definition host_storlet_base_dir :: "paths \<Rightarrow> string" where
  "host_storlet_base_dir p = path_join (host_storlet_root_dir p) (pt_scope p)"
definition get_host_storlet_dir :: "paths \<Rightarrow> string \<Rightarrow> string" where
  "get_host_storlet_dir p sid = path_join (host_storlet_base_dir p) sid"
definition get_host_slog_path :: "paths \<Rightarrow> string \<Rightarrow> string" where
  "get_host_slog_path p sid = path_join (path_join (path_join (host_log_root_dir p) (pt_scope p)) sid) ''storlet_invoke.log''"
definition host_storlet_cache_dir :: "paths \<Rightarrow> string" where
  "host_storlet_cache_dir p = path_join (path_join (host_cache_root_dir p) (pt_scope p)) ''storlet''"
definition host_dependency_cache_dir :: "paths \<Rightarrow> string" where
  "host_dependency_cache_dir p = path_join (path_join (host_cache_root_dir p) (pt_scope p)) ''dependency''"

section \<open>Numbers from text\<close>

fun octal_groups :: "bool \<Rightarrow> string \<Rightarrow> string option" where
  "octal_groups prev [] = (if prev then Some [] else None)"
| "octal_groups prev (c # cs) = (if is_digit c \<and> digit_val c < 8 then map_option ((#) c) (octal_groups True cs)
     else if c = CHR ''_'' \<and> prev \<and> cs \<noteq> [] then octal_groups False cs else None)"

definition octal_val :: "string \<Rightarrow> int" where
  "octal_val ds = foldl (\<lambda>a c. 8 * a + int (digit_val c)) 0 ds"

text \<open>\<open>int(s, 8)\<close>.\<close>

definition py_oct :: "string \<Rightarrow> int res" where
  "py_oct s =
     (let t = strip s; neg = startswith t ''-'';
          u = (if t \<noteq> [] \<and> (hd t = CHR ''-'' \<or> hd t = CHR ''+'') then tl t else t);
          v = (if take 2 u = ''0o'' \<or> take 2 u = ''0O'' then (if take 1 (drop 2 u) = ''_'' then drop 3 u else drop 2 u) else u) in
      case octal_groups False v of
        None \<Rightarrow> Inl (ValueError ''invalid literal for int() with base 8'')
      | Some ds \<Rightarrow> Inr (if neg then - octal_val ds else octal_val ds))"

definition nano :: int where "nano = 1000000000"

definition py_float :: "string \<Rightarrow> int res" where
  "py_float s =
     (let t = strip s; neg = startswith t ''-'';
          u = (if t \<noteq> [] \<and> (hd t = CHR ''-'' \<or> hd t = CHR ''+'') then tl t else t);
          ip = takeWhile is_digit u; r = dropWhile is_digit u;
          fp = (if take 1 r = ''.'' then tl r else []) in
      if (ip = [] \<and> fp = []) \<or> (r \<noteq> [] \<and> hd r \<noteq> CHR ''.'') \<or> \<not> list_all is_digit fp \<or> length fp > 9
      then Inl (ValueError ''could not convert string to float'')
      else let v = int (digits_val ip) * nano + int (digits_val fp) * 10 ^ (9 - length fp)
           in Inr (if neg then - v else v))"

text \<open>\<open>int(x)\<close> of a float cuts towards zero.\<close>

definition trunc_nano :: "int \<Rightarrow> int" where
  "trunc_nano v = (if v < 0 then - ((- v) div nano) else v div nano)"

section \<open>Registration\<close>

fun check_mandatory_params :: "string dict \<Rightarrow> string list \<Rightarrow> unit res" where
  "check_mandatory_params ps [] = Inr ()"
| "check_mandatory_params ps (k # ks) = (if \<not> dict_has ps k
     then Inl (ValueError (''Mandatory parameter is missing: '' @ k)) else check_mandatory_params ps ks)"

definition check_python :: "string dict \<Rightarrow> string \<Rightarrow> unit res" where
  "check_python ps name =
     (case py_float (conf_get ps ''Language-Version'' ''3'') of
        Inl _ \<Rightarrow> Inl (ValueError ''Language-Version is invalid'')
      | Inr version \<Rightarrow>
          if trunc_nano version \<noteq> 3 then Inl (ValueError ''Not supported version specified'')
          else if endswith name ''.py'' then
            (let cls_name = conf_get ps ''Main'' [] in
             if \<not> startswith cls_name (take (length name - 3) name @ ''.'')
             then Inl (ValueError ''Main class should be included in storlet file'')
             else if length (split_on CHR ''.'' cls_name) \<noteq> 2
             then Inl (ValueError ''Submodule is currently not supported'') else Inr ())
          else Inl (ValueError ''Storlet name is incorrect''))"

definition check_dependencies :: "string dict \<Rightarrow> string \<Rightarrow> unit res" where
  "check_dependencies ps name =
     (let dep = conf_get ps ''Dependency'' [] in
      if dep \<noteq> [] then
        (let deps = split_on CHR '','' dep in
         if name \<in> set deps then Inl (ValueError ''Using the same name for storlet and dependency is not allowed'')
         else if \<not> distinct deps then Inl (ValueError ''Duplicated name in dependencies'') else Inr ())
      else Inr ())"

definition validate_storlet_registration :: "string dict \<Rightarrow> string \<Rightarrow> unit res" where
  "validate_storlet_registration ps name =
     rbind (check_mandatory_params ps [''Language'', ''Interface-Version'', ''Object-Metadata'', ''Main'']) (\<lambda>_.
     rbind (let language = lower (conf_get ps ''Language'' []) in
            if language = ''java'' then
              (if CHR ''-'' \<notin> set name \<or> CHR ''.'' \<notin> set name then Inl (ValueError ''Storlet name is incorrect'') else Inr ())
            else if language = ''python'' then check_python ps name
            else Inl (ValueError ''Unsupported Language'')) (\<lambda>_.
     check_dependencies ps name))"

definition validate_dependency_registration :: "string dict \<Rightarrow> unit res" where
  "validate_dependency_registration ps =
     rbind (check_mandatory_params ps [''Dependency-Version'']) (\<lambda>_.
       case dict_get ps ''Dependency-Permissions'' of
         None \<Rightarrow> Inr ()
       | Some perm \<Rightarrow>
           (case py_oct perm of
              Inl _ \<Rightarrow> Inl (ValueError ''Dependency permission is incorrect'')
            | Inr p \<Rightarrow> if p AND 384 \<noteq> 384 then Inl (ValueError ''The owner should have rw permission'') else Inr ()))"

section \<open>Requests\<close>

text \<open>What the gateway reads from the options; \<open>file_manager\<close> stays a parameter of the operations.\<close>

record container_request =
  cr_request :: storlet_request
  generate_log :: bool
  storlet_main :: string
  storlet_language :: string
  storlet_language_version :: json
  dependencies :: "string list"
  cr_start :: json
  cr_end :: json

definition jopt :: "json dict \<Rightarrow> string \<Rightarrow> json" where
  "jopt d k = (case dict_get d k of None \<Rightarrow> JNull | Some v \<Rightarrow> v)"

fun jstr :: "json \<Rightarrow> string" where
  "jstr (JStr s) = s"
| "jstr _ = []"

definition parse_dependencies :: "string \<Rightarrow> string list" where
  "parse_dependencies s = filter (\<lambda>x. x \<noteq> []) (map strip (split_on CHR '','' s))"

definition ContainerStorletRequest ::
  "string \<Rightarrow> json dict \<Rightarrow> storlet_data \<Rightarrow> json dict option \<Rightarrow> storlet_data list option \<Rightarrow> container_request res" where
  "ContainerStorletRequest sid ps data opts extra =
     rbind (StorletRequest [''storlet_main'', ''storlet_language'', ''file_manager''] sid ps data opts extra) (\<lambda>r.
       let o1 = sr_options r in
       Inr \<lparr>cr_request = r, generate_log = truthy (jopt o1 ''generate_log''),
            storlet_main = jstr (jopt o1 ''storlet_main''), storlet_language = jstr (jopt o1 ''storlet_language''),
            storlet_language_version = jopt o1 ''storlet_language_version'',
            dependencies = (if truthy (jopt o1 ''storlet_dependency'')
              then parse_dependencies (jstr (jopt o1 ''storlet_dependency'')) else []),
            cr_start = jopt o1 ''range_start'', cr_end = jopt o1 ''range_end''\<rparr>)"

definition has_range :: "container_request \<Rightarrow> bool" where
  "has_range r = (cr_start r \<noteq> JNull \<and> cr_end r \<noteq> JNull)"

definition add_system_params :: "container_request \<Rightarrow> container_request" where
  "add_system_params r = r\<lparr>cr_request := (cr_request r)\<lparr>sr_params :=
     dict_set ''storlet_execution_path'' (JStr (get_sbox_storlet_dir (storlet_main r))) (sr_params (cr_request r))\<rparr>\<rparr>"

section \<open>The file system\<close>

record fs_file =
  f_content :: string
  f_mode :: int
  f_mtime :: int

record fs =
  fs_files :: "fs_file dict"
  fs_dirs :: "string list"
  fs_now :: int

definition fs_isfile :: "fs \<Rightarrow> string \<Rightarrow> bool" where "fs_isfile s p = dict_has (fs_files s) p"
definition fs_exists :: "fs \<Rightarrow> string \<Rightarrow> bool" where "fs_exists s p = (p \<in> set (fs_dirs s) \<or> fs_isfile s p)"

text \<open>\<open>os.makedirs\<close> makes the directory and every missing parent.\<close>

definition parents :: "string \<Rightarrow> string list" where
  "parents p = p # map (\<lambda>i. take i p) (filter (\<lambda>i. p ! i = CHR ''/'') [1 ..< length p])"

definition fs_makedirs :: "string \<Rightarrow> fs \<Rightarrow> fs" where
  "fs_makedirs p s = s\<lparr>fs_dirs := parents p @ fs_dirs s\<rparr>"

text \<open>Writing a whole file: opened with truncation, its mode set, then the chunks; the error of a
  failing data source leaves what was written so far.\<close>

definition fs_write :: "string \<Rightarrow> int \<Rightarrow> string list \<times> py_exc option \<Rightarrow> fs \<Rightarrow> unit res \<times> fs" where
  "fs_write p mode data s =
     (if p \<in> set (fs_dirs s) then (Inl (OSErrno (Eother 21)), s)
      else ((case snd data of None \<Rightarrow> Inr () | Some e \<Rightarrow> Inl e),
            s\<lparr>fs_files := dict_set p \<lparr>f_content = concat (fst data), f_mode = mode, f_mtime = fs_now s\<rparr> (fs_files s)\<rparr>))"

text \<open>\<open>shutil.copy2\<close>: content, mode and modification time.\<close>

definition fs_copy2 :: "string \<Rightarrow> string \<Rightarrow> fs \<Rightarrow> unit res \<times> fs" where
  "fs_copy2 src dst s = (case dict_get (fs_files s) src of
     None \<Rightarrow> (Inl (OSErrno ENOENT), s)
   | Some f \<Rightarrow> if dst \<in> set (fs_dirs s) then (Inl (OSErrno (Eother 21)), s)
               else (Inr (), s\<lparr>fs_files := dict_set dst f (fs_files s)\<rparr>))"

section \<open>The cache\<close>

type_synonym get_func = "string \<Rightarrow> ((string list \<times> py_exc option) \<times> string) res"

text \<open>Whether a cached file has to be fetched again; only storlets are compared with the metadata
  of the object.\<close>

definition cache_outdated :: "json dict \<Rightarrow> bool \<Rightarrow> string \<Rightarrow> fs \<Rightarrow> bool res" where
  "cache_outdated opts is_storlet target s =
     (case dict_get (fs_files s) target of
        None \<Rightarrow> Inr True
      | Some f \<Rightarrow>
          if \<not> is_storlet then Inr False
          else rbind (jgetitem (JObj opts) ''storlet_content_length'') (\<lambda>len.
               rbind (py_int (rev (dropWhile (\<lambda>c. c = CHR ''L'') (rev (jstr len))))) (\<lambda>or_size.
               rbind (jgetitem (JObj opts) ''storlet_x_timestamp'') (\<lambda>ts.
               rbind (py_float (jstr ts)) (\<lambda>or_time.
                 Inr (int (length (f_content f)) \<noteq> or_size \<or> f_mtime f < or_time))))))"

definition object_mode :: "string \<Rightarrow> int res" where
  "object_mode perm = (if perm \<noteq> [] then rbind (py_oct perm) (\<lambda>p. Inr (p AND 448)) else Inr 384)"

definition update_cache :: "get_func \<Rightarrow> string \<Rightarrow> string \<Rightarrow> fs \<Rightarrow> unit res \<times> fs" where
  "update_cache get obj_name target s =
     (case get obj_name of
        Inl e \<Rightarrow> (Inl e, s)
      | Inr (data, perm) \<Rightarrow>
          (case object_mode perm of Inl e \<Rightarrow> (Inl e, s) | Inr mode \<Rightarrow> fs_write target mode data s))"

definition container_outdated :: "string \<Rightarrow> string \<Rightarrow> fs \<Rightarrow> bool" where
  "container_outdated cached target s =
     (case (dict_get (fs_files s) cached, dict_get (fs_files s) target) of
        (Some c, Some t) \<Rightarrow> length (f_content c) \<noteq> length (f_content t) \<or> f_mtime c < f_mtime t
      | _ \<Rightarrow> True)"

definition bring_from_cache ::
  "get_func \<Rightarrow> get_func \<Rightarrow> paths \<Rightarrow> container_request \<Rightarrow> string \<Rightarrow> bool \<Rightarrow> fs \<Rightarrow> bool res \<times> fs" where
  "bring_from_cache get_storlet get_dependency pt sreq obj_name is_storlet s =
     (let cache_dir = (if is_storlet then host_storlet_cache_dir pt else host_dependency_cache_dir pt);
          get = (if is_storlet then get_storlet else get_dependency);
          s1 = (if \<not> fs_exists s cache_dir then fs_makedirs cache_dir s else s);
          target = path_join cache_dir obj_name in
      case cache_outdated (sr_options (cr_request sreq)) is_storlet target s1 of
        Inl e \<Rightarrow> (Inl e, s1)
      | Inr old \<Rightarrow>
          (case (if old then update_cache get obj_name target s1 else (Inr (), s1)) of
             (Inl e, s2) \<Rightarrow> (Inl e, s2)
           | (Inr _, s2) \<Rightarrow>
               (let dir = get_host_storlet_dir pt (storlet_main sreq);
                    ctarget = path_join dir obj_name;
                    (upd, s3) = (if \<not> fs_exists s2 dir then (True, fs_makedirs dir s2)
                                 else if \<not> fs_isfile s2 ctarget then (True, s2)
                                 else (container_outdated target ctarget s2, s2)) in
                if upd then (case fs_copy2 target ctarget s3 of
                    (Inl e, s4) \<Rightarrow> (Inl e, s4) | (Inr _, s4) \<Rightarrow> (Inr True, s4))
                else (Inr False, s3))))"

fun bring_dependencies ::
  "(string \<Rightarrow> fs \<Rightarrow> bool res \<times> fs) \<Rightarrow> string list \<Rightarrow> bool \<Rightarrow> fs \<Rightarrow> bool res \<times> fs" where
  "bring_dependencies bring [] upd s = (Inr upd, s)"
| "bring_dependencies bring (d # ds) upd s = (case bring d s of
     (Inl e, s') \<Rightarrow> (Inl e, s') | (Inr u, s') \<Rightarrow> bring_dependencies bring ds (upd \<or> u) s')"

definition update_container_from_cache ::
  "get_func \<Rightarrow> get_func \<Rightarrow> paths \<Rightarrow> container_request \<Rightarrow> fs \<Rightarrow> bool res \<times> fs" where
  "update_container_from_cache get_storlet get_dependency pt sreq s =
     (let s1 = (if \<not> fs_exists s (host_storlet_base_dir pt) then fs_makedirs (host_storlet_base_dir pt) s else s);
          bring = bring_from_cache get_storlet get_dependency pt sreq in
      case bring (storlet_id (cr_request sreq)) True s1 of
        (Inl e, s2) \<Rightarrow> (Inl e, s2)
      | (Inr u, s2) \<Rightarrow> bring_dependencies (\<lambda>d. bring d False) (dependencies sreq) u s2)"

section \<open>Lemmas\<close>

lemma fs_makedirs_files [simp]: "fs_files (fs_makedirs p s) = fs_files s" "fs_now (fs_makedirs p s) = fs_now s"
  by (simp_all add: fs_makedirs_def)

lemma fs_copy2_Inr:
  "fs_copy2 src dst s = (Inr u, s') \<Longrightarrow> \<exists>f. dict_get (fs_files s') src = Some f \<and> dict_get (fs_files s') dst = Some f"
  by (auto simp: fs_copy2_def split: option.splits if_splits)

abbreviation cache_path :: "paths \<Rightarrow> bool \<Rightarrow> string \<Rightarrow> string" where
  "cache_path pt is_storlet n \<equiv> path_join (if is_storlet then host_storlet_cache_dir pt else host_dependency_cache_dir pt) n"

abbreviation container_path :: "paths \<Rightarrow> container_request \<Rightarrow> string \<Rightarrow> string" where
  "container_path pt r n \<equiv> path_join (get_host_storlet_dir pt (storlet_main r)) n"

lemma bring_updated:
  assumes "bring_from_cache gs gd pt r n b s = (Inr True, s')"
  shows "\<exists>f. dict_get (fs_files s') (cache_path pt b n) = Some f \<and> dict_get (fs_files s') (container_path pt r n) = Some f"
  using assms unfolding bring_from_cache_def
  by (auto simp: Let_def split: sum.splits prod.splits if_splits dest: fs_copy2_Inr)

lemma cache_outdated_files: "fs_files s = fs_files s' \<Longrightarrow> cache_outdated os b p s = cache_outdated os b p s'"
  by (simp add: cache_outdated_def)

lemma fs_copy2_src: "fs_copy2 src dst s = (Inr u, s') \<Longrightarrow> dict_get (fs_files s') src = dict_get (fs_files s) src"
  by (auto simp: fs_copy2_def split: option.splits if_splits)

lemma update_cache_Inr:
  assumes "update_cache get n target s = (Inr u, s')" "get n = Inr ((chunks, err), perm)"
  shows "err = None \<and> (\<exists>mode. object_mode perm = Inr mode \<and>
    fs_files s' = dict_set target \<lparr>f_content = concat chunks, f_mode = mode, f_mtime = fs_now s\<rparr> (fs_files s) \<and>
    fs_dirs s' = fs_dirs s)"
  using assms by (auto simp: update_cache_def fs_write_def split: sum.splits if_splits option.splits)

lemma bring_fetched:
  assumes "bring_from_cache gs gd pt r n b s = (Inr True, s')" "(if b then gs else gd) n = Inr ((chunks, err), perm)"
    "cache_outdated (sr_options (cr_request r)) b (cache_path pt b n) s = Inr True"
  shows "\<exists>f. dict_get (fs_files s') (cache_path pt b n) = Some f \<and> f_content f = concat chunks \<and>
    object_mode perm = Inr (f_mode f)"
proof -
  let ?dir = "if b then host_storlet_cache_dir pt else host_dependency_cache_dir pt"
  define s1 where "s1 = (if \<not> fs_exists s ?dir then fs_makedirs ?dir s else s)"
  have old: "cache_outdated (sr_options (cr_request r)) b (cache_path pt b n) s1 = Inr True"
    using assms(3) cache_outdated_files [of s1 s] by (simp add: s1_def)
  obtain x s2 where up: "update_cache (if b then gs else gd) n (cache_path pt b n) s1 = (x, s2)"
    by (cases "update_cache (if b then gs else gd) n (cache_path pt b n) s1")
  have "x = Inr ()"
    using assms(1) old up by (cases x) (auto simp: bring_from_cache_def Let_def s1_def split: if_splits)
  then obtain mode where m: "object_mode perm = Inr mode"
      "fs_files s2 = dict_set (cache_path pt b n) \<lparr>f_content = concat chunks, f_mode = mode, f_mtime = fs_now s1\<rparr> (fs_files s1)"
    using update_cache_Inr [of "if b then gs else gd" n "cache_path pt b n" s1 "()" s2, OF _ assms(2)] up by auto
  have "dict_get (fs_files s') (cache_path pt b n) = dict_get (fs_files s2) (cache_path pt b n)"
    using assms(1) old up \<open>x = Inr ()\<close> unfolding bring_from_cache_def Let_def s1_def [symmetric]
    by (auto split: if_splits prod.splits sum.splits dest!: fs_copy2_src)
  then show ?thesis using m by simp
qed

text \<open>The part of \<open>bring_from_cache\<close> that runs when the directories exist.\<close>

lemma bring_dirs_exist:
  assumes "fs_exists s (if b then host_storlet_cache_dir pt else host_dependency_cache_dir pt)"
    "cache_outdated (sr_options (cr_request r)) b (cache_path pt b n) s = Inr old"
    "(if old then update_cache (if b then gs else gd) n (cache_path pt b n) s else (Inr (), s)) = (Inr u, s2)"
    "fs_exists s2 (get_host_storlet_dir pt (storlet_main r))" "fs_isfile s2 (container_path pt r n)"
    "\<not> container_outdated (cache_path pt b n) (container_path pt r n) s2"
  shows "bring_from_cache gs gd pt r n b s = (Inr False, s2)"
  using assms by (cases b; cases old) (simp_all add: bring_from_cache_def Let_def)

lemma path_join_inj:
  assumes "path_join a x = path_join a y" "\<not> startswith x ''/''" "\<not> startswith y ''/''"
  shows "x = y"
  using assms by (auto simp: path_join_def split: if_splits)

lemma last_segment:
  assumes "a @ ''/'' @ x = b @ ''/'' @ y" "CHR ''/'' \<notin> set x" "CHR ''/'' \<notin> set y"
  shows "a = b \<and> x = y"
proof -
  have "rev x @ CHR ''/'' # rev a = rev y @ CHR ''/'' # rev b"
    using arg_cong [OF assms(1), of rev] by simp
  then have "takeWhile (\<lambda>c. c \<noteq> CHR ''/'') (rev x @ CHR ''/'' # rev a) =
      takeWhile (\<lambda>c. c \<noteq> CHR ''/'') (rev y @ CHR ''/'' # rev b)" by simp
  then have "rev x = rev y" using assms(2,3) by (auto simp: takeWhile_append split: if_splits)
  with assms(1) show ?thesis by auto
qed

lemma path_join_no_slash:
  assumes "x \<noteq> []" "CHR ''/'' \<notin> set x" "a \<noteq> []" "\<not> endswith a ''/''"
  shows "path_join a x = a @ ''/'' @ x"
  using assms by (cases x) (auto simp: path_join_def startswith_def)

lemma no_end_slash: "x \<noteq> [] \<Longrightarrow> CHR ''/'' \<notin> set x \<Longrightarrow> \<not> endswith (a @ x) ''/''"
  by (cases x rule: rev_cases) (auto simp: endswith_def)

lemma check_python_Inr:
  assumes "check_python ps name = Inr ()"
  shows "\<exists>m c. name = m @ ''.py'' \<and> conf_get ps ''Main'' [] = m @ ''.'' @ c \<and> CHR ''.'' \<notin> set m \<and> CHR ''.'' \<notin> set c"
proof -
  let ?cls = "conf_get ps ''Main'' []"
  have e: "endswith name ''.py''" and st: "startswith ?cls (take (length name - 3) name @ ''.'')"
    and two: "length (split_on CHR ''.'' ?cls) = 2"
    using assms by (auto simp: check_python_def Let_def split: sum.splits if_splits)
  define m where "m = take (length name - 3) name"
  have name: "name = m @ ''.py''"
  proof -
    have "drop (length name - 3) name = ''.py''" using e by (simp add: endswith_def eval_nat_numeral)
    then show ?thesis unfolding m_def by (metis append_take_drop_id)
  qed
  obtain c where c: "?cls = (m @ ''.'') @ c" using st by (auto simp: startswith_iff m_def)
  obtain u v where uv: "split_on CHR ''.'' ?cls = [u, v]" using two by (auto simp: length_Suc_conv eval_nat_numeral)
  have "?cls = u @ ''.'' @ v" using join_split_on [of "CHR ''.''" ?cls] uv by simp
  moreover have "CHR ''.'' \<notin> set u" "CHR ''.'' \<notin> set v" using split_on_parts_no_sep [of _ "CHR ''.''" ?cls] uv by auto
  ultimately have "u = m \<and> v = c"
    using c by (auto simp: append_eq_append_conv2 append_eq_Cons_conv Cons_eq_append_conv)
  then show ?thesis using name c \<open>CHR ''.'' \<notin> set u\<close> \<open>CHR ''.'' \<notin> set v\<close> by auto
qed

section \<open>Properties\<close>


definition sample_paths :: paths where "sample_paths = RunTimePaths ''scope'' []"

definition sample_request :: container_request where
  "sample_request = \<lparr>cr_request = \<lparr>storlet_id = ''s.py'', sr_params = [],
       sr_data = \<lparr>user_metadata = JNull, data_fd = Some 3, sd_data_iter = None, sd_timeout = 10, sd_cancel = False\<rparr>,
       sr_options = [(''storlet_content_length'', JStr ''3''), (''storlet_x_timestamp'', JStr ''50.0'')], extra_data_list = []\<rparr>,
     generate_log = False, storlet_main = ''s.Main'', storlet_language = ''python'', storlet_language_version = JNull,
     dependencies = [], cr_start = JNull, cr_end = JNull\<rparr>"

definition sample_fs :: fs where "sample_fs = \<lparr>fs_files = [], fs_dirs = [''/''], fs_now = 60 * nano\<rparr>"

definition sample_get :: get_func where "sample_get n = Inr (([''a'', ''bc''], None), ''0755'')"

definition sample_bring where
  "sample_bring = bring_from_cache sample_get sample_get sample_paths sample_request ''s.py'' True sample_fs"

lemma sample_bring_ok: "fst sample_bring = Inr True" by code_simp


text \<open>A new version of a storlet that has the same size as the one in the container never reaches the container:
  the cache is refreshed, but the times are compared the wrong way round, so the container keeps the old code and
  the daemon is not restarted.\<close>

theorem same_size_update_lost:
  assumes "fs_exists s (host_storlet_cache_dir pt)" "fs_exists s (get_host_storlet_dir pt (storlet_main r))"
    and "cache_outdated (sr_options (cr_request r)) True (cache_path pt True n) s = Inr True"
    and "gs n = Inr ((chunks, None), perm)" "object_mode perm = Inr mode" "cache_path pt True n \<notin> set (fs_dirs s)"
    and t: "dict_get (fs_files s) (container_path pt r n) = Some t" "container_path pt r n \<noteq> cache_path pt True n"
    and "length (concat chunks) = length (f_content t)" "f_mtime t \<le> fs_now s"
  shows "\<exists>s'. bring_from_cache gs gd pt r n True s = (Inr False, s') \<and>
    dict_get (fs_files s') (cache_path pt True n) = Some \<lparr>f_content = concat chunks, f_mode = mode, f_mtime = fs_now s\<rparr> \<and>
    dict_get (fs_files s') (container_path pt r n) = Some t"
proof -
  let ?c = "\<lparr>f_content = concat chunks, f_mode = mode, f_mtime = fs_now s\<rparr>"
  define s2 where "s2 = s\<lparr>fs_files := dict_set (cache_path pt True n) ?c (fs_files s)\<rparr>"
  have up: "update_cache gs n (cache_path pt True n) s = (Inr (), s2)"
    using assms(4-6) by (simp add: update_cache_def fs_write_def s2_def)
  have ct: "dict_get (fs_files s2) (container_path pt r n) = Some t" using t by (simp add: s2_def)
  have "bring_from_cache gs gd pt r n True s = (Inr False, s2)"
  proof (rule bring_dirs_exist [where old = True])
    show "fs_exists s2 (get_host_storlet_dir pt (storlet_main r))"
      using assms(2) by (auto simp: fs_exists_def fs_isfile_def s2_def dict_has_iff)
    show "fs_isfile s2 (container_path pt r n)" using ct by (simp add: fs_isfile_def dict_has_iff)
    show "\<not> container_outdated (cache_path pt True n) (container_path pt r n) s2"
      using ct t(2) assms(9,10) by (simp add: container_outdated_def s2_def)
  qed (use assms(1,3) up in simp_all)
  then show ?thesis using ct by (auto simp: s2_def)
qed

definition stale_fs :: fs where
  "stale_fs = \<lparr>fs_files = [(cache_path sample_paths True ''s.py'', \<lparr>f_content = ''old'', f_mode = 384, f_mtime = 40 * nano\<rparr>),
      (container_path sample_paths sample_request ''s.py'', \<lparr>f_content = ''old'', f_mode = 384, f_mtime = 40 * nano\<rparr>)],
     fs_dirs = [host_storlet_cache_dir sample_paths, get_host_storlet_dir sample_paths ''s.Main''], fs_now = 60 * nano\<rparr>"

theorem same_size_update_lost_witness:
  "\<exists>s'. bring_from_cache sample_get sample_get sample_paths sample_request ''s.py'' True stale_fs = (Inr False, s') \<and>
    dict_get (fs_files s') (container_path sample_paths sample_request ''s.py'')
      = Some \<lparr>f_content = ''old'', f_mode = 384, f_mtime = 40 * nano\<rparr>"
proof -
  have e: "fs_exists stale_fs (host_storlet_cache_dir sample_paths)"
    "fs_exists stale_fs (get_host_storlet_dir sample_paths (storlet_main sample_request))"
    by (simp_all add: stale_fs_def fs_exists_def sample_request_def)
  have o: "cache_outdated (sr_options (cr_request sample_request)) True (cache_path sample_paths True ''s.py'') stale_fs
      = Inr True" by code_simp
  have m: "object_mode ''0755'' = Inr 448" by code_simp
  have d: "cache_path sample_paths True ''s.py'' \<notin> set (fs_dirs stale_fs)" by code_simp
  have ne: "container_path sample_paths sample_request ''s.py'' \<noteq> cache_path sample_paths True ''s.py''" by code_simp
  have c: "dict_get (fs_files stale_fs) (container_path sample_paths sample_request ''s.py'')
      = Some \<lparr>f_content = ''old'', f_mode = 384, f_mtime = 40 * nano\<rparr>"
    using ne by (simp add: stale_fs_def dict_get_def)
  have g: "sample_get ''s.py'' = Inr (([''a'', ''bc''], None), ''0755'')" by (simp add: sample_get_def)
  show ?thesis
    using same_size_update_lost [where gs = sample_get and gd = sample_get and n = "''s.py''", OF e o g m d c ne]
    by (auto simp: stale_fs_def nano_def)
qed

text \<open>A dependency whose download breaks off stays in the cache as a truncated file, and since dependencies are
  never checked again, the next request puts that truncated file into the container as if it were whole.\<close>

theorem broken_dependency_is_delivered:
  assumes "fs_exists s (host_dependency_cache_dir pt)" "\<not> fs_isfile s (cache_path pt False n)"
    and "gd n = Inr ((chunks, Some e), perm)" "object_mode perm = Inr mode"
    and "cache_path pt False n \<notin> set (fs_dirs s)" "container_path pt r n \<notin> set (fs_dirs s)"
    and "fs_exists s (get_host_storlet_dir pt (storlet_main r))" "\<not> fs_isfile s (container_path pt r n)"
    and "container_path pt r n \<noteq> cache_path pt False n"
  shows "\<exists>s1 s2 f. bring_from_cache gs gd pt r n False s = (Inl e, s1) \<and>
    bring_from_cache gs gd' pt r n False s1 = (Inr True, s2) \<and>
    dict_get (fs_files s2) (container_path pt r n) = Some f \<and> f_content f = concat chunks"
proof -
  let ?f = "\<lparr>f_content = concat chunks, f_mode = mode, f_mtime = fs_now s\<rparr>"
  let ?p = "path_join (host_dependency_cache_dir pt) n"
  define s1 where "s1 = s\<lparr>fs_files := dict_set ?p ?f (fs_files s)\<rparr>"
  have "dict_get (fs_files s) ?p = None" using assms(2) by (simp add: fs_isfile_def dict_has_iff)
  then have b1: "bring_from_cache gs gd pt r n False s = (Inl e, s1)"
    using assms(1,3,4,5) by (simp add: bring_from_cache_def cache_outdated_def update_cache_def fs_write_def s1_def)
  have ex: "fs_exists s1 (host_dependency_cache_dir pt)" "fs_exists s1 (get_host_storlet_dir pt (storlet_main r))"
    using assms(1,7) by (auto simp: fs_exists_def fs_isfile_def s1_def dict_has_iff)
  have nf: "\<not> fs_isfile s1 (container_path pt r n)" using assms(8,9) by (simp add: fs_isfile_def s1_def dict_has_iff)
  have "bring_from_cache gs gd' pt r n False s1 =
      (Inr True, s1\<lparr>fs_files := dict_set (container_path pt r n) ?f (fs_files s1)\<rparr>)"
    using ex nf assms(6) by (simp add: bring_from_cache_def cache_outdated_def fs_copy2_def s1_def)
  with b1 show ?thesis by (intro exI conjI) auto
qed

definition dep_fs :: fs where
  "dep_fs = \<lparr>fs_files = [], fs_dirs = [host_dependency_cache_dir sample_paths, get_host_storlet_dir sample_paths ''s.Main''],
     fs_now = 0\<rparr>"

theorem broken_dependency_is_delivered_witness:
  "\<exists>s1 s2 f. bring_from_cache sample_get (\<lambda>n. Inr (([''par''], Some StorletTimeout), [])) sample_paths sample_request ''d'' False
       dep_fs = (Inl StorletTimeout, s1) \<and>
     bring_from_cache sample_get sample_get sample_paths sample_request ''d'' False s1 = (Inr True, s2) \<and>
     dict_get (fs_files s2) (container_path sample_paths sample_request ''d'') = Some f \<and> f_content f = ''par''"
proof -
  have e: "fs_exists dep_fs (host_dependency_cache_dir sample_paths)"
    "fs_exists dep_fs (get_host_storlet_dir sample_paths (storlet_main sample_request))"
    by (simp_all add: dep_fs_def fs_exists_def sample_request_def)
  have f: "\<not> fs_isfile dep_fs p" for p by (simp add: dep_fs_def fs_isfile_def dict_has_def)
  have d: "cache_path sample_paths False ''d'' \<notin> set (fs_dirs dep_fs)"
    "container_path sample_paths sample_request ''d'' \<notin> set (fs_dirs dep_fs)"
    "container_path sample_paths sample_request ''d'' \<noteq> cache_path sample_paths False ''d''"
    by code_simp+
  show ?thesis
    using broken_dependency_is_delivered [OF e(1) f _ _ d(1,2) e(2) f d(3),
        where gd = "\<lambda>n. Inr (([''par''], Some StorletTimeout), [])" and chunks = "[''par'']" and e = StorletTimeout
          and perm = "[]" and mode = 384 and gd' = sample_get and gs = sample_get]
    by (simp add: object_mode_def)
qed

text \<open>Scopes are isolated: the pipes of two storlets coincide only when both the scope and the storlet do, for
  names that are single path components.\<close>

theorem pipes_isolated:
  assumes "get_host_storlet_pipe (RunTimePaths sc1 []) id1 = get_host_storlet_pipe (RunTimePaths sc2 []) id2"
    "CHR ''/'' \<notin> set sc1" "CHR ''/'' \<notin> set sc2" "CHR ''/'' \<notin> set id1" "CHR ''/'' \<notin> set id2"
    "sc1 \<noteq> []" "sc2 \<noteq> []" "id1 \<noteq> []" "id2 \<noteq> []"
  shows "sc1 = sc2 \<and> id1 = id2"
proof -
  let ?root = "''/var/lib/storlets/pipes/scopes''"
  have root: "host_pipe_root_dir (RunTimePaths sc []) = ?root" for sc
    by (simp add: RunTimePaths_def conf_get_def path_join_def startswith_def endswith_def Let_def)
  have ds: "\<not> endswith ?root ''/''" by (simp add: endswith_def)
  have d: "host_pipe_dir (RunTimePaths sc []) = ?root @ ''/'' @ sc" if "sc \<noteq> []" "CHR ''/'' \<notin> set sc" for sc
    using path_join_no_slash [OF that _ ds] root [of sc] by (simp add: host_pipe_dir_def RunTimePaths_def Let_def)
  have p: "get_host_storlet_pipe (RunTimePaths sc []) i = (?root @ ''/'' @ sc) @ ''/'' @ i"
    if "sc \<noteq> []" "CHR ''/'' \<notin> set sc" "i \<noteq> []" "CHR ''/'' \<notin> set i" for sc i
    unfolding get_host_storlet_pipe_def d [OF that(1,2)]
    using that no_end_slash [OF that(1,2), of "?root @ ''/''"] by (intro path_join_no_slash) auto
  have "(?root @ ''/'' @ sc1) @ ''/'' @ id1 = (?root @ ''/'' @ sc2) @ ''/'' @ id2"
    using assms by (metis p)
  from last_segment [OF this assms(4,5)] show ?thesis by auto
qed

theorem pipes_isolated_witness:
  "get_host_storlet_pipe (RunTimePaths ''a'' []) ''s'' \<noteq> get_host_storlet_pipe (RunTimePaths ''b'' []) ''s''"
  using pipes_isolated [of "''a''" "''s''" "''b''" "''s''"] by auto

end
