(* ===== verification/Sandbox.thy ===== *)
theory Sandbox
  imports Client Gateway
begin

text \<open>
  The sandbox of a scope (\<open>RunTimeSandbox\<close> of \<open>storlets/gateway/gateways/container/runtime.py\<close>)
  and its Docker and Podman variants: configuration, the restart of the container with the
  tenant's image or the default one, and the commands to the daemon factory inside it.

  The container engine is third-party code and appears as the record \<open>engine\<close> of the calls the
  sources make. How many pings fit into the waiting time is an input, \<open>budget\<close>: the timer is
  eventlet's. Logging is left out.
\<close>

section \<open>Configuration\<close>

record sandbox =
  sb_paths :: paths
  sb_scope :: string
  sandbox_ping_interval :: int
  sandbox_stop_timeout :: int
  sandbox_wait_timeout :: int
  container_image_namespace :: string
  storlet_daemon_thread_pool_size :: int
  storlet_daemon_factory_debug_level :: string
  storlet_daemon_debug_level :: string
  default_container_image_name :: string
  max_containers_per_node :: int
  container_cpu_period :: "int option"
  container_cpu_quota :: "int option"
  container_mem_limit :: "int option"
  container_cpuset_cpus :: "string option"
  container_cpuset_mems :: "string option"
  container_pids_limit :: "int option"

definition load_int_opt :: "string dict \<Rightarrow> string \<Rightarrow> int option res" where
  "load_int_opt conf k = (case dict_get conf k of None \<Rightarrow> Inr None | Some v \<Rightarrow> rbind (py_int v) (\<lambda>i. Inr (Some i)))"

text \<open>The values of a configuration file are strings, so \<open>int\<close> of one raises \<open>ValueError\<close>, never the
  \<open>TypeError\<close> that the code around \<open>container_mem_limit\<close> expects.\<close>

definition RunTimeSandbox :: "string \<Rightarrow> string dict \<Rightarrow> sandbox res" where
  "RunTimeSandbox scope conf =
     rbind (py_float (conf_get conf ''sandbox_ping_interval'' ''0.5'')) (\<lambda>ping_interval.
     rbind (py_float (conf_get conf ''stop_linux_container_timeout'' ''1'')) (\<lambda>stop_timeout.
     rbind (py_float (conf_get conf ''restart_linux_container_timeout'' ''10'')) (\<lambda>wait_timeout.
     rbind (py_int (conf_get conf ''storlet_daemon_thread_pool_size'' ''5'')) (\<lambda>pool.
     rbind (py_int (conf_get conf ''max_containers_per_node'' ''0'')) (\<lambda>max_containers.
     rbind (load_int_opt conf ''container_cpu_period'') (\<lambda>period.
     rbind (load_int_opt conf ''container_cpu_quota'') (\<lambda>quota.
     rbind (load_int_opt conf ''container_mem_limit'') (\<lambda>mem.
     rbind (load_int_opt conf ''container_pids_limit'') (\<lambda>pids.
       Inr \<lparr>sb_paths = RunTimePaths scope conf, sb_scope = scope, sandbox_ping_interval = ping_interval,
            sandbox_stop_timeout = stop_timeout, sandbox_wait_timeout = wait_timeout,
            container_image_namespace = conf_get conf ''docker_repo'' (conf_get conf ''container_image_namespace'' []),
            storlet_daemon_thread_pool_size = pool,
            storlet_daemon_factory_debug_level = conf_get conf ''storlet_daemon_factory_debug_level'' ''DEBUG'',
            storlet_daemon_debug_level = conf_get conf ''storlet_daemon_debug_level'' ''DEBUG'',
            default_container_image_name = conf_get conf ''default_docker_image_name''
              (conf_get conf ''default_container_image_name'' ''storlet_engine_image''),
            max_containers_per_node = max_containers, container_cpu_period = period, container_cpu_quota = quota,
            container_mem_limit = mem, container_cpuset_cpus = dict_get conf ''container_cpuset_cpus'',
            container_cpuset_mems = dict_get conf ''container_cpuset_mems'', container_pids_limit = pids\<rparr>)))))))))"

definition get_container_name :: "sandbox \<Rightarrow> string \<Rightarrow> string" where
  "get_container_name sb img = (if container_image_namespace sb \<noteq> []
     then container_image_namespace sb @ ''/'' @ img @ ''_'' @ sb_scope sb else img @ ''_'' @ sb_scope sb)"

definition get_container_command :: "sandbox \<Rightarrow> string \<Rightarrow> string list" where
  "get_container_command sb name = [sandbox_factory_pipe, storlet_daemon_factory_debug_level sb, name]"

definition get_container_entrypoint :: "string list" where
  "get_container_entrypoint = [path_join ''/usr/local/libexec/storlets'' ''storlets-daemon-factory'']"

definition get_container_environment :: "string dict" where
  "get_container_environment = [(''PYTHONPATH'', path_join ''/usr/local/lib/storlets'' ''python'')]"

record mount = mnt_source :: string  mnt_target :: string  mnt_read_only :: bool

definition get_mounts :: "sandbox \<Rightarrow> mount list" where
  "get_mounts sb =
     [\<lparr>mnt_source = ''/dev/log'', mnt_target = ''/dev/log'', mnt_read_only = False\<rparr>,
      \<lparr>mnt_source = host_pipe_dir (sb_paths sb), mnt_target = sandbox_pipe_dir, mnt_read_only = False\<rparr>,
      \<lparr>mnt_source = host_storlet_base_dir (sb_paths sb), mnt_target = sandbox_storlet_base_dir, mnt_read_only = False\<rparr>,
      \<lparr>mnt_source = ''/usr/local/lib/storlets'', mnt_target = ''/usr/local/lib/storlets'', mnt_read_only = True\<rparr>,
      \<lparr>mnt_source = ''/usr/local/libexec/storlets'', mnt_target = ''/usr/local/libexec/storlets'', mnt_read_only = True\<rparr>]"

section \<open>The container engine\<close>

text \<open>Errors of the engine's client library: \<open>NotFound\<close> and \<open>ImageNotFound\<close> are API errors; others
  (no connection) are not.\<close>

datatype api_error = ApiNotFound | ApiImageNotFound | ApiError | ApiOther

record run_args =
  ra_image :: string
  ra_name :: string
  ra_command :: "string list"
  ra_entrypoint :: "string list"
  ra_environment :: "string dict"
  ra_mounts :: "mount list"
  ra_mem_limit :: "int option"
  ra_cpu_period :: "int option"
  ra_cpu_quota :: "int option"
  ra_cpuset_cpus :: "string option"
  ra_cpuset_mems :: "string option"
  ra_pids_limit :: "int option"
  ra_detach :: bool
  ra_auto_remove :: bool
  ra_labels :: "string dict"
  ra_options :: "json dict"

text \<open>\<open>eng_from_env\<close> takes the environment the code passes, if any; \<open>eng_list\<close> the label filter.\<close>

record 'w engine =
  eng_from_env :: "string dict option \<Rightarrow> 'w \<Rightarrow> (api_error + unit) \<times> 'w"
  eng_get :: "string \<Rightarrow> 'w \<Rightarrow> (api_error + unit) \<times> 'w"
  eng_stop :: "string \<Rightarrow> int \<Rightarrow> 'w \<Rightarrow> (api_error + unit) \<times> 'w"
  eng_list :: "string \<Rightarrow> 'w \<Rightarrow> (api_error + string list) \<times> 'w"
  eng_run :: "run_args \<Rightarrow> 'w \<Rightarrow> (api_error + unit) \<times> 'w"

text \<open>What differs between the engines: the name in the error message, the environment of the client and the
  options of \<open>run\<close>. \<open>uid\<close> is \<open>os.getuid()\<close> and \<open>environ\<close> the process environment.\<close>

record engine_kind =
  ek_name :: string
  ek_env :: "string dict option"
  ek_options :: "json dict"

definition docker_kind :: "int \<Rightarrow> engine_kind" where
  "docker_kind uid = \<lparr>ek_name = ''Docker'', ek_env = None,
     ek_options = [(''network_disabled'', JBool True), (''user'', JInt uid), (''stop_signal'', JStr ''SIGHUP'')]\<rparr>"

definition podman_kind :: "string dict \<Rightarrow> string dict \<Rightarrow> engine_kind" where
  "podman_kind environ conf =
     (let socket_path = conf_get conf ''socket_path'' [] in
      \<lparr>ek_name = ''Podman'',
       ek_env = (if socket_path \<noteq> [] then Some (dict_set ''CONTAINER_HOST'' (''unix://'' @ socket_path) environ) else None),
       ek_options = [(''network_mode'', JStr ''none''), (''userns_mode'', JStr ''keep-id''), (''stop_signal'', JInt 1)]\<rparr>)"

definition run_args_of :: "engine_kind \<Rightarrow> sandbox \<Rightarrow> string \<Rightarrow> run_args" where
  "run_args_of kind sb img =
     (let name = get_container_name sb img in
      \<lparr>ra_image = img, ra_name = name, ra_command = get_container_command sb name,
       ra_entrypoint = get_container_entrypoint, ra_environment = get_container_environment,
       ra_mounts = get_mounts sb, ra_mem_limit = container_mem_limit sb, ra_cpu_period = container_cpu_period sb,
       ra_cpu_quota = container_cpu_quota sb, ra_cpuset_cpus = container_cpuset_cpus sb,
       ra_cpuset_mems = container_cpuset_mems sb, ra_pids_limit = container_pids_limit sb,
       ra_detach = True, ra_auto_remove = True, ra_labels = [(''managed_by'', ''storlets'')],
       ra_options = ek_options kind\<rparr>)"

text \<open>The \<open>try\<close> block of \<open>_restart\<close>: an API error, or the limit reached.\<close>

datatype restart_error = Api api_error | Limit

definition stop_existing :: "'w engine \<Rightarrow> sandbox \<Rightarrow> string \<Rightarrow> 'w \<Rightarrow> (restart_error + unit) \<times> 'w" where
  "stop_existing eng sb name w = (case eng_get eng name w of
     (Inl e, w1) \<Rightarrow> (if e = ApiNotFound \<or> e = ApiImageNotFound then Inr () else Inl (Api e), w1)
   | (Inr _, w1) \<Rightarrow> (case eng_stop eng name (sandbox_stop_timeout sb) w1 of
        (Inl e, w2) \<Rightarrow> (Inl (Api e), w2) | (Inr _, w2) \<Rightarrow> (Inr (), w2)))"

definition check_limit :: "'w engine \<Rightarrow> sandbox \<Rightarrow> 'w \<Rightarrow> (restart_error + unit) \<times> 'w" where
  "check_limit eng sb w = (if max_containers_per_node sb > 0 then
     (case eng_list eng ''managed_by=storlets'' w of
        (Inl e, w1) \<Rightarrow> (Inl (Api e), w1)
      | (Inr cs, w1) \<Rightarrow> (if int (length cs) \<ge> max_containers_per_node sb then Inl Limit else Inr (), w1))
     else (Inr (), w))"

definition restart_body :: "engine_kind \<Rightarrow> 'w engine \<Rightarrow> sandbox \<Rightarrow> string \<Rightarrow> 'w \<Rightarrow> (restart_error + unit) \<times> 'w" where
  "restart_body kind eng sb img w =
     (case eng_from_env eng (ek_env kind) w of
        (Inl e, w0) \<Rightarrow> (Inl (Api e), w0)
      | (Inr _, w0) \<Rightarrow>
        (case stop_existing eng sb (get_container_name sb img) w0 of
           (Inl e, w1) \<Rightarrow> (Inl e, w1)
         | (Inr _, w1) \<Rightarrow>
             (case check_limit eng sb w1 of
                (Inl e, w2) \<Rightarrow> (Inl e, w2)
              | (Inr _, w2) \<Rightarrow>
                  (case eng_run eng (run_args_of kind sb img) w2 of
                     (Inl e, w3) \<Rightarrow> (Inl (Api e), w3) | (Inr _, w3) \<Rightarrow> (Inr (), w3)))))"

text \<open>\<open>_restart\<close> of both engines.\<close>

definition engine_restart :: "engine_kind \<Rightarrow> 'w engine \<Rightarrow> sandbox \<Rightarrow> string \<Rightarrow> 'w \<Rightarrow> unit res \<times> 'w" where
  "engine_restart kind eng sb img w =
     (case restart_body kind eng sb img w of
        (Inr _, w') \<Rightarrow> (Inr (), w')
      | (Inl e, w') \<Rightarrow>
          (Inl (case e of
             Limit \<Rightarrow> StorletRuntimeException ''Cannot start a container because of limit''
           | Api ApiImageNotFound \<Rightarrow> StorletRuntimeException (''Image '' @ img @ '' is not found'')
           | Api ApiOther \<Rightarrow> PlainException ''engine''
           | Api _ \<Rightarrow> StorletRuntimeException (ek_name kind @ '' runtime error'')), w'))"

section \<open>Commands to the daemon factory\<close>

definition factory_client :: "sandbox \<Rightarrow> sbus_client" where
  "factory_client sb = SBusClient (host_factory_pipe (sb_paths sb))"

definition sb_ping :: "'w pipe_ops \<Rightarrow> sandbox \<Rightarrow> 'w \<Rightarrow> bool res \<times> 'w" where
  "sb_ping ops sb w = (case client_ping ops (factory_client sb) w of
     (Inr resp, w') \<Rightarrow> (Inr (truthy (rs_status resp)), w')
   | (Inl e, w') \<Rightarrow> (if is_SBusClientException e then Inr False else Inl e, w'))"

fun sb_wait :: "'w pipe_ops \<Rightarrow> sandbox \<Rightarrow> nat \<Rightarrow> 'w \<Rightarrow> unit res \<times> 'w" where
  "sb_wait ops sb 0 w = (Inl StorletTimeout, w)"
| "sb_wait ops sb (Suc budget) w = (case sb_ping ops sb w of
     (Inl e, w') \<Rightarrow> (Inl e, w')
   | (Inr up, w') \<Rightarrow> if up then (Inr (), w') else sb_wait ops sb budget w')"

text \<open>The calls of the \<open>os\<close> module on directories.\<close>

record 'w dir_ops =
  path_exists :: "string \<Rightarrow> 'w \<Rightarrow> bool"
  os_makedirs :: "string \<Rightarrow> int \<Rightarrow> 'w \<Rightarrow> (errno + unit) \<times> 'w"
  os_chmod :: "string \<Rightarrow> int \<Rightarrow> 'w \<Rightarrow> (errno + unit) \<times> 'w"

definition create_host_pipe_dir :: "'w dir_ops \<Rightarrow> paths \<Rightarrow> 'w \<Rightarrow> string res \<times> 'w" where
  "create_host_pipe_dir dops p w =
     (let path = host_pipe_dir p;
          (r, w1) = (if \<not> path_exists dops path w then os_makedirs dops path 511 w else (Inr (), w)) in
      case r of
        Inl e \<Rightarrow> (Inl (OSErrno e), w1)
      | Inr _ \<Rightarrow> (case os_chmod dops path 511 w1 of
                    (Inl e, w2) \<Rightarrow> (Inl (OSErrno e), w2) | (Inr _, w2) \<Rightarrow> (Inr path, w2)))"

text \<open>\<open>restart\<close>: the engine's \<open>_restart\<close> is an argument, as it is an abstract method in the code; \<open>budgets\<close> is the
  number of pings each wait has.\<close>

definition sb_restart ::
  "'w dir_ops \<Rightarrow> (string \<Rightarrow> 'w \<Rightarrow> unit res \<times> 'w) \<Rightarrow> 'w pipe_ops \<Rightarrow> sandbox \<Rightarrow> nat \<times> nat \<Rightarrow> 'w \<Rightarrow> unit res \<times> 'w" where
  "sb_restart dops restart1 ops sb budgets w =
     (case create_host_pipe_dir dops (sb_paths sb) w of
        (Inl e, w0) \<Rightarrow> (Inl e, w0)
      | (Inr _, w0) \<Rightarrow>
          (case (case restart1 (sb_scope sb) w0 of (Inl e, w1) \<Rightarrow> (Inl e, w1) | (Inr _, w1) \<Rightarrow> sb_wait ops sb (fst budgets) w1) of
             (Inr _, w2) \<Rightarrow> (Inr (), w2)
           | (Inl e, w2) \<Rightarrow>
               if e = StorletTimeout then (Inl e, w2)
               else if is_StorletRuntimeException e then
                 (case restart1 (default_container_image_name sb) w2 of
                    (Inl e', w3) \<Rightarrow> (Inl e', w3) | (Inr _, w3) \<Rightarrow> sb_wait ops sb (snd budgets) w3)
               else (Inl e, w2)))"

definition start_storlet_daemon ::
  "'w pipe_ops \<Rightarrow> sandbox \<Rightarrow> string \<Rightarrow> string \<Rightarrow> string \<Rightarrow> json \<Rightarrow> 'w \<Rightarrow> unit res \<times> 'w" where
  "start_storlet_daemon ops sb spath sid language version w =
     (case client_start_daemon ops (factory_client sb) (JStr (lower language)) (JStr spath) (JStr sid)
             (JStr (get_sbox_storlet_pipe sid)) (JStr (storlet_daemon_debug_level sb))
             (JInt (storlet_daemon_thread_pool_size sb)) version w of
        (Inr resp, w') \<Rightarrow>
          (if \<not> truthy (rs_status resp) then Inl (StorletRuntimeException ''Daemon start failed'') else Inr (), w')
      | (Inl e, w') \<Rightarrow> (Inl (if is_SBusClientException e then StorletRuntimeException ''Daemon start failed'' else e), w'))"

definition stop_storlet_daemon :: "'w pipe_ops \<Rightarrow> sandbox \<Rightarrow> string \<Rightarrow> 'w \<Rightarrow> unit res \<times> 'w" where
  "stop_storlet_daemon ops sb sid w =
     (case client_stop_daemon ops (factory_client sb) (JStr sid) w of
        (Inr resp, w') \<Rightarrow>
          (if \<not> truthy (rs_status resp) then Inl (StorletRuntimeException ''Daemon stop failed'') else Inr (), w')
      | (Inl e, w') \<Rightarrow> (Inl (if is_SBusClientException e then StorletRuntimeException ''Daemon stop failed'' else e), w'))"

definition get_storlet_daemon_status :: "'w pipe_ops \<Rightarrow> sandbox \<Rightarrow> string \<Rightarrow> 'w \<Rightarrow> bool res \<times> 'w" where
  "get_storlet_daemon_status ops sb sid w =
     (case client_daemon_status ops (factory_client sb) (JStr sid) w of
        (Inr resp, w') \<Rightarrow> (Inr (truthy (rs_status resp)), w')
      | (Inl e, w') \<Rightarrow> (Inl (if is_SBusClientException e
           then StorletRuntimeException ''Failed to get status about storlet daemon'' else e), w'))"

definition get_storlet_classpath :: "string \<Rightarrow> string \<Rightarrow> string list \<Rightarrow> string" where
  "get_storlet_classpath main sid deps =
     path_join (get_sbox_storlet_dir main) sid @ '':'' @ join_with '':'' (map (path_join (get_sbox_storlet_dir main)) deps)"

definition activate_storlet_daemon ::
  "('w \<Rightarrow> unit res \<times> 'w) \<Rightarrow> 'w pipe_ops \<Rightarrow> sandbox \<Rightarrow> container_request \<Rightarrow> bool \<Rightarrow> 'w \<Rightarrow> unit res \<times> 'w" where
  "activate_storlet_daemon restart2 ops sb sreq cache_updated w =
     (let main = storlet_main sreq;
          (running, w1) = (case get_storlet_daemon_status ops sb main w of
             (Inr b, w') \<Rightarrow> (Inr b, w')
           | (Inl e, w') \<Rightarrow> if is_StorletRuntimeException e
                then (case restart2 w' of (r, w'') \<Rightarrow> (rbind r (\<lambda>_. Inr False), w'')) else (Inl e, w'));
          (running2, w2) = (case running of
             Inl e \<Rightarrow> (Inl e, w1)
           | Inr b \<Rightarrow>
               if cache_updated \<and> b then
                 (case stop_storlet_daemon ops sb main w1 of
                    (Inr _, w') \<Rightarrow> (Inr False, w')
                  | (Inl e, w') \<Rightarrow> if is_StorletRuntimeException e
                       then (case restart2 w' of (r, w'') \<Rightarrow> (rbind r (\<lambda>_. Inr False), w'')) else (Inl e, w'))
               else (Inr b, w1))
      in case running2 of
           Inl e \<Rightarrow> (Inl e, w2)
         | Inr b \<Rightarrow> if b then (Inr (), w2)
             else start_storlet_daemon ops sb
                    (get_storlet_classpath main (storlet_id (cr_request sreq)) (dependencies sreq))
                    main (storlet_language sreq) (storlet_language_version sreq) w2)"

section \<open>The engine's contract\<close>

text \<open>What the code relies on of the container engine, for a view \<open>run\<close> of the managed containers that run: only
  \<open>run\<close> adds one, at most the requested one and only when it succeeds; \<open>list\<close> with the label shows at least the
  running ones; containers may end at any time by themselves.\<close>

definition engine_contract :: "'w engine \<Rightarrow> ('w \<Rightarrow> string list) \<Rightarrow> bool" where
  "engine_contract eng run \<longleftrightarrow>
     (\<forall>env w r w'. eng_from_env eng env w = (r, w') \<longrightarrow> length (run w') \<le> length (run w)) \<and>
     (\<forall>n w r w'. eng_get eng n w = (r, w') \<longrightarrow> length (run w') \<le> length (run w)) \<and>
     (\<forall>n t w r w'. eng_stop eng n t w = (r, w') \<longrightarrow> length (run w') \<le> length (run w)) \<and>
     (\<forall>l w r w'. eng_list eng l w = (r, w') \<longrightarrow> length (run w') \<le> length (run w)) \<and>
     (\<forall>l w cs w'. eng_list eng l w = (Inr cs, w') \<longrightarrow> length (run w') \<le> length cs) \<and>
     (\<forall>a w e w'. eng_run eng a w = (Inl e, w') \<longrightarrow> length (run w') \<le> length (run w)) \<and>
     (\<forall>a w u w'. eng_run eng a w = (Inr u, w') \<longrightarrow> length (run w') \<le> Suc (length (run w)) \<and> ra_name a \<in> set (run w'))"

lemma engine_contractD:
  assumes "engine_contract eng run"
  shows "eng_from_env eng env w = (r, w') \<Longrightarrow> length (run w') \<le> length (run w)"
    and "eng_get eng n w = (r, w') \<Longrightarrow> length (run w') \<le> length (run w)"
    and "eng_stop eng n t w = (r, w') \<Longrightarrow> length (run w') \<le> length (run w)"
    and "eng_list eng l w = (rl, w') \<Longrightarrow> length (run w') \<le> length (run w)"
    and "eng_list eng l w = (Inr cs, w') \<Longrightarrow> length (run w') \<le> length cs"
    and "eng_run eng a w = (Inl e, w') \<Longrightarrow> length (run w') \<le> length (run w)"
    and "eng_run eng a w = (Inr u, w') \<Longrightarrow> length (run w') \<le> Suc (length (run w))"
    and "eng_run eng a w = (Inr u, w') \<Longrightarrow> ra_name a \<in> set (run w')"
  using assms by (simp_all add: engine_contract_def)

lemma stop_existing_shrinks:
  assumes "engine_contract eng run" "stop_existing eng sb name w = (r, w')"
  shows "length (run w') \<le> length (run w)"
  using assms(2) engine_contractD(2,3) [OF assms(1)]
  by (fastforce simp: stop_existing_def split: prod.splits sum.splits if_splits dest: le_trans)

lemma check_limit_passes:
  assumes "engine_contract eng run" "check_limit eng sb w = (r, w')" "0 < max_containers_per_node sb"
  shows "length (run w') \<le> length (run w)"
    and "r = Inr () \<Longrightarrow> int (length (run w')) < max_containers_per_node sb"
  using assms(2,3) engine_contractD(4,5) [OF assms(1)]
  by (fastforce simp: check_limit_def split: prod.splits sum.splits if_splits)+

section \<open>Waiting and activation\<close>

lemma sb_wait_ping: "sb_wait ops sb n w = (Inr (), w') \<Longrightarrow> \<exists>w1. sb_ping ops sb w1 = (Inr True, w')"
  by (induction n arbitrary: w) (auto split: prod.splits sum.splits if_splits)

lemma sb_wait_budget:
  "sb_wait ops sb n w = (Inr (), w') \<Longrightarrow> n \<le> m \<Longrightarrow> sb_wait ops sb m w = (Inr (), w')"
proof (induction n arbitrary: w m)
  case (Suc n)
  then show ?case by (cases m) (auto split: prod.splits sum.splits if_splits)
qed simp

text \<open>The attempt with one image: the engine's restart, then the wait.\<close>

definition start_and_wait ::
  "(string \<Rightarrow> 'w \<Rightarrow> unit res \<times> 'w) \<Rightarrow> 'w pipe_ops \<Rightarrow> sandbox \<Rightarrow> nat \<Rightarrow> string \<Rightarrow> 'w \<Rightarrow> unit res \<times> 'w" where
  "start_and_wait restart1 ops sb budget img w = (case restart1 img w of
     (Inl e, w1) \<Rightarrow> (Inl e, w1) | (Inr _, w1) \<Rightarrow> sb_wait ops sb budget w1)"

lemma start_and_wait_Inr:
  assumes "start_and_wait restart1 ops sb n img w = (Inr u, w')"
  shows "\<exists>w1 w2. restart1 img w = (Inr (), w1) \<and> sb_ping ops sb w2 = (Inr True, w')"
  using assms sb_wait_ping by (fastforce simp: start_and_wait_def split: prod.splits sum.splits)

lemma sb_restart_alt:
  "sb_restart dops restart1 ops sb budgets w = (case create_host_pipe_dir dops (sb_paths sb) w of
     (Inl e, w0) \<Rightarrow> (Inl e, w0)
   | (Inr _, w0) \<Rightarrow> (case start_and_wait restart1 ops sb (fst budgets) (sb_scope sb) w0 of
        (Inr _, w2) \<Rightarrow> (Inr (), w2)
      | (Inl e, w2) \<Rightarrow> if e \<noteq> StorletTimeout \<and> is_StorletRuntimeException e
          then start_and_wait restart1 ops sb (snd budgets) (default_container_image_name sb) w2 else (Inl e, w2)))"
  by (auto simp: sb_restart_def start_and_wait_def split: prod.splits sum.splits)

text \<open>After an update of the cache, success means a fresh daemon.\<close>

lemma activated_fresh:
  assumes "activate_storlet_daemon restart2 ops sb sreq True w = (Inr (), w')"
  shows "\<exists>w1 w2. start_storlet_daemon ops sb
      (get_storlet_classpath (storlet_main sreq) (storlet_id (cr_request sreq)) (dependencies sreq))
      (storlet_main sreq) (storlet_language sreq) (storlet_language_version sreq) w2 = (Inr (), w') \<and>
    (get_storlet_daemon_status ops sb (storlet_main sreq) w1 = (Inr False, w2) \<or>
     stop_storlet_daemon ops sb (storlet_main sreq) w1 = (Inr (), w2) \<or> restart2 w1 = (Inr (), w2))"
  using assms
  by (auto simp: activate_storlet_daemon_def Let_def rbind_Inr_iff split: prod.splits sum.splits if_splits)


section \<open>Properties\<close>


definition sample_engine :: "string list engine" where
  "sample_engine = \<lparr>eng_from_env = (\<lambda>env w. (Inr (), w)),
     eng_get = (\<lambda>n w. (if n \<in> set w then Inr () else Inl ApiNotFound, w)),
     eng_stop = (\<lambda>n t w. (Inr (), removeAll n w)), eng_list = (\<lambda>l w. (Inr w, w)),
     eng_run = (\<lambda>a w. (Inr (), w @ [ra_name a]))\<rparr>"

definition sample_sandbox :: sandbox where
  "sample_sandbox = (case RunTimeSandbox ''sc'' [(''max_containers_per_node'', ''1'')] of Inr sb \<Rightarrow> sb | Inl _ \<Rightarrow> undefined)"

lemma sample_sandbox_fields: "max_containers_per_node sample_sandbox = 1" "sb_scope sample_sandbox = ''sc''"
  "default_container_image_name sample_sandbox = ''storlet_engine_image''"
  "get_container_name sample_sandbox ''img'' = ''img_sc''"
  by code_simp+

lemma sample_engine_contract: "engine_contract sample_engine (\<lambda>w. w)"
  by (simp add: engine_contract_def sample_engine_def)



text \<open>A factory that answers every request with success, for the concrete inputs below: the state is what is
  left of the reply.\<close>

definition yes_ops :: "string pipe_ops" where
  "yes_ops = \<lparr>os_pipe = (\<lambda>w. (Inr (10, 11), w)),
     sbus_send_msg = (\<lambda>n a w. (0, ''{'' @ [dquote] @ ''status'' @ [dquote] @ '': true, '' @ [dquote] @ ''message'' @ [dquote] @ '': 1}'')),
     os_read = (\<lambda>fd n w. (Inr (take n w), drop n w)), pipe_close = (\<lambda>fd w. (Inr (), w))\<rparr>"

definition yes_dirs :: "string dir_ops" where
  "yes_dirs = \<lparr>path_exists = (\<lambda>p w. False), os_makedirs = (\<lambda>p m w. (Inr (), w)), os_chmod = (\<lambda>p m w. (Inr (), w))\<rparr>"


text \<open>A memory limit with a unit, which the comment in the code allows, makes the sandbox unusable: the conversion
  raises \<open>ValueError\<close> and only \<open>TypeError\<close> is caught.\<close>

theorem memory_limit_unit_rejected:
  "\<exists>m. RunTimeSandbox scope [(''container_mem_limit'', ''1024m'')] = Inl (ValueError m)"
proof -
  have f: "py_float ''0.5'' = Inr 500000000" "py_float ''1'' = Inr 1000000000" "py_float ''10'' = Inr 10000000000"
    "py_int ''5'' = Inr 5" "py_int ''0'' = Inr 0" by code_simp+
  have "case py_int ''1024m'' of Inl (ValueError m) \<Rightarrow> True | _ \<Rightarrow> False" by code_simp
  then obtain m where "py_int ''1024m'' = Inl (ValueError m)" by (auto split: sum.splits py_exc.splits)
  then show ?thesis by (simp add: RunTimeSandbox_def conf_get_def dict_get_def load_int_opt_def f)
qed

text \<open>C30: After the cached storlet changed, an activation that returns has started a fresh daemon as its last step, and
  before it the old one was found not to run, was stopped, or its whole container was restarted.\<close>

theorem updated_storlet_gets_fresh_daemon:
  assumes "activate_storlet_daemon restart2 ops sb sreq True w = (Inr (), w')"
  shows "\<exists>w1 w2. start_storlet_daemon ops sb
      (get_storlet_classpath (storlet_main sreq) (storlet_id (cr_request sreq)) (dependencies sreq))
      (storlet_main sreq) (storlet_language sreq) (storlet_language_version sreq) w2 = (Inr (), w') \<and>
    (get_storlet_daemon_status ops sb (storlet_main sreq) w1 = (Inr False, w2) \<or>
     stop_storlet_daemon ops sb (storlet_main sreq) w1 = (Inr (), w2) \<or> restart2 w1 = (Inr (), w2))"
  by (rule activated_fresh [OF assms])

theorem updated_storlet_gets_fresh_daemon_witness:
  "activate_storlet_daemon (\<lambda>w. (Inr (), w)) yes_ops sample_sandbox sample_request True [] = (Inr (), []) \<and>
   (\<exists>w2. start_storlet_daemon yes_ops sample_sandbox
      (get_storlet_classpath (storlet_main sample_request) (storlet_id (cr_request sample_request)) (dependencies sample_request))
      (storlet_main sample_request) (storlet_language sample_request) (storlet_language_version sample_request) w2 = (Inr (), []))"
proof -
  have "activate_storlet_daemon (\<lambda>w. (Inr (), w)) yes_ops sample_sandbox sample_request True [] = (Inr (), [])" by code_simp
  from this updated_storlet_gets_fresh_daemon [OF this] show ?thesis by blast
qed

end
