(* ===== verification/Effects.thy ===== *)
theory Effects
  imports Prelude
begin

text \<open>
  Sequences of steps that may raise: a computation maps a state to a result and a new state.
  \<open>ebind\<close>, \<open>etry\<close> and \<open>efinally\<close> are the statements \<open>;\<close>, \<open>try ... except\<close> and
  \<open>try ... finally\<close> of the sources. Specifications are triples with one postcondition for the
  normal and one for the exceptional exit; the rules in \<open>etriple\<close> reduce a triple of a composed
  computation to triples of its parts.
\<close>

section \<open>Statements\<close>

type_synonym ('s, 'a) eff = "'s \<Rightarrow> 'a res \<times> 's"

definition ereturn :: "'a \<Rightarrow> ('s, 'a) eff" where "ereturn x s = (Inr x, s)"

definition eraise :: "py_exc \<Rightarrow> ('s, 'a) eff" where "eraise e s = (Inl e, s)"

definition ebind :: "('s, 'a) eff \<Rightarrow> ('a \<Rightarrow> ('s, 'b) eff) \<Rightarrow> ('s, 'b) eff" where
  "ebind m f s = (case m s of (Inl e, s') \<Rightarrow> (Inl e, s') | (Inr x, s') \<Rightarrow> f x s')"

text \<open>The handler receives the exception and raises it again when the clause does not match.\<close>

definition etry :: "('s, 'a) eff \<Rightarrow> (py_exc \<Rightarrow> ('s, 'a) eff) \<Rightarrow> ('s, 'a) eff" where
  "etry m h s = (case m s of (Inl e, s') \<Rightarrow> h e s' | (Inr x, s') \<Rightarrow> (Inr x, s'))"

text \<open>An exception of the cleanup replaces the pending outcome; a body that never ends has no cleanup.\<close>

definition efinally :: "('s, 'a) eff \<Rightarrow> ('s, unit) eff \<Rightarrow> ('s, 'a) eff" where
  "efinally m c s = (case m s of (r, s') \<Rightarrow> if r = Inl Diverges then (r, s') else
     (case c s' of (Inl e, s'') \<Rightarrow> (Inl e, s'') | (Inr _, s'') \<Rightarrow> (r, s'')))"

definition eres :: "'a res \<Rightarrow> ('s, 'a) eff" where "eres r s = (r, s)"

text \<open>Loops over a list.\<close>

fun eiter :: "('a \<Rightarrow> ('s, unit) eff) \<Rightarrow> 'a list \<Rightarrow> ('s, unit) eff" where
  "eiter f [] = ereturn ()"
| "eiter f (x # xs) = ebind (f x) (\<lambda>_. eiter f xs)"

text \<open>A state with an object and the world it acts on.\<close>

definition eget :: "('i \<Rightarrow> 'a) \<Rightarrow> ('i \<times> 'w, 'a) eff" where "eget f s = (Inr (f (fst s)), s)"

definition emodify :: "('i \<Rightarrow> 'i) \<Rightarrow> ('i \<times> 'w, unit) eff" where "emodify f s = (Inr (), (f (fst s), snd s))"

definition eworld :: "('w \<Rightarrow> 'a res \<times> 'w) \<Rightarrow> ('i \<times> 'w, 'a) eff" where
  "eworld f s = (case f (snd s) of (r, w) \<Rightarrow> (r, (fst s, w)))"

text \<open>A system call: its error number becomes \<open>OSError\<close>.\<close>

definition esys :: "('w \<Rightarrow> (errno + 'a) \<times> 'w) \<Rightarrow> ('i \<times> 'w, 'a) eff" where
  "esys f s = (case f (snd s) of (Inl e, w) \<Rightarrow> (Inl (OSErrno e), (fst s, w)) | (Inr x, w) \<Rightarrow> (Inr x, (fst s, w)))"

lemmas eff_defs = ereturn_def eraise_def ebind_def etry_def efinally_def eres_def eget_def emodify_def eworld_def esys_def

lemma ebind_simps [simp]:
  "ebind (eres (Inr x)) f = f x" "ebind (eres (Inl e)) f = eraise e" "ebind (ereturn x) f = f x" "ebind (eraise e) f = eraise e"
  by (auto simp: eff_defs fun_eq_iff)

section \<open>Triples\<close>

definition triple :: "('s \<Rightarrow> bool) \<Rightarrow> ('s, 'a) eff \<Rightarrow> ('a \<Rightarrow> 's \<Rightarrow> bool) \<Rightarrow> (py_exc \<Rightarrow> 's \<Rightarrow> bool) \<Rightarrow> bool" where
  "triple P m Q E \<longleftrightarrow> (\<forall>s. P s \<longrightarrow> (case m s of (Inr x, s') \<Rightarrow> Q x s' | (Inl e, s') \<Rightarrow> E e s'))"

named_theorems etriple "rules that decompose a triple along the statements"

lemma tripleI:
  "(\<And>s x s'. P s \<Longrightarrow> m s = (Inr x, s') \<Longrightarrow> Q x s') \<Longrightarrow> (\<And>s e s'. P s \<Longrightarrow> m s = (Inl e, s') \<Longrightarrow> E e s') \<Longrightarrow>
   triple P m Q E"
  by (auto simp: triple_def split: prod.splits sum.splits)

lemma tripleD1: "triple P m Q E \<Longrightarrow> P s \<Longrightarrow> m s = (Inr x, s') \<Longrightarrow> Q x s'"
  by (fastforce simp: triple_def split: prod.splits sum.splits)

lemma tripleD2: "triple P m Q E \<Longrightarrow> P s \<Longrightarrow> m s = (Inl e, s') \<Longrightarrow> E e s'"
  by (fastforce simp: triple_def split: prod.splits sum.splits)

lemma triple_weaken:
  assumes "triple P' m Q' E'" "\<And>s. P s \<Longrightarrow> P' s" "\<And>x s. Q' x s \<Longrightarrow> Q x s" "\<And>e s. E' e s \<Longrightarrow> E e s"
  shows "triple P m Q E"
  using assms(2-4) tripleD1 [OF assms(1)] tripleD2 [OF assms(1)] by (blast intro: tripleI)

lemma triple_pre: "triple P' m Q E \<Longrightarrow> (\<And>s. P s \<Longrightarrow> P' s) \<Longrightarrow> triple P m Q E"
  by (erule triple_weaken) auto

lemma triple_return: "(\<And>s. P s \<Longrightarrow> Q x s) \<Longrightarrow> triple P (ereturn x) Q E"
  by (simp add: triple_def ereturn_def)

lemma triple_raise: "(\<And>s. P s \<Longrightarrow> E e s) \<Longrightarrow> triple P (eraise e) Q E"
  by (simp add: triple_def eraise_def)

lemma triple_res: "(\<And>x s. r = Inr x \<Longrightarrow> P s \<Longrightarrow> Q x s) \<Longrightarrow> (\<And>e s. r = Inl e \<Longrightarrow> P s \<Longrightarrow> E e s) \<Longrightarrow> triple P (eres r) Q E"
  by (auto intro!: tripleI simp: eres_def)

lemma triple_bind [etriple]:
  assumes "triple P m R E" "\<And>x. triple (R x) (f x) Q E"
  shows "triple P (ebind m f) Q E"
proof (rule tripleI)
  show "Q x s'" if "P s" "ebind m f s = (Inr x, s')" for s x s'
    using that tripleD1 [OF assms(1)] tripleD1 [OF assms(2)]
    by (fastforce simp: ebind_def split: prod.splits sum.splits)
  show "E e s'" if "P s" "ebind m f s = (Inl e, s')" for s e s'
    using that tripleD1 [OF assms(1)] tripleD2 [OF assms(1)] tripleD2 [OF assms(2)]
    by (fastforce simp: ebind_def split: prod.splits sum.splits)
qed

lemma triple_try [etriple]:
  assumes "triple P m Q R" "\<And>e. triple (R e) (h e) Q E"
  shows "triple P (etry m h) Q E"
proof (rule tripleI)
  show "Q x s'" if "P s" "etry m h s = (Inr x, s')" for s x s'
    using that tripleD1 [OF assms(1)] tripleD2 [OF assms(1)] tripleD1 [OF assms(2)]
    by (fastforce simp: etry_def split: prod.splits sum.splits)
  show "E e s'" if "P s" "etry m h s = (Inl e, s')" for s e s'
    using that tripleD2 [OF assms(1)] tripleD2 [OF assms(2)]
    by (fastforce simp: etry_def split: prod.splits sum.splits)
qed

text \<open>The cleanup must lead from the two exits of the body to the two exits of the whole, and its own exception to
  the exceptional exit.\<close>

lemma triple_finally [etriple]:
  assumes "triple P m Q' E'" "\<And>x. triple (Q' x) c (\<lambda>_. Q x) E" "\<And>e. e \<noteq> Diverges \<Longrightarrow> triple (E' e) c (\<lambda>_. E e) E"
    "\<And>s. E' Diverges s \<Longrightarrow> E Diverges s"
  shows "triple P (efinally m c) Q E"
proof (rule tripleI)
  show "Q x s'" if "P s" "efinally m c s = (Inr x, s')" for s x s'
    using that tripleD1 [OF assms(1)] tripleD1 [OF assms(2)]
    by (fastforce simp: efinally_def split: prod.splits sum.splits if_splits)
  fix s e s'
  assume s: "P s" and f: "efinally m c s = (Inl e, s')"
  obtain r s1 where m: "m s = (r, s1)" by fastforce
  show "E e s'"
  proof (cases r)
    case (Inr x)
    then have "c s1 = (Inl e, s')" using f m by (auto simp: efinally_def split: prod.splits sum.splits)
    then show ?thesis using tripleD2 [OF assms(2)] tripleD1 [OF assms(1) s] m Inr by blast
  next
    case (Inl e0)
    then have "E' e0 s1" using tripleD2 [OF assms(1) s] m by blast
    then show ?thesis using f m Inl assms(4) tripleD1 [OF assms(3)] tripleD2 [OF assms(3)]
      by (fastforce simp: efinally_def split: prod.splits sum.splits if_splits)
  qed
qed

lemma triple_noexc: "triple P m Q (\<lambda>_ _. False) \<Longrightarrow> triple P m Q E"
  by (erule triple_weaken) auto

lemma triple_ex: "(\<And>x. triple (P x) m Q E) \<Longrightarrow> triple (\<lambda>s. \<exists>x. P x s) m Q E"
  by (rule tripleI) (metis tripleD1, metis tripleD2)

lemma triple_conj: "(b \<Longrightarrow> triple P m Q E) \<Longrightarrow> triple (\<lambda>s. b \<and> P s) m Q E"
  by (auto simp: triple_def)

lemma triple_disj: "triple P m Q E \<Longrightarrow> triple P' m Q E \<Longrightarrow> triple (\<lambda>s. P s \<or> P' s) m Q E"
  by (auto simp: triple_def)

lemma triple_get: "triple P (eget f) (\<lambda>x s. P s \<and> x = f (fst s)) E"
  by (simp add: triple_def eget_def)

lemma triple_get_bind: "(\<And>s. P s \<Longrightarrow> fst s = i) \<Longrightarrow> triple P (f (g i)) Q E \<Longrightarrow> triple P (ebind (eget g) f) Q E"
  by (auto simp: triple_def ebind_def eget_def)

lemma triple_modify: "(\<And>i w. P (i, w) \<Longrightarrow> Q () (f i, w)) \<Longrightarrow> triple P (emodify f) Q E"
  by (simp add: triple_def emodify_def)

lemma triple_if [etriple]:
  "(b \<Longrightarrow> triple P m Q E) \<Longrightarrow> (\<not> b \<Longrightarrow> triple P m' Q E) \<Longrightarrow> triple P (if b then m else m') Q E"
  by simp

lemma triple_world:
  assumes "\<And>i w x w'. P (i, w) \<Longrightarrow> f w = (Inr x, w') \<Longrightarrow> Q x (i, w')"
    and "\<And>i w e w'. P (i, w) \<Longrightarrow> f w = (Inl e, w') \<Longrightarrow> E e (i, w')"
  shows "triple P (eworld f) Q E"
  using assms by (auto simp: triple_def eworld_def split: prod.splits sum.splits)

lemma triple_sys:
  assumes "\<And>i w x w'. P (i, w) \<Longrightarrow> f w = (Inr x, w') \<Longrightarrow> Q x (i, w')"
    and "\<And>i w e w'. P (i, w) \<Longrightarrow> f w = (Inl e, w') \<Longrightarrow> E (OSErrno e) (i, w')"
  shows "triple P (esys f) Q E"
  using assms by (auto simp: triple_def esys_def split: prod.splits sum.splits)

text \<open>An invariant of the list still to be processed.\<close>

lemma triple_iter:
  assumes "\<And>x xs. triple (I (x # xs)) (f x) (\<lambda>_. I xs) E"
  shows "triple (I xs) (eiter f xs) (\<lambda>_. I []) E"
  by (induction xs) (auto intro: triple_return triple_bind assms)

end
