(* ===== verification/Invocation.thy ===== *)
theory Invocation
  imports Sandbox Effects
begin

text \<open>
  One run of a storlet as the gateway drives it (\<open>StorletInvocationProtocol\<close> of
  \<open>storlets/gateway/gateways/container/runtime.py\<close> with the log file of
  \<open>storlets/gateway/common/logger.py\<close>): the pipes of the run, the execute command to the storlet
  daemon, the writers of the input, the metadata and the descriptor of the output.

  Every operation is a computation (\<open>Effects\<close>) on the protocol object and the world. The calls of
  the operating system are the record \<open>inv_ops\<close>; a timer that fires shows as \<open>StorletTimeout\<close> of
  the call it interrupts. A writer runs in a green thread of its own: \<open>spawn_writer\<close> hands the
  descriptor over, and \<open>write_input_data\<close> is what the thread does. Messages to the log are left out.
\<close>

section \<open>The log file\<close>

record glogger =
  log_path :: string
  lg_file :: "int option"

record 'w inv_ops =
  io :: "'w pipe_ops"
  dirs :: "'w dir_ops"
  open_append :: "string \<Rightarrow> 'w \<Rightarrow> (errno + int) \<times> 'w"
  select_read :: "int \<Rightarrow> 'w \<Rightarrow> int list res \<times> 'w"
  select_write :: "int \<Rightarrow> 'w \<Rightarrow> int list res \<times> 'w"
  spawn_writer :: "int \<Rightarrow> data_source \<Rightarrow> 'w \<Rightarrow> 'w"

text \<open>\<open>os.path.dirname\<close>.\<close>

definition path_dirname :: "string \<Rightarrow> string" where
  "path_dirname p = (let h = rev (dropWhile (\<lambda>c. c \<noteq> CHR ''/'') (rev p)) in
     if list_all (\<lambda>c. c = CHR ''/'') h then h else rev (dropWhile (\<lambda>c. c = CHR ''/'') (rev h)))"

section \<open>The protocol object\<close>

record extra_source =
  xs_read_fd :: "int option"
  xs_write_fd :: "int option"
  xs_user_metadata :: json
  xs_data_iter :: data_source

record invocation =
  srequest :: container_request
  storlet_pipe_path :: string
  storlet_logger :: glogger
  data_read_fd :: "int option"
  data_write_fd :: "int option"
  metadata_read_fd :: "int option"
  metadata_write_fd :: "int option"
  inv_task_id :: json
  own_input_read_fd :: "int option"
  own_input_write_fd :: "int option"
  extra_data_sources :: "extra_source list"

abbreviation inv_data :: "invocation \<Rightarrow> storlet_data" where "inv_data i \<equiv> sr_data (cr_request (srequest i))"

definition make_extra_source :: "storlet_data \<Rightarrow> extra_source res" where
  "make_extra_source d = (if has_fd d then Inl (PlainException ''extra_source no requires data_fd just data_iter'')
     else rbind (data_iter d) (\<lambda>it.
       Inr \<lparr>xs_read_fd = None, xs_write_fd = None, xs_user_metadata = user_metadata d, xs_data_iter = it\<rparr>))"

definition StorletInvocationProtocol :: "container_request \<Rightarrow> string \<Rightarrow> string \<Rightarrow> invocation res" where
  "StorletInvocationProtocol sreq pipe_path logger_path =
     rbind (mapM make_extra_source (extra_data_list (cr_request sreq))) (\<lambda>xs.
       Inr \<lparr>srequest = sreq, storlet_pipe_path = pipe_path,
            storlet_logger = \<lparr>log_path = logger_path, lg_file = None\<rparr>,
            data_read_fd = None, data_write_fd = None, metadata_read_fd = None, metadata_write_fd = None,
            inv_task_id = JNull, own_input_read_fd = None, own_input_write_fd = None,
            extra_data_sources = xs\<rparr>)"

type_synonym ('w, 'a) inv_eff = "(invocation \<times> 'w, 'a) eff"

definition set_log_file :: "int option \<Rightarrow> ('w, unit) inv_eff" where
  "set_log_file f = emodify (\<lambda>i. i\<lparr>storlet_logger := (storlet_logger i)\<lparr>lg_file := f\<rparr>\<rparr>)"

definition log_open :: "'w inv_ops \<Rightarrow> ('w, unit) inv_eff" where
  "log_open ops =
     ebind (eget storlet_logger) (\<lambda>lg.
       if lg_file lg \<noteq> None then eraise (StorletLoggerError ''StorletLogger is already open'')
       else let d = path_dirname (log_path lg) in
         ebind (\<lambda>s. if \<not> path_exists (dirs ops) d (snd s) then esys (os_makedirs (dirs ops) d 448) s else ereturn () s) (\<lambda>_.
         ebind (esys (open_append ops (log_path lg))) (\<lambda>fd.
         ebind (set_log_file (Some fd)) (\<lambda>_.
           esys (os_chmod (dirs ops) (log_path lg) 384)))))"

definition log_getfd :: "('w, int) inv_eff" where
  "log_getfd = ebind (eget storlet_logger) (\<lambda>lg. case lg_file lg of
     None \<Rightarrow> eraise (StorletLoggerError ''StorletLogger is not open'') | Some fd \<Rightarrow> ereturn fd)"

definition log_close :: "'w inv_ops \<Rightarrow> ('w, unit) inv_eff" where
  "log_close ops = ebind (eget storlet_logger) (\<lambda>lg. case lg_file lg of
     None \<Rightarrow> eraise (StorletLoggerError ''StorletLogger is not open'')
   | Some fd \<Rightarrow> ebind (esys (pipe_close (io ops) fd)) (\<lambda>_. set_log_file None))"

definition log_activate :: "'w inv_ops \<Rightarrow> ('w, 'a) inv_eff \<Rightarrow> ('w, 'a) inv_eff" where
  "log_activate ops body = ebind (log_open ops) (\<lambda>_. efinally body (log_close ops))"

section \<open>Descriptors\<close>

definition input_data_read_fd :: "invocation \<Rightarrow> int option" where
  "input_data_read_fd i = (if has_fd (inv_data i) then data_fd (inv_data i) else own_input_read_fd i)"

text \<open>A descriptor that is still \<open>None\<close> where a number is needed.\<close>

definition fd_arg :: "int option \<Rightarrow> int res" where
  "fd_arg x = (case x of None \<Rightarrow> Inl (TypeError ''an integer is required'') | Some fd \<Rightarrow> Inr fd)"

definition range_metadata :: "container_request \<Rightarrow> json dict" where
  "range_metadata r = (if has_range r
     then [(''start'', JStr (str_of_json (cr_start r))), (''end'', JStr (str_of_json (cr_end r)))] else [])"

definition remote_fds :: "('w, sfd list) inv_eff" where
  "remote_fds =
     ebind (eget id) (\<lambda>i.
     ebind (eres (fd_arg (input_data_read_fd i))) (\<lambda>in_fd.
     ebind (eres (fd_arg (data_write_fd i))) (\<lambda>out_fd.
     ebind (eres (fd_arg (metadata_write_fd i))) (\<lambda>md_fd.
     ebind log_getfd (\<lambda>lg_fd.
     ebind (eres (mapM (\<lambda>x. rbind (fd_arg (xs_read_fd x)) (\<lambda>fd.
         Inr (SBusFileDescriptor SBUS_FD_INPUT_OBJECT fd [] (xs_user_metadata x)))) (extra_data_sources i))) (\<lambda>extra.
       ereturn ([SBusFileDescriptor SBUS_FD_INPUT_OBJECT in_fd (range_metadata (srequest i)) (user_metadata (inv_data i)),
          SBusFileDescriptor SBUS_FD_OUTPUT_OBJECT out_fd [] JNull,
          SBusFileDescriptor SBUS_FD_OUTPUT_OBJECT_METADATA md_fd [] JNull,
          SBusFileDescriptor SBUS_FD_LOGGER lg_fd [] JNull] @ extra)))))))"

text \<open>The pipes of the extra sources, one after the other; the ones made before a failing call stay in the object.\<close>

fun make_extra_pipes :: "'w inv_ops \<Rightarrow> extra_source list \<Rightarrow> 'w \<Rightarrow> (errno + unit) \<times> extra_source list \<times> 'w" where
  "make_extra_pipes ops [] w = (Inr (), [], w)"
| "make_extra_pipes ops (x # xs) w = (case os_pipe (io ops) w of
     (Inl e, w1) \<Rightarrow> (Inl e, x # xs, w1)
   | (Inr (r, t), w1) \<Rightarrow> (case make_extra_pipes ops xs w1 of
        (res, xs', w2) \<Rightarrow> (res, x\<lparr>xs_read_fd := Some r, xs_write_fd := Some t\<rparr> # xs', w2)))"

definition prepare_extra :: "'w inv_ops \<Rightarrow> ('w, unit) inv_eff" where
  "prepare_extra ops s = (case make_extra_pipes ops (extra_data_sources (fst s)) (snd s) of
     (res, xs, w) \<Rightarrow> (case res of Inl e \<Rightarrow> Inl (OSErrno e) | Inr _ \<Rightarrow> Inr (), (fst s)\<lparr>extra_data_sources := xs\<rparr>, w))"

definition prepare_invocation_descriptors :: "'w inv_ops \<Rightarrow> ('w, unit) inv_eff" where
  "prepare_invocation_descriptors ops =
     ebind (eget inv_data) (\<lambda>data.
     ebind (if \<not> has_fd data then ebind (esys (os_pipe (io ops))) (\<lambda>(r, t).
              emodify (\<lambda>i. i\<lparr>own_input_read_fd := Some r, own_input_write_fd := Some t\<rparr>)) else ereturn ()) (\<lambda>_.
     ebind (esys (os_pipe (io ops))) (\<lambda>(r, t).
     ebind (emodify (\<lambda>i. i\<lparr>data_read_fd := Some r, data_write_fd := Some t\<rparr>)) (\<lambda>_.
     ebind (esys (os_pipe (io ops))) (\<lambda>(r, t).
     ebind (emodify (\<lambda>i. i\<lparr>metadata_read_fd := Some r, metadata_write_fd := Some t\<rparr>)) (\<lambda>_.
       prepare_extra ops))))))"

definition close_fd :: "'w inv_ops \<Rightarrow> int option \<Rightarrow> ('i \<times> 'w, unit) eff" where
  "close_fd ops x = ebind (eres (fd_arg x)) (\<lambda>fd. esys (pipe_close (io ops) fd))"

definition inv_safe_close :: "'w inv_ops \<Rightarrow> int option list \<Rightarrow> ('i \<times> 'w, unit) eff" where
  "inv_safe_close ops = eiter (\<lambda>x. etry (close_fd ops x) (\<lambda>e. if e = OSErrno EBADF then ereturn () else eraise e))"

definition remote_side :: "invocation \<Rightarrow> int option list" where
  "remote_side i = [data_write_fd i, metadata_write_fd i]
     @ (if own_input_read_fd i \<noteq> None then [own_input_read_fd i] else []) @ map xs_read_fd (extra_data_sources i)"

definition close_remote_side_descriptors :: "'w inv_ops \<Rightarrow> ('w, unit) inv_eff" where
  "close_remote_side_descriptors ops = ebind (eget remote_side) (eiter (close_fd ops))"

definition close_local_side_descriptors :: "'w inv_ops \<Rightarrow> ('w, unit) inv_eff" where
  "close_local_side_descriptors ops =
     ebind (eget (\<lambda>i. [data_read_fd i, metadata_read_fd i])) (inv_safe_close ops)"

definition activate_invocation_descriptors :: "'w inv_ops \<Rightarrow> ('w, 'a) inv_eff \<Rightarrow> ('w, 'a) inv_eff" where
  "activate_invocation_descriptors ops body =
     ebind (prepare_invocation_descriptors ops) (\<lambda>_. efinally body (close_remote_side_descriptors ops))"

section \<open>Commands to the storlet daemon\<close>

definition inv_cancel :: "'w inv_ops \<Rightarrow> ('w, unit) inv_eff" where
  "inv_cancel ops =
     ebind (eget id) (\<lambda>i.
       etry (ebind (eworld (client_cancel (io ops) (SBusClient (storlet_pipe_path i)) (inv_task_id i))) (\<lambda>resp.
               if \<not> truthy (rs_status resp) then eraise (StorletRuntimeException ''Failed to cancel task'') else ereturn ()))
            (\<lambda>e. eraise (if is_SBusClientException e then StorletRuntimeException ''Failed to cancel task'' else e)))"

definition send_execute_command :: "'w inv_ops \<Rightarrow> ('w, unit) inv_eff" where
  "send_execute_command ops =
     ebind (eget id) (\<lambda>i.
       etry (ebind remote_fds (\<lambda>rfds.
             ebind (eworld (client_execute (io ops) (SBusClient (storlet_pipe_path i)) (JObj (sr_params (cr_request (srequest i)))) rfds)) (\<lambda>resp.
               if \<not> truthy (rs_status resp) then eraise (StorletRuntimeException ''Failed to send execute command'')
               else if \<not> truthy (rs_task_id resp) then eraise (StorletRuntimeException ''Missing task id'')
               else emodify (\<lambda>i. i\<lparr>inv_task_id := rs_task_id resp\<rparr>))))
            (\<lambda>e. eraise (if is_SBusClientException e then StorletRuntimeException ''Failed to send execute command'' else e)))"

definition invoke :: "'w inv_ops \<Rightarrow> ('w, unit) inv_eff" where
  "invoke ops = log_activate ops (activate_invocation_descriptors ops (send_execute_command ops))"

section \<open>Waiting, reading and writing\<close>

definition wait_for_read_with_timeout :: "'w inv_ops \<Rightarrow> int option \<Rightarrow> ('w, unit) inv_eff" where
  "wait_for_read_with_timeout ops x =
     ebind (eres (fd_arg x)) (\<lambda>fd.
     ebind (etry (eworld (select_read ops fd)) (\<lambda>e.
              if e = StorletTimeout then
                ebind (eget inv_task_id) (\<lambda>tid.
                ebind (if truthy tid then etry (inv_cancel ops) (\<lambda>e'. if is_StorletRuntimeException e' then ereturn () else eraise e')
                       else ereturn ()) (\<lambda>_. eraise e))
              else eraise e)) (\<lambda>r.
       if fd \<notin> set r then eraise (StorletRuntimeException ''Read fd is not ready'') else ereturn ()))"

definition MAX_METADATA_SIZE :: nat where "MAX_METADATA_SIZE = 4096"

definition read_metadata :: "'w inv_ops \<Rightarrow> ('w, json) inv_eff" where
  "read_metadata ops =
     ebind (eget metadata_read_fd) (\<lambda>x.
     ebind (wait_for_read_with_timeout ops x) (\<lambda>_.
     ebind (eres (fd_arg x)) (\<lambda>fd.
     ebind (esys (os_read (io ops) fd MAX_METADATA_SIZE)) (\<lambda>flat_json.
     ebind (close_fd ops x) (\<lambda>_.
       etry (eres (rbind (utf8_decode flat_json) loads))
         (\<lambda>e. eraise (if is_ValueError e then StorletRuntimeException ''Got invalid format about metadata'' else e)))))))"

definition wait_for_write_with_timeout :: "'w inv_ops \<Rightarrow> int option \<Rightarrow> ('w, unit) inv_eff" where
  "wait_for_write_with_timeout ops x =
     ebind (eres (fd_arg x)) (\<lambda>fd.
     ebind (eworld (select_write ops fd)) (\<lambda>r.
       if fd \<notin> set r then eraise (StorletRuntimeException ''Write fd is not ready'') else ereturn ()))"

definition start_writer :: "'w inv_ops \<Rightarrow> int option \<times> data_source \<Rightarrow> ('w, unit) inv_eff" where
  "start_writer ops p =
     ebind (wait_for_write_with_timeout ops (fst p)) (\<lambda>_.
     ebind (eres (fd_arg (fst p))) (\<lambda>fd.
       eworld (\<lambda>w. (Inr (), spawn_writer ops fd (snd p) w))))"

text \<open>The part of \<open>communicate\<close> after the command was accepted.\<close>

definition transfer :: "'w inv_ops \<Rightarrow> invocation \<Rightarrow> ('w, storlet_data) inv_eff" where
  "transfer ops i =
     ebind (if \<not> has_fd (inv_data i)
            then ebind (eres (data_iter (inv_data i))) (\<lambda>it. start_writer ops (own_input_write_fd i, it))
            else ereturn ()) (\<lambda>_.
     ebind (eiter (\<lambda>x. start_writer ops (xs_write_fd x, xs_data_iter x)) (extra_data_sources i)) (\<lambda>_.
     ebind (read_metadata ops) (\<lambda>out_md.
     ebind (wait_for_read_with_timeout ops (data_read_fd i)) (\<lambda>_.
       eres (StorletData out_md None (data_read_fd i) 10 True)))))"

definition communicate_body :: "'w inv_ops \<Rightarrow> ('w, storlet_data) inv_eff" where
  "communicate_body ops = ebind (invoke ops) (\<lambda>_. ebind (eget id) (transfer ops))"

definition communicate :: "'w inv_ops \<Rightarrow> ('w, storlet_data) inv_eff" where
  "communicate ops =
     etry (communicate_body ops) (\<lambda>e. if is_Exception e
       then ebind (close_local_side_descriptors ops) (\<lambda>_. eraise e) else eraise e)"

text \<open>What a writer thread does. The file object closes the descriptor when the block is left; the last statement
  closes it once more.\<close>

fun write_chunks :: "(int \<Rightarrow> string \<Rightarrow> 'w \<Rightarrow> unit res \<times> 'w) \<Rightarrow> int \<Rightarrow> string list \<Rightarrow> ('i \<times> 'w, unit) eff" where
  "write_chunks wr fd [] = ereturn ()"
| "write_chunks wr fd (c # cs) = ebind (eworld (wr fd c)) (\<lambda>_. write_chunks wr fd cs)"

definition write_input_data ::
  "'w inv_ops \<Rightarrow> (int \<Rightarrow> string \<Rightarrow> 'w \<Rightarrow> unit res \<times> 'w) \<Rightarrow> int \<Rightarrow> string list \<Rightarrow> ('i \<times> 'w, unit) eff" where
  "write_input_data ops wr fd chunks =
     efinally (etry (efinally (write_chunks wr fd chunks) (esys (pipe_close (io ops) fd)))
                    (\<lambda>e. if is_Exception e then ereturn () else eraise e))
              (inv_safe_close ops [Some fd])"

section \<open>The invocation flow\<close>

text \<open>\<open>StorletGatewayContainer\<close>. The cache lives in the file system \<open>fs\<close>, the rest of the flow acts on \<open>'w\<close>;
  \<open>fl_restart\<close> is the engine's \<open>_restart\<close>, \<open>fl_put_log\<close> opens the log file and hands it to the file manager.\<close>

record gateway =
  gw_conf :: "string dict"
  gw_scope :: string
  storlet_timeout :: int
  gw_paths :: paths

definition StorletGatewayContainer :: "string dict \<Rightarrow> string \<Rightarrow> gateway res" where
  "StorletGatewayContainer conf scope = rbind (py_float (conf_get conf ''storlet_timeout'' ''40'')) (\<lambda>t.
     Inr \<lparr>gw_conf = conf, gw_scope = scope, storlet_timeout = t, gw_paths = RunTimePaths scope conf\<rparr>)"

record 'w flow_ops =
  fl_inv :: "'w inv_ops"
  fl_restart :: "sandbox \<Rightarrow> string \<Rightarrow> 'w \<Rightarrow> unit res \<times> 'w"
  fl_budgets :: "nat \<times> nat"
  fl_get_storlet :: get_func
  fl_get_dependency :: get_func
  fl_put_log :: "string \<Rightarrow> string \<Rightarrow> 'w \<Rightarrow> unit res \<times> 'w"

definition upload_storlet_logs :: "'w flow_ops \<Rightarrow> string \<Rightarrow> container_request \<Rightarrow> 'w \<Rightarrow> unit res \<times> 'w" where
  "upload_storlet_logs ops slog_path sreq w =
     (if generate_log sreq then
        let storlet_name = hd (split_on CHR ''-'' (storlet_id (cr_request sreq)))
        in fl_put_log ops slog_path (storlet_name @ ''.log'') w
      else (Inr (), w))"

definition invocation_flow ::
  "'w flow_ops \<Rightarrow> gateway \<Rightarrow> container_request \<Rightarrow> fs \<times> 'w \<Rightarrow> storlet_data res \<times> fs \<times> 'w" where
  "invocation_flow ops gw sreq s =
     (case RunTimeSandbox (gw_scope gw) (gw_conf gw) of
        Inl e \<Rightarrow> (Inl e, s)
      | Inr sbox \<Rightarrow>
     (case update_container_from_cache (fl_get_storlet ops) (fl_get_dependency ops) (gw_paths gw) sreq (fst s) of
        (Inl e, f) \<Rightarrow> (Inl e, f, snd s)
      | (Inr container_updated, f) \<Rightarrow>
     (case activate_storlet_daemon (sb_restart (dirs (fl_inv ops)) (fl_restart ops sbox) (io (fl_inv ops)) sbox (fl_budgets ops))
             (io (fl_inv ops)) sbox sreq container_updated (snd s) of
        (Inl e, w1) \<Rightarrow> (Inl e, f, w1)
      | (Inr _, w1) \<Rightarrow>
     (let sreq' = add_system_params sreq;
          slog_path = get_host_slog_path (gw_paths gw) (storlet_main sreq);
          pipe_path = get_host_storlet_pipe (gw_paths gw) (storlet_main sreq) in
      case StorletInvocationProtocol sreq' pipe_path slog_path of
        Inl e \<Rightarrow> (Inl e, f, w1)
      | Inr sprotocol \<Rightarrow>
     (case communicate (fl_inv ops) (sprotocol, w1) of
        (Inl e, _, w2) \<Rightarrow> (Inl e, f, w2)
      | (Inr sresp, _, w2) \<Rightarrow>
          (case upload_storlet_logs ops slog_path sreq' w2 of
             (Inl e, w3) \<Rightarrow> (Inl e, f, w3) | (Inr _, w3) \<Rightarrow> (Inr sresp, f, w3)))))))"

section \<open>The environment of a run\<close>

text \<open>What a run relies on beyond the pipes of the client: the log file is a descriptor like the others, waiting
  leaves the descriptors alone and ends by being ready, by the timer or by an \<open>OSError\<close>, closing a closed
  descriptor is \<open>EBADF\<close>, and a descriptor handed to a writer is no longer ours.\<close>

locale invocation_os = pipe_os "io ops" open_fds rest ok
  for ops :: "'w inv_ops" and open_fds :: "'w \<Rightarrow> int set" and rest :: "int \<Rightarrow> 'w \<Rightarrow> string" and ok :: "'w \<Rightarrow> bool" +
  assumes makedirs: "ok w \<Longrightarrow> os_makedirs (dirs ops) d m w = (u, w') \<Longrightarrow> ok w' \<and> open_fds w' = open_fds w"
    and chmod: "ok w \<Longrightarrow> os_chmod (dirs ops) d m w = (u, w') \<Longrightarrow> ok w' \<and> open_fds w' = open_fds w"
    and open_log: "ok w \<Longrightarrow> open_append ops p w = (x, w') \<Longrightarrow> ok w' \<and> (case x of
      Inl _ \<Rightarrow> open_fds w' = open_fds w | Inr fd \<Rightarrow> fd \<notin> open_fds w \<and> open_fds w' = insert fd (open_fds w))"
    and sel_read: "ok w \<Longrightarrow> fd \<in> open_fds w \<Longrightarrow> select_read ops fd w = (r, w') \<Longrightarrow>
      ok w' \<and> open_fds w' = open_fds w \<and> (\<forall>e. r = Inl e \<longrightarrow> is_Exception e)"
    and sel_write: "ok w \<Longrightarrow> fd \<in> open_fds w \<Longrightarrow> select_write ops fd w = (r, w') \<Longrightarrow>
      ok w' \<and> open_fds w' = open_fds w \<and> (\<forall>e. r = Inl e \<longrightarrow> is_Exception e)"
    and spawn: "ok w \<Longrightarrow> fd \<in> open_fds w \<Longrightarrow>
      ok (spawn_writer ops fd src w) \<and> open_fds (spawn_writer ops fd src w) = open_fds w - {fd}"
    and close_bad: "ok w \<Longrightarrow> fd \<notin> open_fds w \<Longrightarrow> pipe_close (io ops) fd w = (Inl EBADF, w)"

text \<open>The run of a process that is not out of descriptors and may set the mode of its own log file.\<close>

locale invocation_env = invocation_os +
  assumes no_emfile: "ok w \<Longrightarrow> os_pipe (io ops) w \<noteq> (Inl e, w')"
    and chmod_ok: "ok w \<Longrightarrow> os_chmod (dirs ops) d m w \<noteq> (Inl e, w')"

text \<open>The protocol object \<open>i\<close> and the descriptors \<open>S\<close> it holds beside the foreign ones \<open>Z\<close>.\<close>

definition held :: "('w \<Rightarrow> int set) \<Rightarrow> ('w \<Rightarrow> bool) \<Rightarrow> 'i \<Rightarrow> int set \<Rightarrow> int set \<Rightarrow> 'i \<times> 'w \<Rightarrow> bool" where
  "held open_fds ok i Z S s \<longleftrightarrow> fst s = i \<and> ok (snd s) \<and> S \<inter> Z = {} \<and> open_fds (snd s) = Z \<union> S"

definition remote_list :: "invocation \<Rightarrow> int list" where "remote_list i = map the (remote_side i)"

definition local_list :: "invocation \<Rightarrow> int list" where "local_list i = map the [data_read_fd i, metadata_read_fd i]"

definition writer_list :: "invocation \<Rightarrow> int list" where
  "writer_list i = (if has_fd (inv_data i) then [] else [the (own_input_write_fd i)])
     @ map (\<lambda>x. the (xs_write_fd x)) (extra_data_sources i)"

definition fresh :: "invocation \<Rightarrow> bool" where
  "fresh i \<longleftrightarrow> lg_file (storlet_logger i) = None \<and> data_read_fd i = None \<and> data_write_fd i = None \<and>
     metadata_read_fd i = None \<and> metadata_write_fd i = None \<and> inv_task_id i = JNull \<and>
     own_input_read_fd i = None \<and> own_input_write_fd i = None"

definition prepared :: "invocation \<Rightarrow> bool" where
  "prepared i \<longleftrightarrow> distinct (remote_list i @ local_list i @ writer_list i) \<and>
     data_read_fd i \<noteq> None \<and> metadata_read_fd i \<noteq> None \<and> None \<notin> set (remote_side i) \<and>
     (has_fd (inv_data i) \<longleftrightarrow> own_input_read_fd i = None) \<and> (has_fd (inv_data i) \<longleftrightarrow> own_input_write_fd i = None) \<and>
     (\<forall>x \<in> set (extra_data_sources i). xs_write_fd x \<noteq> None)"

lemma protocol_fresh: "StorletInvocationProtocol r p l = Inr i \<Longrightarrow> fresh i \<and> srequest i = r"
  by (auto simp: StorletInvocationProtocol_def rbind_Inr_iff fresh_def)

lemma map_Some_the: "None \<notin> set xs \<Longrightarrow> map (\<lambda>x. Some (the x)) xs = xs"
  by (induction xs) auto

context invocation_os
begin

abbreviation hold :: "'i \<Rightarrow> int set \<Rightarrow> int set \<Rightarrow> 'i \<times> 'w \<Rightarrow> bool" where "hold \<equiv> held open_fds ok"

lemma close_triple:
  "fd \<in> S \<Longrightarrow> triple (hold i Z S) (esys (pipe_close (io ops) fd)) (\<lambda>_. hold i Z (S - {fd})) (\<lambda>_ _. False)"
  by (rule triple_sys) (auto simp: held_def dest!: close [rotated 2])

lemma close_list:
  "set ns \<subseteq> S \<Longrightarrow> distinct ns \<Longrightarrow>
   triple (hold i Z S) (eiter (close_fd ops) (map Some ns)) (\<lambda>_. hold i Z (S - set ns)) (\<lambda>_ _. False)"
proof (induction ns arbitrary: S)
  case Nil
  then show ?case by (auto intro: triple_return)
next
  case (Cons fd ns)
  have 1: "triple (hold i Z S) (close_fd ops (Some fd)) (\<lambda>_. hold i Z (S - {fd})) (\<lambda>_ _. False)"
    using close_triple [of fd S] Cons.prems by (simp add: close_fd_def fd_arg_def)
  have 2: "triple (hold i Z (S - {fd})) (eiter (close_fd ops) (map Some ns)) (\<lambda>_. hold i Z (S - {fd} - set ns)) (\<lambda>_ _. False)"
    using Cons by (intro Cons.IH) auto
  have "S - {fd} - set ns = S - set (fd # ns)" by auto
  with triple_bind [OF 1 2] show ?case by simp
qed

lemma safe_close_one:
  assumes "fd \<notin> Z"
  shows "triple (hold i Z S) (etry (close_fd ops (Some fd)) (\<lambda>e. if e = OSErrno EBADF then ereturn () else eraise e))
    (\<lambda>_. hold i Z (S - {fd})) (\<lambda>_ _. False)"
proof (cases "fd \<in> S")
  case True
  from close_triple [OF this] show ?thesis
    by (auto simp: close_fd_def fd_arg_def intro!: triple_try triple_raise triple_return)
next
  case False
  then show ?thesis using assms close_bad
    by (auto simp: triple_def held_def etry_def close_fd_def fd_arg_def esys_def ereturn_def)
qed

lemma safe_close_list:
  "set ns \<inter> Z = {} \<Longrightarrow>
   triple (hold i Z S) (inv_safe_close ops (map Some ns)) (\<lambda>_. hold i Z (S - set ns)) (\<lambda>_ _. False)"
proof (induction ns arbitrary: S)
  case Nil
  then show ?case by (auto simp: inv_safe_close_def intro: triple_return)
next
  case (Cons fd ns)
  then have 2: "triple (hold i Z (S - {fd})) (inv_safe_close ops (map Some ns)) (\<lambda>_. hold i Z (S - {fd} - set ns)) (\<lambda>_ _. False)"
    by (intro Cons.IH) auto
  have "fd \<notin> Z" using Cons.prems by simp
  note 1 = safe_close_one [OF this, of i S]
  have "S - {fd} - set ns = S - set (fd # ns)" by auto
  with triple_bind [OF 1 2] show ?case by (simp add: inv_safe_close_def)
qed

lemma request_triple:
  assumes "\<And>w. cl w = request (io ops) path n cmd ps tid extra w" "0 < n"
  shows "triple (hold i Z S) (eworld cl) (\<lambda>_. hold i Z S) (\<lambda>e s. is_Exception e \<and> hold i Z S s)"
proof (rule triple_world)
  fix i' w x w'
  assume h: "hold i Z S (i', w)"
  obtain r v where "request (io ops) path n cmd ps tid extra w = (r, v)" "ok v" "open_fds v = open_fds w"
      "\<forall>e. r = Inl e \<longrightarrow> is_Exception e"
    using request_spec [of w n path cmd ps tid extra] h assms(2) by (auto simp: held_def)
  then show "cl w = (Inr x, w') \<Longrightarrow> hold i Z S (i', w')"
    and "cl w = (Inl e, w') \<Longrightarrow> is_Exception e \<and> hold i Z S (i', w')" for e
    using h by (auto simp: assms(1) held_def)
qed

lemma get_hold: "triple (hold i Z S) (f (g i)) Q E \<Longrightarrow> triple (hold i Z S) (ebind (eget g) f) Q E"
  by (auto simp: triple_def held_def ebind_def eget_def)

lemma cancel_triple: "triple (hold i Z S) (inv_cancel ops) (\<lambda>_. hold i Z S) (\<lambda>e s. is_Exception e \<and> hold i Z S s)"
proof -
  have 1: "triple (hold i Z S) (eworld (client_cancel (io ops) (SBusClient p) t)) (\<lambda>_. hold i Z S) (\<lambda>e s. is_Exception e \<and> hold i Z S s)" for p t
    by (rule request_triple [where n = 16]) (simp_all add: client_cancel_def client_request_def SBusClient_def)
  show ?thesis unfolding inv_cancel_def
    by (rule get_hold, rule triple_try, rule triple_bind, rule 1) (auto intro!: triple_raise triple_return simp: is_Exception_def)
qed

end

lemma exception_simps [simp]:
  "is_Exception (OSErrno x)" "is_Exception (StorletRuntimeException m)" "is_Exception StorletTimeout"
  "is_Exception (TypeError m)" "is_Exception (StorletLoggerError m)" "is_Exception (ValueError m)"
  by (simp_all add: is_Exception_def)

abbreviation with_log :: "int option \<Rightarrow> invocation \<Rightarrow> invocation" where
  "with_log f i \<equiv> i\<lparr>storlet_logger := (storlet_logger i)\<lparr>lg_file := f\<rparr>\<rparr>"

context invocation_os
begin

lemma keep_world:
  assumes "\<And>w r w'. ok w \<Longrightarrow> open_fds w = Z \<union> S \<Longrightarrow> f w = (r, w') \<Longrightarrow>
    ok w' \<and> open_fds w' = open_fds w \<and> (\<forall>e. r = Inl e \<longrightarrow> is_Exception e)"
  shows "triple (hold i Z S) (eworld f) (\<lambda>_. hold i Z S) (\<lambda>e s. is_Exception e \<and> hold i Z S s)"
  using assms by (intro triple_world) (simp_all add: held_def, blast+)

lemma keep_sys:
  assumes "\<And>w r w'. ok w \<Longrightarrow> open_fds w = Z \<union> S \<Longrightarrow> f w = (r, w') \<Longrightarrow> ok w' \<and> open_fds w' = open_fds w"
  shows "triple (hold i Z S) (esys f) (\<lambda>_. hold i Z S) (\<lambda>e s. is_Exception e \<and> hold i Z S s)"
  using assms by (intro triple_sys) (simp_all add: held_def, blast+)

lemma select_triple:
  assumes "fd \<in> Z \<union> S"
  shows "triple (hold i Z S) (eworld (select_read ops fd)) (\<lambda>_. hold i Z S) (\<lambda>e s. is_Exception e \<and> hold i Z S s)"
    and "triple (hold i Z S) (eworld (select_write ops fd)) (\<lambda>_. hold i Z S) (\<lambda>e s. is_Exception e \<and> hold i Z S s)"
  by (rule keep_world, rule sel_read; use assms in simp) (rule keep_world, rule sel_write; use assms in simp)

lemma wait_read_triple:
  assumes "fd \<in> Z \<union> S"
  shows "triple (hold i Z S) (wait_for_read_with_timeout ops (Some fd)) (\<lambda>_. hold i Z S) (\<lambda>e s. is_Exception e \<and> hold i Z S s)"
proof -
  have 1: "triple (hold i Z S) (etry (inv_cancel ops) (\<lambda>e. if is_StorletRuntimeException e then ereturn () else eraise e))
      (\<lambda>_. hold i Z S) (\<lambda>e s. is_Exception e \<and> hold i Z S s)"
    by (rule triple_try [OF cancel_triple]) (auto intro!: triple_return triple_raise)
  have 2: "triple (hold i Z S) (if truthy t then etry (inv_cancel ops) (\<lambda>e. if is_StorletRuntimeException e then ereturn () else eraise e)
      else ereturn ()) (\<lambda>_. hold i Z S) (\<lambda>e s. is_Exception e \<and> hold i Z S s)" for t
    using 1 by (auto intro: triple_return)
  have 3: "triple (\<lambda>s. is_Exception e \<and> hold i Z S s) (if e = StorletTimeout then ebind (eget inv_task_id) (\<lambda>t.
        ebind (if truthy t then etry (inv_cancel ops) (\<lambda>e. if is_StorletRuntimeException e then ereturn () else eraise e)
               else ereturn ()) (\<lambda>_. eraise e)) else eraise e)
      (\<lambda>_. hold i Z S) (\<lambda>e s. is_Exception e \<and> hold i Z S s)" for e and Q :: "int list \<Rightarrow> invocation \<times> 'w \<Rightarrow> bool"
  proof (cases "e = StorletTimeout")
    case True
    show ?thesis unfolding True
      by (simp, rule get_hold, rule triple_bind, rule 2) (simp add: triple_raise)
  qed (simp add: triple_raise)
  show ?thesis unfolding wait_for_read_with_timeout_def fd_arg_def option.case ebind_simps
    by (rule triple_bind, rule triple_try, rule select_triple(1) [OF assms], rule 3)
      (simp add: triple_raise triple_return)
qed

lemma wait_write_triple:
  assumes "fd \<in> Z \<union> S"
  shows "triple (hold i Z S) (wait_for_write_with_timeout ops (Some fd)) (\<lambda>_. hold i Z S) (\<lambda>e s. is_Exception e \<and> hold i Z S s)"
  unfolding wait_for_write_with_timeout_def fd_arg_def option.case ebind_simps
  by (rule triple_bind, rule select_triple(2) [OF assms]) (simp add: triple_raise triple_return)

lemma start_writer_triple:
  assumes "fd \<in> S"
  shows "triple (hold i Z S) (start_writer ops (Some fd, src)) (\<lambda>_. hold i Z (S - {fd})) (\<lambda>e s. is_Exception e \<and> hold i Z S s)"
proof -
  have "triple (hold i Z S) (eworld (\<lambda>w. (Inr (), spawn_writer ops fd src w))) (\<lambda>_. hold i Z (S - {fd})) (\<lambda>e s. is_Exception e \<and> hold i Z S s)"
    using assms spawn [of _ fd src] by (intro triple_world) (auto simp: held_def)
  then show ?thesis using assms unfolding start_writer_def fst_conv snd_conv fd_arg_def option.case ebind_simps
    by (intro triple_bind [OF wait_write_triple]) auto
qed

text \<open>Reading the metadata closes its descriptor; on an error it may still be open.\<close>

lemma read_metadata_triple:
  assumes "metadata_read_fd i = Some fd" "fd \<in> S"
  shows "triple (hold i Z S) (read_metadata ops) (\<lambda>_. hold i Z (S - {fd}))
    (\<lambda>e s. is_Exception e \<and> (hold i Z S s \<or> hold i Z (S - {fd}) s))"
proof -
  let ?E = "\<lambda>e s. is_Exception e \<and> (hold i Z S s \<or> hold i Z (S - {fd}) s)"
  have 1: "triple (hold i Z S) (wait_for_read_with_timeout ops (Some fd)) (\<lambda>_. hold i Z S) ?E"
    using wait_read_triple [of fd Z S i] assms(2) by (auto elim!: triple_weaken)
  have 2: "triple (hold i Z S) (esys (os_read (io ops) fd MAX_METADATA_SIZE)) (\<lambda>_. hold i Z S) ?E"
  proof (rule triple_weaken [OF keep_sys])
    show "ok w' \<and> open_fds w' = open_fds w" if "ok w" "open_fds w = Z \<union> S" "os_read (io ops) fd MAX_METADATA_SIZE w = (r, w')" for w r w'
      using read [OF that(1) _ _ that(3)] that(2) assms(2) by (simp add: MAX_METADATA_SIZE_def)
  qed auto
  have 3: "triple (hold i Z S) (close_fd ops (Some fd)) (\<lambda>_. hold i Z (S - {fd})) ?E"
    using close_triple [OF assms(2), of i Z] by (auto simp: close_fd_def fd_arg_def elim!: triple_weaken)
  have v: "is_ValueError e" if "rbind (utf8_decode s) loads = Inl e" for s e
    using that utf8_decode_error [of s e] loads_error by (fastforce simp: rbind_def is_ValueError_def split: sum.splits)
  have 4: "triple (hold i Z (S - {fd})) (etry (eres (rbind (utf8_decode s) loads))
      (\<lambda>e. eraise (if is_ValueError e then StorletRuntimeException ''Got invalid format about metadata'' else e)))
      (\<lambda>_. hold i Z (S - {fd})) ?E" for s
    using v by (auto simp: triple_def etry_def eres_def eraise_def split: sum.splits)
  show ?thesis unfolding read_metadata_def
    by (rule get_hold) (simp add: assms(1) fd_arg_def triple_bind [OF 1 triple_bind [OF 2 triple_bind [OF 3 4]]])
qed

text \<open>The execute command keeps the descriptors; on success the task has an identifier.\<close>

lemma send_execute_triple:
  "triple (hold i Z S) (send_execute_command ops)
     (\<lambda>_ s. \<exists>t. truthy t \<and> hold (i\<lparr>inv_task_id := t\<rparr>) Z S s) (\<lambda>e s. is_Exception e \<and> hold i Z S s)"
proof -
  let ?Q = "\<lambda>_ s. \<exists>t. truthy t \<and> hold (i\<lparr>inv_task_id := t\<rparr>) Z S s" and ?E = "\<lambda>e s. is_Exception e \<and> hold i Z S s"
  have m: "is_Exception e" if "mapM f xs = Inl e" "\<And>x e. f x = Inl e \<Longrightarrow> is_Exception e" for f :: "extra_source \<Rightarrow> sfd res" and xs e
    using that by (auto dest!: mapM_Inl)
  have f: "is_Exception e" if "fd_arg x = Inl e" for x e using that by (auto simp: fd_arg_def split: option.splits)
  have "s' = s \<and> (\<forall>e. r = Inl e \<longrightarrow> is_Exception e)" if "remote_fds s = (r, s')" for s s' :: "invocation \<times> 'w" and r
    using that by (auto simp: remote_fds_def log_getfd_def eff_defs rbind_def split: sum.splits option.splits dest!: f m)
  then have 1: "triple (hold i Z S) remote_fds (\<lambda>_. hold i Z S) ?E" by (intro tripleI) blast+
  have 2: "triple (hold i Z S) (eworld (client_execute (io ops) (SBusClient p) a b)) (\<lambda>_. hold i Z S) ?E" for p a b
    by (rule request_triple [where n = 16]) (simp_all add: client_execute_def client_request_def SBusClient_def)
  have 3: "triple (hold i Z S) (if \<not> truthy (rs_status r) then eraise (StorletRuntimeException ''Failed to send execute command'')
      else if \<not> truthy (rs_task_id r) then eraise (StorletRuntimeException ''Missing task id'')
      else emodify (\<lambda>i. i\<lparr>inv_task_id := rs_task_id r\<rparr>)) ?Q ?E" for r
    by (auto simp: triple_def eraise_def emodify_def held_def)
  show ?thesis unfolding send_execute_command_def
    by (rule get_hold, rule triple_try [OF triple_bind [OF 1 triple_bind [OF 2 3]]]) (auto intro!: triple_raise)
qed

end

text \<open>The descriptors of the extra sources.\<close>

definition extra_fds :: "extra_source list \<Rightarrow> int list" where
  "extra_fds xs = map (\<lambda>x. the (xs_read_fd x)) xs @ map (\<lambda>x. the (xs_write_fd x)) xs"

context invocation_env
begin

lemma pipe_triple:
  "triple (hold i Z S) (esys (os_pipe (io ops)))
     (\<lambda>(r, t) s. distinct [r, t] \<and> {r, t} \<inter> (Z \<union> S) = {} \<and> hold i Z (insert r (insert t S)) s) (\<lambda>_ _. False)"
proof (rule triple_sys)
  fix i' w w'
  assume h: "hold i Z S (i', w)"
  show "(case x of (r, t) \<Rightarrow> \<lambda>s. distinct [r, t] \<and> {r, t} \<inter> (Z \<union> S) = {} \<and> hold i Z (insert r (insert t S)) s) (i', w')"
    if "os_pipe (io ops) w = (Inr x, w')" for x
    using pipe [OF _ that] h by (auto simp: held_def)
  show False if "os_pipe (io ops) w = (Inl e, w')" for e
    using no_emfile that h by (auto simp: held_def)
qed

lemma make_extra_pipes_spec:
  assumes "make_extra_pipes ops xs w = (res, xs', w')" "ok w"
  shows "res = Inr () \<and> ok w' \<and> open_fds w' = open_fds w \<union> set (extra_fds xs') \<and> distinct (extra_fds xs') \<and>
    set (extra_fds xs') \<inter> open_fds w = {} \<and> length xs' = length xs \<and>
    (\<forall>x \<in> set xs'. xs_read_fd x \<noteq> None \<and> xs_write_fd x \<noteq> None)"
  using assms
proof (induction xs arbitrary: w res xs' w')
  case Nil
  then show ?case by (auto simp: extra_fds_def)
next
  case (Cons x xs)
  obtain r t w1 where p: "os_pipe (io ops) w = (Inr (r, t), w1)"
    using no_emfile [OF Cons.prems(2)] by (metis old.sum.exhaust surj_pair)
  have pp: "ok w1" "r \<noteq> t" "r \<notin> open_fds w" "t \<notin> open_fds w" "open_fds w1 = insert r (insert t (open_fds w))"
    using pipe [OF Cons.prems(2) p] by auto
  obtain res2 ys where ys: "make_extra_pipes ops xs w1 = (res2, ys, w')" "res = res2"
      "xs' = x\<lparr>xs_read_fd := Some r, xs_write_fd := Some t\<rparr> # ys"
    using Cons.prems(1) p by (auto split: prod.splits)
  from Cons.IH [OF ys(1) pp(1)] pp ys(2,3) show ?case by (auto simp: extra_fds_def)
qed

lemma log_open_triple:
  assumes "lg_file (storlet_logger i) = None"
  shows "triple (hold i Z S) (log_open ops) (\<lambda>_ s. \<exists>fd. fd \<notin> Z \<union> S \<and> hold (with_log (Some fd) i) Z (insert fd S) s)
    (\<lambda>e s. is_Exception e \<and> hold i Z S s)"
proof -
  let ?E = "\<lambda>e s. is_Exception e \<and> hold i Z S s"
  let ?p = "log_path (storlet_logger i)" and ?d = "path_dirname (log_path (storlet_logger i))"
  have "triple (hold i Z S) (esys (os_makedirs (dirs ops) ?d 448)) (\<lambda>_. hold i Z S) ?E"
    by (rule keep_sys, rule makedirs)
  then have 1: "triple (hold i Z S) (\<lambda>s. if \<not> path_exists (dirs ops) ?d (snd s)
      then esys (os_makedirs (dirs ops) ?d 448) s else ereturn () s) (\<lambda>_. hold i Z S) ?E"
    by (simp add: triple_def ereturn_def)
  have 2: "triple (hold i Z S) (esys (open_append ops ?p)) (\<lambda>fd s. fd \<notin> Z \<union> S \<and> hold i Z (insert fd S) s) ?E"
  proof (rule triple_sys)
    fix i' w w'
    assume h: "hold i Z S (i', w)"
    show "x \<notin> Z \<union> S \<and> hold i Z (insert x S) (i', w')" if "open_append ops ?p w = (Inr x, w')" for x
      using open_log [OF _ that] h by (auto simp: held_def)
    show "is_Exception (OSErrno e) \<and> hold i Z S (i', w')" if "open_append ops ?p w = (Inl e, w')" for e
      using open_log [OF _ that] h by (auto simp: held_def)
  qed
  have 3: "triple (\<lambda>s. fd \<notin> Z \<union> S \<and> hold i Z (insert fd S) s) (set_log_file (Some fd))
      (\<lambda>_ s. fd \<notin> Z \<union> S \<and> hold (with_log (Some fd) i) Z (insert fd S) s) ?E" for fd
    unfolding set_log_file_def by (rule triple_modify) (auto simp: held_def)
  have 4: "triple (\<lambda>s. fd \<notin> Z \<union> S \<and> hold (with_log (Some fd) i) Z (insert fd S) s) (esys (os_chmod (dirs ops) ?p 384))
      (\<lambda>_ s. \<exists>fd. fd \<notin> Z \<union> S \<and> hold (with_log (Some fd) i) Z (insert fd S) s) ?E" for fd
  proof (rule triple_sys)
    fix i' w w'
    assume h: "fd \<notin> Z \<union> S \<and> hold (with_log (Some fd) i) Z (insert fd S) (i', w)"
    show "\<exists>fd. fd \<notin> Z \<union> S \<and> hold (with_log (Some fd) i) Z (insert fd S) (i', w')" if "os_chmod (dirs ops) ?p 384 w = (Inr x, w')" for x
      using chmod [OF _ that] h by (auto simp: held_def)
    show "is_Exception (OSErrno e) \<and> hold i Z S (i', w')" if "os_chmod (dirs ops) ?p 384 w = (Inl e, w')" for e
      using chmod_ok that h by (auto simp: held_def)
  qed
  from triple_bind [OF 1 triple_bind [OF 2 triple_bind [OF 3 4]]] show ?thesis unfolding log_open_def
    by (intro get_hold) (simp add: assms Let_def)
qed

end

context invocation_os
begin

lemma log_close_triple:
  assumes "lg_file (storlet_logger i) = Some fd" "fd \<in> S"
  shows "triple (hold i Z S) (log_close ops) (\<lambda>_. hold (with_log None i) Z (S - {fd})) (\<lambda>_ _. False)"
proof -
  have "triple (hold i Z (S - {fd})) (set_log_file None) (\<lambda>_. hold (with_log None i) Z (S - {fd})) (\<lambda>_ _. False)"
    unfolding set_log_file_def by (rule triple_modify) (auto simp: held_def)
  from triple_bind [OF close_triple [OF assms(2)] this] show ?thesis unfolding log_close_def
    by (intro get_hold) (simp add: assms(1))
qed

lemma close_remote_triple:
  assumes "prepared i" "set (remote_list i) \<subseteq> S"
  shows "triple (hold i Z S) (close_remote_side_descriptors ops) (\<lambda>_. hold i Z (S - set (remote_list i))) (\<lambda>_ _. False)"
proof -
  have "map Some (remote_list i) = remote_side i"
    using assms(1) by (simp add: prepared_def remote_list_def map_Some_the comp_def)
  then show ?thesis using close_list [OF assms(2), of i Z] assms(1) unfolding close_remote_side_descriptors_def
    by (intro get_hold) (simp add: prepared_def)
qed

lemma close_local_triple:
  assumes "prepared i" "set (local_list i) \<inter> Z = {}"
  shows "triple (hold i Z S) (close_local_side_descriptors ops) (\<lambda>_. hold i Z (S - set (local_list i))) (\<lambda>_ _. False)"
proof -
  have "map Some (local_list i) = [data_read_fd i, metadata_read_fd i]"
    using assms(1) by (auto simp: prepared_def local_list_def)
  then show ?thesis using safe_close_list [OF assms(2), of i S] unfolding close_local_side_descriptors_def
    by (intro get_hold) simp
qed

text \<open>Before the pipes exist the cleanup itself fails: a \<open>TypeError\<close> replaces the first exception.\<close>

lemma close_local_fresh:
  "data_read_fd (fst s) = None \<Longrightarrow> close_local_side_descriptors ops s = (Inl (TypeError ''an integer is required''), s)"
  by (simp add: close_local_side_descriptors_def inv_safe_close_def close_fd_def fd_arg_def eff_defs)

end

definition all_fds :: "invocation \<Rightarrow> int list" where "all_fds i = remote_list i @ local_list i @ writer_list i"

text \<open>What the steps of a run leave of the object.\<close>

definition same_run :: "invocation \<Rightarrow> invocation \<Rightarrow> bool" where
  "same_run i j \<longleftrightarrow> srequest j = srequest i \<and> storlet_pipe_path j = storlet_pipe_path i \<and>
     length (extra_data_sources j) = length (extra_data_sources i)"

context invocation_env
begin

lemma pipe_ex:
  assumes "ok w"
  obtains r t w1 where "os_pipe (io ops) w = (Inr (r, t), w1)" "ok w1" "r \<noteq> t" "r \<notin> open_fds w" "t \<notin> open_fds w"
    "open_fds w1 = insert r (insert t (open_fds w))"
proof -
  obtain r t w1 where p: "os_pipe (io ops) w = (Inr (r, t), w1)"
    using no_emfile [OF assms] by (metis old.sum.exhaust surj_pair)
  with pipe [OF assms p] show ?thesis by (intro that) auto
qed

text \<open>The two pipes every run has, and those of the extra sources.\<close>

lemma prepare_spec:
  assumes "ok w" "fresh (with_log None i)"
  shows "\<exists>j w'. prepare_invocation_descriptors ops (i, w) = (Inr (), (j, w')) \<and> prepared j \<and> same_run i j \<and>
    storlet_logger j = storlet_logger i \<and> inv_task_id j = inv_task_id i \<and> ok w' \<and>
    set (all_fds j) \<inter> open_fds w = {} \<and> open_fds w' = open_fds w \<union> set (all_fds j)"
proof -
  let ?in = "\<lambda>s. (if \<not> has_fd (inv_data i) then ebind (esys (os_pipe (io ops))) (\<lambda>(r, t).
      emodify (\<lambda>i. i\<lparr>own_input_read_fd := Some r, own_input_write_fd := Some t\<rparr>)) else ereturn ()) s"
  obtain i0 w0 F where 0: "?in (i, w) = (Inr (), (i0, w0))" "ok w0" "open_fds w0 = open_fds w \<union> set F"
      "set F \<inter> open_fds w = {}" "distinct F"
      "i0 = (if has_fd (inv_data i) then i else i\<lparr>own_input_read_fd := Some (F ! 0), own_input_write_fd := Some (F ! 1)\<rparr>)"
      "length F = (if has_fd (inv_data i) then 0 else 2)"
  proof (cases "has_fd (inv_data i)")
    case True
    then show ?thesis using assms(1) by (intro that [of i w "[]"]) (auto simp: ereturn_def)
  next
    case False
    obtain r t w1 where "os_pipe (io ops) w = (Inr (r, t), w1)" "ok w1" "r \<noteq> t" "r \<notin> open_fds w" "t \<notin> open_fds w"
        "open_fds w1 = insert r (insert t (open_fds w))" by (rule pipe_ex [OF assms(1)])
    with False show ?thesis by (intro that [of _ w1 "[r, t]"]) (auto simp: ebind_def esys_def emodify_def)
  qed
  obtain r1 t1 w1 where 1: "os_pipe (io ops) w0 = (Inr (r1, t1), w1)" "ok w1" "r1 \<noteq> t1" "r1 \<notin> open_fds w0" "t1 \<notin> open_fds w0"
      "open_fds w1 = insert r1 (insert t1 (open_fds w0))" by (rule pipe_ex [OF 0(2)])
  obtain r2 t2 w2 where 2: "os_pipe (io ops) w1 = (Inr (r2, t2), w2)" "ok w2" "r2 \<noteq> t2" "r2 \<notin> open_fds w1" "t2 \<notin> open_fds w1"
      "open_fds w2 = insert r2 (insert t2 (open_fds w1))" by (rule pipe_ex [OF 1(2)])
  obtain res xs w3 where 3: "make_extra_pipes ops (extra_data_sources i) w2 = (res, xs, w3)" by (metis surj_pair)
  note x = make_extra_pipes_spec [OF 3 2(2)]
  have F: "F = [] \<or> (\<exists>a b. F = [a, b])" using 0(7) by (auto simp: length_Suc_conv numeral_2_eq_2 split: if_splits)
  let ?j = "i0\<lparr>data_read_fd := Some r1, data_write_fd := Some t1, metadata_read_fd := Some r2, metadata_write_fd := Some t2,
      extra_data_sources := xs\<rparr>"
  have i0: "extra_data_sources i0 = extra_data_sources i" "srequest i0 = srequest i" "storlet_logger i0 = storlet_logger i"
    "inv_task_id i0 = inv_task_id i" "storlet_pipe_path i0 = storlet_pipe_path i"
    using 0(6) by (auto split: if_splits)
  have "prepare_invocation_descriptors ops (i, w) = (Inr (), (?j, w3))"
    using 0(1) 1(1) 2(1) 3 x i0(1)
    by (simp add: prepare_invocation_descriptors_def prepare_extra_def ebind_def eget_def esys_def emodify_def)
  moreover have "set (all_fds ?j) = set F \<union> {r1, t1, r2, t2} \<union> set (extra_fds xs)"
    using 0(6,7) F assms(2) by (auto simp: all_fds_def remote_list_def remote_side_def local_list_def writer_list_def
        extra_fds_def fresh_def split: if_splits)
  moreover have D: "distinct ([t1, t2] @ [r1, r2] @ F @ extra_fds xs)" using 0 1 2 x by auto
  have "prepared ?j"
  proof (cases "has_fd (inv_data i)")
    case True
    then have "F = []" "i0 = i" using 0(6,7) by auto
    then show ?thesis using D x True assms(2)
      by (auto simp: prepared_def remote_list_def remote_side_def local_list_def writer_list_def extra_fds_def fresh_def comp_def)
  next
    case False
    then obtain a b where "F = [a, b]" using F 0(7) by auto
    then show ?thesis using D x False 0(6)
      by (auto simp: prepared_def remote_list_def remote_side_def local_list_def writer_list_def extra_fds_def comp_def)
  qed
  moreover have "same_run i ?j" using x i0 by (simp add: same_run_def)
  moreover have "(set F \<union> {r1, t1, r2, t2} \<union> set (extra_fds xs)) \<inter> open_fds w = {}" using 0(3,4) 1(4-6) 2(4-6) x by auto
  moreover have "open_fds w3 = open_fds w \<union> (set F \<union> {r1, t1, r2, t2} \<union> set (extra_fds xs))" using 0(3) 1(6) 2(6) x by auto
  ultimately show ?thesis using x i0 by (intro exI [of _ ?j] exI [of _ w3]) simp
qed

end

lemma fds_update [simp]:
  "remote_list (i\<lparr>inv_task_id := t\<rparr>) = remote_list i" "local_list (i\<lparr>inv_task_id := t\<rparr>) = local_list i"
  "writer_list (i\<lparr>inv_task_id := t\<rparr>) = writer_list i" "all_fds (i\<lparr>inv_task_id := t\<rparr>) = all_fds i"
  "prepared (i\<lparr>inv_task_id := t\<rparr>) = prepared i" "same_run j (i\<lparr>inv_task_id := t\<rparr>) = same_run j i"
  "remote_list (with_log f i) = remote_list i" "local_list (with_log f i) = local_list i"
  "writer_list (with_log f i) = writer_list i" "all_fds (with_log f i) = all_fds i"
  "prepared (with_log f i) = prepared i" "same_run j (with_log f i) = same_run j i" "same_run (with_log f i) j = same_run i j"
  by (simp_all add: remote_list_def remote_side_def local_list_def writer_list_def all_fds_def prepared_def same_run_def)

definition ready :: "invocation \<Rightarrow> int set \<Rightarrow> invocation \<Rightarrow> bool" where
  "ready i Z j \<longleftrightarrow> prepared j \<and> same_run i j \<and> set (all_fds j) \<inter> Z = {}"

definition kept :: "invocation \<Rightarrow> int set" where "kept j = set (local_list j @ writer_list j)"

lemma ready_update [simp]: "ready i Z (j\<lparr>inv_task_id := t\<rparr>) = ready i Z j" "kept (j\<lparr>inv_task_id := t\<rparr>) = kept j"
  "ready i Z (with_log f j) = ready i Z j" "kept (with_log f j) = kept j"
  by (simp_all add: ready_def kept_def)

lemma all_minus_remote: "prepared j \<Longrightarrow> set (all_fds j) - set (remote_list j) = kept j"
  by (auto simp: prepared_def all_fds_def kept_def)

context invocation_env
begin

lemma prepare_triple:
  assumes "fresh i" "fd \<notin> Z"
  shows "triple (hold (with_log (Some fd) i) Z {fd}) (prepare_invocation_descriptors ops)
    (\<lambda>_ s. \<exists>j. (ready i (insert fd Z) j \<and> inv_task_id j = JNull \<and> lg_file (storlet_logger j) = Some fd) \<and>
       hold j Z (insert fd (set (all_fds j))) s) (\<lambda>_ _. False)"
proof -
  have "\<exists>j w'. prepare_invocation_descriptors ops (with_log (Some fd) i, w) = (Inr (), (j, w')) \<and>
      (ready i (insert fd Z) j \<and> inv_task_id j = JNull \<and> lg_file (storlet_logger j) = Some fd) \<and>
      hold j Z (insert fd (set (all_fds j))) (j, w')" if "hold (with_log (Some fd) i) Z {fd} (with_log (Some fd) i, w)" for w
  proof -
    have w: "ok w" "open_fds w = insert fd Z" using that by (auto simp: held_def)
    have "fresh (with_log None (with_log (Some fd) i))" using assms(1) by (simp add: fresh_def)
    from prepare_spec [OF w(1) this] w(2) assms show ?thesis by (fastforce simp: ready_def held_def fresh_def)
  qed
  then show ?thesis unfolding triple_def held_def by (fastforce split: prod.splits sum.splits)
qed

lemma invoke_triple:
  assumes "fresh i"
  shows "triple (hold i Z {}) (invoke ops)
    (\<lambda>_ s. \<exists>j. (ready i Z j \<and> truthy (inv_task_id j)) \<and> hold j Z (kept j) s)
    (\<lambda>e s. is_Exception e \<and> (hold i Z {} s \<or> (\<exists>j. (ready i Z j \<and> inv_task_id j = JNull) \<and> hold j Z (kept j) s)))"
proof -
  let ?E = "\<lambda>e s. is_Exception e \<and> (hold i Z {} s \<or> (\<exists>j. (ready i Z j \<and> inv_task_id j = JNull) \<and> hold j Z (kept j) s))"
  let ?Q = "\<lambda>_ s. \<exists>j. (ready i Z j \<and> truthy (inv_task_id j)) \<and> hold j Z (kept j) s"
  let ?G = "\<lambda>fd j. ready i (insert fd Z) j \<and> lg_file (storlet_logger j) = Some fd"
  let ?Q1 = "\<lambda>fd _ s. \<exists>j. (?G fd j \<and> truthy (inv_task_id j)) \<and> hold j Z (insert fd (kept j)) s"
  let ?E1 = "\<lambda>fd e s. is_Exception e \<and> (\<exists>j. (?G fd j \<and> inv_task_id j = JNull) \<and> hold j Z (insert fd (kept j)) s)"
  have shut: "triple (hold j Z (insert fd (set (all_fds j)))) (close_remote_side_descriptors ops)
      (\<lambda>_. hold j Z (insert fd (kept j))) (\<lambda>_ _. False)" if "?G fd j" for fd j
  proof -
    have "insert fd (set (all_fds j)) - set (remote_list j) = insert fd (kept j)"
      using that all_minus_remote [of j] by (auto simp: ready_def all_fds_def)
    with close_remote_triple [of j "insert fd (set (all_fds j))" Z] that show ?thesis
      by (auto simp: ready_def all_fds_def)
  qed
  have run: "triple (hold j Z (insert fd (set (all_fds j)))) (efinally (send_execute_command ops) (close_remote_side_descriptors ops))
      (?Q1 fd) (?E1 fd)" if j: "?G fd j" "inv_task_id j = JNull" for fd j
  proof (rule triple_finally [OF send_execute_triple])
    show "triple (\<lambda>s. \<exists>t. truthy t \<and> hold (j\<lparr>inv_task_id := t\<rparr>) Z (insert fd (set (all_fds j))) s)
        (close_remote_side_descriptors ops) (\<lambda>_. ?Q1 fd x) (?E1 fd)" for x
    proof (rule triple_ex, rule triple_conj)
      fix t assume t: "truthy t"
      have "?G fd (j\<lparr>inv_task_id := t\<rparr>)" using j by simp
      from shut [OF this] show "triple (hold (j\<lparr>inv_task_id := t\<rparr>) Z (insert fd (set (all_fds j))))
          (close_remote_side_descriptors ops) (\<lambda>_. ?Q1 fd x) (?E1 fd)"
        by (rule triple_weaken) (use j t in \<open>auto intro!: exI [of _ "j\<lparr>inv_task_id := t\<rparr>"]\<close>)
    qed
    show "triple (\<lambda>s. is_Exception e \<and> hold j Z (insert fd (set (all_fds j))) s) (close_remote_side_descriptors ops)
        (\<lambda>_. ?E1 fd e) (?E1 fd)" for e
      by (rule triple_conj, rule triple_weaken [OF shut [of fd]]) (use j in auto)
  qed (simp add: is_Exception_def)
  have body: "triple (hold (with_log (Some fd) i) Z {fd}) (activate_invocation_descriptors ops (send_execute_command ops))
      (?Q1 fd) (?E1 fd)" if "fd \<notin> Z" for fd
    unfolding activate_invocation_descriptors_def
    by (rule triple_bind [OF triple_noexc [OF prepare_triple [OF assms that]]], rule triple_ex, rule triple_conj, rule run) auto
  have lc: "triple (hold j Z (insert fd (kept j))) (log_close ops) (\<lambda>_. hold (with_log None j) Z (kept j)) (\<lambda>_ _. False)"
    if "?G fd j" for fd j
  proof -
    have "insert fd (kept j) - {fd} = kept j" using that by (auto simp: ready_def all_fds_def kept_def)
    with log_close_triple [of j fd "insert fd (kept j)" Z] that show ?thesis by simp
  qed
  have fin: "triple (hold (with_log (Some fd) i) Z {fd}) (efinally (activate_invocation_descriptors ops (send_execute_command ops)) (log_close ops)) ?Q ?E"
    if "fd \<notin> Z" for fd
  proof (rule triple_finally [OF body [OF that]])
    show "triple (?Q1 fd x) (log_close ops) (\<lambda>_. ?Q x) ?E" for x
    proof (rule triple_ex, rule triple_conj, rule triple_weaken [OF lc [of fd]])
      fix j s assume "?G fd j \<and> truthy (inv_task_id j)" "hold (with_log None j) Z (kept j) s"
      then show "?Q x s" by (intro exI [of _ "with_log None j"]) (auto simp: ready_def)
    qed auto
    show "triple (?E1 fd e) (log_close ops) (\<lambda>_. ?E e) ?E" for e
    proof (rule triple_conj, rule triple_ex, rule triple_conj, rule triple_weaken [OF lc [of fd]])
      fix j s assume "is_Exception e" "?G fd j \<and> inv_task_id j = JNull" "hold (with_log None j) Z (kept j) s"
      then show "?E e s" by (intro conjI disjI2 exI [of _ "with_log None j"]) (auto simp: ready_def)
    qed auto
  qed (simp add: is_Exception_def)
  have "lg_file (storlet_logger i) = None" using assms by (simp add: fresh_def)
  note 1 = triple_weaken [OF log_open_triple [OF this, of Z "{}"], of "hold i Z {}" "\<lambda>_ s. \<exists>fd. fd \<notin> Z \<and> hold (with_log (Some fd) i) Z {fd} s" ?E]
  show ?thesis unfolding invoke_def log_activate_def
  proof (rule triple_bind [OF 1])
    show "triple (\<lambda>s. \<exists>fd. fd \<notin> Z \<and> hold (with_log (Some fd) i) Z {fd} s)
        (efinally (activate_invocation_descriptors ops (send_execute_command ops)) (log_close ops)) ?Q ?E"
      by (rule triple_ex, rule triple_conj, rule fin)
  qed auto
qed

end

context invocation_env
begin

text \<open>Handing the extra inputs to their writers, one by one.\<close>

lemma writers_triple:
  assumes "distinct (map (\<lambda>x. the (xs_write_fd x)) xs)" "\<forall>x \<in> set xs. xs_write_fd x \<noteq> None"
    "set (map (\<lambda>x. the (xs_write_fd x)) xs) \<inter> L = {}"
  shows "triple (hold j Z (L \<union> set (map (\<lambda>x. the (xs_write_fd x)) xs)))
    (eiter (\<lambda>x. start_writer ops (xs_write_fd x, xs_data_iter x)) xs) (\<lambda>_. hold j Z L)
    (\<lambda>e s. is_Exception e \<and> (\<exists>S. S \<subseteq> L \<union> set (map (\<lambda>x. the (xs_write_fd x)) xs) \<and> hold j Z S s))"
  using assms
proof (induction xs)
  case Nil
  then show ?case by (simp add: triple_return)
next
  case (Cons x xs)
  let ?W = "set (map (\<lambda>x. the (xs_write_fd x)) xs)"
  let ?E = "\<lambda>e s. is_Exception e \<and> (\<exists>S. S \<subseteq> L \<union> set (map (\<lambda>x. the (xs_write_fd x)) (x # xs)) \<and> hold j Z S s)"
  obtain fd where fd: "xs_write_fd x = Some fd" "fd \<notin> ?W" "fd \<notin> L" using Cons.prems by auto
  have "triple (hold j Z (insert fd (L \<union> ?W))) (start_writer ops (Some fd, xs_data_iter x))
      (\<lambda>_. hold j Z (insert fd (L \<union> ?W) - {fd})) (\<lambda>e s. is_Exception e \<and> hold j Z (insert fd (L \<union> ?W)) s)"
    by (rule start_writer_triple) simp
  moreover have "insert fd (L \<union> ?W) - {fd} = L \<union> ?W" using fd by auto
  ultimately have 1: "triple (hold j Z (insert fd (L \<union> ?W))) (start_writer ops (Some fd, xs_data_iter x))
      (\<lambda>_. hold j Z (L \<union> ?W)) ?E"
    by (simp, elim triple_weaken) (auto simp: fd(1))
  have "triple (hold j Z (L \<union> ?W)) (eiter (\<lambda>x. start_writer ops (xs_write_fd x, xs_data_iter x)) xs) (\<lambda>_. hold j Z L)
      (\<lambda>e s. is_Exception e \<and> (\<exists>S. S \<subseteq> L \<union> ?W \<and> hold j Z S s))"
    using Cons by (intro Cons.IH) auto
  then have 2: "triple (hold j Z (L \<union> ?W)) (eiter (\<lambda>x. start_writer ops (xs_write_fd x, xs_data_iter x)) xs) (\<lambda>_. hold j Z L) ?E"
    by (rule triple_weaken) auto
  have "L \<union> set (map (\<lambda>x. the (xs_write_fd x)) (x # xs)) = insert fd (L \<union> ?W)" using fd by auto
  with triple_bind [OF 1 2] fd(1) show ?case by simp
qed

lemma data_iter_error: "data_iter d = Inl e \<Longrightarrow> is_Exception e"
  by (auto simp: data_iter_def split: option.splits)

lemma transfer_triple:
  assumes "prepared j"
  shows "triple (hold j Z (kept j)) (transfer ops j) (\<lambda>d. hold j Z {the (data_read_fd j)})
    (\<lambda>e s. is_Exception e \<and> (\<exists>S. S \<subseteq> kept j \<and> hold j Z S s))"
proof -
  let ?E = "\<lambda>e s. is_Exception e \<and> (\<exists>S. S \<subseteq> kept j \<and> hold j Z S s)"
  let ?W = "set (map (\<lambda>x. the (xs_write_fd x)) (extra_data_sources j))"
  obtain dr mr where f: "data_read_fd j = Some dr" "metadata_read_fd j = Some mr" "dr \<noteq> mr"
    using assms by (auto simp: prepared_def local_list_def)
  have 1: "triple (hold j Z (kept j)) (if \<not> has_fd (inv_data j)
            then ebind (eres (data_iter (inv_data j))) (\<lambda>it. start_writer ops (own_input_write_fd j, it))
            else ereturn ()) (\<lambda>_. hold j Z ({dr, mr} \<union> ?W)) ?E"
  proof (cases "has_fd (inv_data j)")
    case True
    then show ?thesis using f by (auto simp: kept_def local_list_def writer_list_def comp_def image_def intro!: triple_return)
  next
    case False
    then obtain fd where fd: "own_input_write_fd j = Some fd" using assms by (auto simp: prepared_def)
    have k: "kept j = insert fd ({dr, mr} \<union> ?W)" "fd \<notin> {dr, mr} \<union> ?W"
      using assms False f fd by (auto simp: prepared_def kept_def local_list_def writer_list_def)
    then have m: "kept j - {fd} = {dr, mr} \<union> ?W" by auto
    have "triple (hold j Z (kept j)) (start_writer ops (Some fd, it)) (\<lambda>_. hold j Z ({dr, mr} \<union> ?W)) ?E" for it
      by (rule triple_weaken [OF start_writer_triple [of fd "kept j" j Z it, unfolded m]]) (use k in auto)
    with False fd show ?thesis
      by (cases "data_iter (inv_data j)") (auto intro!: triple_raise dest: data_iter_error)
  qed
  have sub: "{dr, mr} \<union> ?W \<subseteq> kept j" using f by (auto simp: kept_def local_list_def writer_list_def)
  have 2: "triple (hold j Z ({dr, mr} \<union> ?W)) (eiter (\<lambda>x. start_writer ops (xs_write_fd x, xs_data_iter x)) (extra_data_sources j))
      (\<lambda>_. hold j Z {dr, mr}) ?E"
    by (rule triple_weaken [OF writers_triple [of _ "{dr, mr}"]])
      (use assms f sub in \<open>auto simp: prepared_def local_list_def writer_list_def\<close>)
  have rm: "triple (hold j Z {dr, mr}) (read_metadata ops) (\<lambda>_. hold j Z ({dr, mr} - {mr}))
      (\<lambda>e s. is_Exception e \<and> (hold j Z {dr, mr} s \<or> hold j Z ({dr, mr} - {mr}) s))"
    using f by (intro read_metadata_triple) auto
  have m: "{dr, mr} - {mr} = {dr}" "{dr, mr} \<subseteq> kept j" "{dr} \<subseteq> kept j" using f sub by auto
  have 3: "triple (hold j Z {dr, mr}) (read_metadata ops) (\<lambda>_. hold j Z {dr}) ?E"
    by (rule triple_weaken [OF rm [unfolded m(1)]]) (use m(2,3) in blast)+
  have 4: "triple (hold j Z {dr}) (wait_for_read_with_timeout ops (Some dr)) (\<lambda>_. hold j Z {dr}) ?E"
    by (rule triple_weaken [OF wait_read_triple]) (use sub in auto)
  have 5: "triple (hold j Z {dr}) (eres (StorletData md None (Some dr) 10 True)) (\<lambda>d. hold j Z {the (Some dr)}) ?E" for md
    by (rule triple_res) (auto simp: StorletData_def f)
  show ?thesis unfolding transfer_def f(1)
    by (rule triple_bind [OF 1 triple_bind [OF 2 triple_bind [OF 3 triple_bind [OF 4 5]]]])
qed

end

context invocation_env
begin

text \<open>After a run the only descriptor held is the one of the output; after a failed run at most the writers' ends.\<close>

lemma communicate_triple:
  assumes "fresh i"
  shows "triple (hold i Z {}) (communicate ops)
    (\<lambda>d s. \<exists>j. ready i Z j \<and> data_fd d = data_read_fd j \<and> hold j Z {the (data_read_fd j)} s)
    (\<lambda>e s. is_Exception e \<and> (hold i Z {} s \<or> (\<exists>j S. (ready i Z j \<and> S \<subseteq> set (writer_list j) \<and>
        (inv_task_id j = JNull \<longrightarrow> S = set (writer_list j))) \<and> hold j Z S s)))"
proof -
  let ?E = "\<lambda>e s. is_Exception e \<and> (hold i Z {} s \<or> (\<exists>j S. (ready i Z j \<and> S \<subseteq> set (writer_list j) \<and>
        (inv_task_id j = JNull \<longrightarrow> S = set (writer_list j))) \<and> hold j Z S s))"
  let ?Eb = "\<lambda>e s. is_Exception e \<and> (hold i Z {} s \<or> (\<exists>j S. (ready i Z j \<and> S \<subseteq> kept j \<and>
        (inv_task_id j = JNull \<longrightarrow> S = kept j)) \<and> hold j Z S s))"
  let ?Q = "\<lambda>d s. \<exists>j. ready i Z j \<and> data_fd d = data_read_fd j \<and> hold j Z {the (data_read_fd j)} s"
  have d: "data_fd x = data_read_fd j" if "transfer ops j s = (Inr x, s')" for x j s s'
    using that by (auto simp: transfer_def ebind_def eres_def StorletData_def split: prod.splits sum.splits if_splits)
  have 2: "triple (hold j Z (kept j)) (ebind (eget id) (transfer ops)) ?Q ?Eb"
    if j: "ready i Z j \<and> truthy (inv_task_id j)" for j
  proof (rule get_hold, rule tripleI)
    have p: "prepared j" "inv_task_id j \<noteq> JNull" using j by (auto simp: ready_def)
    note t = transfer_triple [OF p(1), of Z]
    show "?Q x s'" if "hold j Z (kept j) s" "transfer ops (id j) s = (Inr x, s')" for s x s'
      using tripleD1 [OF t that(1)] that(2) d [of j s x s'] j by auto
    show "?Eb e s'" if "hold j Z (kept j) s" "transfer ops (id j) s = (Inl e, s')" for s e s'
      using tripleD2 [OF t that(1)] that(2) j p(2) by auto
  qed
  have 1: "triple (hold i Z {}) (invoke ops) (\<lambda>_ s. \<exists>j. (ready i Z j \<and> truthy (inv_task_id j)) \<and> hold j Z (kept j) s) ?Eb"
    by (rule triple_weaken [OF invoke_triple [OF assms]]) auto
  have body: "triple (hold i Z {}) (communicate_body ops) ?Q ?Eb" unfolding communicate_body_def
    by (rule triple_bind [OF 1], rule triple_ex, rule triple_conj, rule 2)
  have cl: "triple (hold j Z S) (ebind (close_local_side_descriptors ops) (\<lambda>_. eraise e)) ?Q ?E"
    if j: "ready i Z j \<and> S \<subseteq> kept j \<and> (inv_task_id j = JNull \<longrightarrow> S = kept j)" and e: "is_Exception e" for j S e
  proof (rule triple_bind)
    have l: "set (local_list j) \<inter> Z = {}" "prepared j" using j by (auto simp: ready_def all_fds_def)
    show "triple (hold j Z S) (close_local_side_descriptors ops) (\<lambda>_. hold j Z (S - set (local_list j))) ?E"
      by (rule triple_noexc [OF close_local_triple [OF l(2,1)]])
    have "kept j - set (local_list j) = set (writer_list j)"
      using l(2) by (auto simp: prepared_def kept_def)
    with j have "S - set (local_list j) \<subseteq> set (writer_list j)" "inv_task_id j = JNull \<longrightarrow> S - set (local_list j) = set (writer_list j)"
      by blast+
    then show "triple (hold j Z (S - set (local_list j))) (eraise e) ?Q ?E"
      using j e by (intro triple_raise) blast
  qed
  have fr: "triple (hold i Z {}) (ebind (close_local_side_descriptors ops) (\<lambda>_. eraise e)) ?Q ?E" for e
    using assms close_local_fresh by (auto simp: triple_def held_def ebind_def fresh_def)
  show ?thesis unfolding communicate_def
  proof (rule triple_try [OF body])
    show "triple (?Eb e) (if is_Exception e then ebind (close_local_side_descriptors ops) (\<lambda>_. eraise e) else eraise e) ?Q ?E" for e
    proof (cases "is_Exception e")
      case True
      have "triple (?Eb e) (ebind (close_local_side_descriptors ops) (\<lambda>_. eraise e)) ?Q ?E"
        by (rule triple_conj, rule triple_disj, rule fr, rule triple_ex, rule triple_ex, rule triple_conj, rule cl)
      with True show ?thesis by simp
    qed (simp add: triple_raise)
  qed
qed

lemma write_chunks_triple:
  assumes "\<And>c w r w'. ok w \<Longrightarrow> wr fd c w = (r, w') \<Longrightarrow> ok w' \<and> open_fds w' = open_fds w \<and> (\<forall>e. r = Inl e \<longrightarrow> is_Exception e)"
  shows "triple (hold i Z S) (write_chunks wr fd cs) (\<lambda>_. hold i Z S) (\<lambda>e s. is_Exception e \<and> hold i Z S s)"
proof (induction cs)
  case Nil
  then show ?case by (simp add: triple_return)
next
  case (Cons c cs)
  have "triple (hold i Z S) (eworld (wr fd c)) (\<lambda>_. hold i Z S) (\<lambda>e s. is_Exception e \<and> hold i Z S s)"
    by (rule keep_world, rule assms)
  from triple_bind [OF this Cons.IH] show ?case by simp
qed

text \<open>A writer thread closes its descriptor and raises nothing, whatever happens while it writes.\<close>

lemma write_input_triple:
  assumes "\<And>c w r w'. ok w \<Longrightarrow> wr fd c w = (r, w') \<Longrightarrow> ok w' \<and> open_fds w' = open_fds w \<and> (\<forall>e. r = Inl e \<longrightarrow> is_Exception e)"
    and "fd \<in> S" "fd \<notin> Z"
  shows "triple (hold i Z S) (write_input_data ops wr fd cs) (\<lambda>_. hold i Z (S - {fd})) (\<lambda>_ _. False)"
proof -
  note 1 = write_chunks_triple [of wr fd i Z S cs, OF assms(1)]
  have 2: "triple (hold i Z S) (efinally (write_chunks wr fd cs) (esys (pipe_close (io ops) fd)))
      (\<lambda>_. hold i Z (S - {fd})) (\<lambda>e s. is_Exception e \<and> hold i Z (S - {fd}) s)"
  proof (rule triple_finally [OF 1])
    show "triple (\<lambda>s. is_Exception e \<and> hold i Z S s) (esys (pipe_close (io ops) fd))
      (\<lambda>_ s. is_Exception e \<and> hold i Z (S - {fd}) s) (\<lambda>e s. is_Exception e \<and> hold i Z (S - {fd}) s)" for e
      by (rule triple_conj, rule triple_weaken [OF close_triple [OF assms(2)]]) auto
  qed (auto simp: is_Exception_def intro: triple_noexc close_triple assms)
  have 3: "triple (hold i Z S) (etry (efinally (write_chunks wr fd cs) (esys (pipe_close (io ops) fd)))
      (\<lambda>e. if is_Exception e then ereturn () else eraise e)) (\<lambda>_. hold i Z (S - {fd})) (\<lambda>_ _. False)"
    by (rule triple_try [OF 2]) (simp add: triple_return triple_raise)
  have "triple (hold i Z (S - {fd})) (inv_safe_close ops [Some fd]) (\<lambda>_. hold i Z (S - {fd})) (\<lambda>_ _. False)"
    using safe_close_list [of "[fd]" Z i "S - {fd}"] assms(3) by simp
  with 3 show ?thesis unfolding write_input_data_def by (rule triple_finally) (auto simp: triple_def)
qed

end

section \<open>A host with a served pipe\<close>

text \<open>The world of a run whose daemon is a server with handlers \<open>hs\<close>: the client's pipes and requests are those of
  \<open>Client\<close>, \<open>hp_data\<close> is what the storlet will have written to a pipe, and a writer thread runs as
  \<open>write_input_data\<close> as soon as it is spawned.\<close>

record 's host =
  hp_served :: "'s served"
  hp_data :: "int \<Rightarrow> string"

definition on_served :: "('s served \<Rightarrow> 'a \<times> 's served) \<Rightarrow> 's host \<Rightarrow> 'a \<times> 's host" where
  "on_served f w = (case f (hp_served w) of (x, v) \<Rightarrow> (x, w\<lparr>hp_served := v\<rparr>))"

definition host_read :: "int \<Rightarrow> nat \<Rightarrow> 's host \<Rightarrow> (errno + string) \<times> 's host" where
  "host_read fd n w = (if hp_data w fd \<noteq> []
     then (Inr (take n (hp_data w fd)), w\<lparr>hp_data := (hp_data w)(fd := drop n (hp_data w fd))\<rparr>)
     else on_served (sv_read fd n) w)"

definition host_rest :: "int \<Rightarrow> 's host \<Rightarrow> string" where
  "host_rest fd w = hp_data w fd @ sv_reply (hp_served w)"

definition host_open :: "'s served \<Rightarrow> (errno + int) \<times> 's served" where
  "host_open w = (Inr (sv_next w), w\<lparr>sv_open := sv_next w # sv_open w, sv_next := sv_next w + 1\<rparr>)"

type_synonym 's serve = "string \<Rightarrow> send_args \<Rightarrow> 's served \<Rightarrow> int \<times> 's served"

definition host_base :: "'s serve \<Rightarrow> 's host inv_ops" where
  "host_base srv =
     \<lparr>io = \<lparr>os_pipe = on_served sv_pipe, sbus_send_msg = (\<lambda>n a. on_served (srv n a)), os_read = host_read,
           pipe_close = (\<lambda>fd. on_served (sv_close fd))\<rparr>,
      dirs = \<lparr>path_exists = (\<lambda>_ _. True), os_makedirs = (\<lambda>_ _ w. (Inr (), w)), os_chmod = (\<lambda>_ _ w. (Inr (), w))\<rparr>,
      open_append = (\<lambda>_. on_served host_open),
      select_read = (\<lambda>fd w. (Inr [fd], w)), select_write = (\<lambda>fd w. (Inr [fd], w)),
      spawn_writer = (\<lambda>_ _ w. w)\<rparr>"

definition source_chunks :: "data_source \<Rightarrow> string list" where
  "source_chunks src = (case src of Chunks cs \<Rightarrow> cs | FromFd _ \<Rightarrow> [])"

definition host_ops :: "'s serve \<Rightarrow> 's host inv_ops" where
  "host_ops srv = (host_base srv)\<lparr>spawn_writer := (\<lambda>fd src w.
     snd (snd (write_input_data (host_base srv) (\<lambda>_ _ w. (Inr (), w)) fd (source_chunks src) ((), w))))\<rparr>"

lemmas host_defs = host_ops_def host_base_def on_served_def host_read_def host_rest_def host_open_def sv_close_def sv_read_def
  sv_pipe_def sv_ok_def

lemma write_chunks_quiet: "write_chunks (\<lambda>_ _ w. (Inr (), w)) fd cs s = (Inr (), s)"
  by (induction cs) (auto simp: eff_defs)

lemma host_spawn:
  assumes "sv_ok (hp_served w)" "fd \<in> set (sv_open (hp_served w))"
  shows "spawn_writer (host_ops srv) fd src w = w\<lparr>hp_served := (hp_served w)\<lparr>sv_open := removeAll fd (sv_open (hp_served w))\<rparr>\<rparr>"
  using assms by (simp add: host_defs write_input_data_def inv_safe_close_def close_fd_def fd_arg_def efinally_def etry_def
      write_chunks_quiet esys_def ebind_def ereturn_def)

lemma host_env:
  assumes "\<And>n a w rc w'. srv n a w = (rc, w') \<Longrightarrow> sv_open w' = sv_open w \<and> sv_next w' = sv_next w"
  shows "invocation_env (host_ops srv) (\<lambda>w. set (sv_open (hp_served w))) host_rest (\<lambda>w. sv_ok (hp_served w))"
proof (unfold_locales, goal_cases)
  case (1 w p w')
  then show ?case by (force simp: host_defs)
next
  case (2 w name a rc w')
  then show ?case using assms by (fastforce simp: host_defs split: prod.splits)
next
  case (3 w fd n b w')
  then show ?case by (auto simp: host_defs split: if_splits)
next
  case (4 w fd c w')
  then show ?case by (auto simp: host_defs)
next
  case (10 w fd src)
  then show ?case by (simp add: host_spawn) (auto simp: sv_ok_def)
qed (force simp: host_defs)+

interpretation host: invocation_env "host_ops (sv_serve hs)" "\<lambda>w. set (sv_open (hp_served w))" host_rest
    "\<lambda>w. sv_ok (hp_served w)" for hs
  by (rule host_env) (rule sv_serve_open)

section \<open>Properties\<close>

text \<open>C9: A run of a storlet accounts for every descriptor. When \<open>communicate\<close> returns, the process holds exactly one
  descriptor more than before, the output of the storlet that the response carries. When it raises, the data and
  metadata pipes, the log file and all ends meant for the container are closed and only write ends of inputs that no
  writer took over may be left; for a request whose data is a descriptor and that has no extra inputs nothing is left.
  It never fails to return.\<close>

theorem communicate_descriptors:
  assumes "invocation_env ops open_fds rest ok" "ok w" "StorletInvocationProtocol r p l = Inr i"
    "communicate ops (i, w) = (res, (j, w'))"
  shows "case res of
      Inr d \<Rightarrow> (\<exists>fd. data_fd d = Some fd \<and> fd \<notin> open_fds w \<and> open_fds w' = insert fd (open_fds w))
    | Inl e \<Rightarrow> is_Exception e \<and> open_fds w \<subseteq> open_fds w' \<and> open_fds w' \<subseteq> open_fds w \<union> set (writer_list j) \<and>
        (has_fd (sr_data (cr_request r)) \<and> extra_data_list (cr_request r) = [] \<longrightarrow> open_fds w' = open_fds w)"
proof -
  note f = protocol_fresh [OF assms(3)]
  note t = invocation_env.communicate_triple [OF assms(1) conjunct1 [OF f], of "open_fds w"]
  have h: "held open_fds ok i (open_fds w) {} (i, w)" using assms(2) by (simp add: held_def)
  have x: "extra_data_sources i = []" if "extra_data_list (cr_request r) = []"
    using assms(3) that by (auto simp: StorletInvocationProtocol_def)
  show ?thesis
  proof (cases res)
    case (Inr d)
    from tripleD1 [OF t h assms(4) [unfolded Inr]] obtain j' where j': "ready i (open_fds w) j'" "data_fd d = data_read_fd j'"
        "held open_fds ok j' (open_fds w) {the (data_read_fd j')} (j, w')" by blast
    then show ?thesis using Inr by (auto simp: held_def ready_def prepared_def)
  next
    case (Inl e)
    note e = tripleD2 [OF t h assms(4) [unfolded Inl]]
    then consider "held open_fds ok i (open_fds w) {} (j, w')"
      | S where "ready i (open_fds w) j" "S \<subseteq> set (writer_list j)" "held open_fds ok j (open_fds w) S (j, w')"
      unfolding held_def by auto
    then show ?thesis
    proof cases
      case 1
      then show ?thesis using Inl e by (simp add: held_def)
    next
      case (2 S)
      have "writer_list j = []" if "has_fd (sr_data (cr_request r))" "extra_data_list (cr_request r) = []"
        using that x f 2(1) by (simp add: ready_def same_run_def writer_list_def)
      moreover have "open_fds w' = open_fds w \<union> S" using 2(3) by (simp add: held_def)
      ultimately show ?thesis using Inl e 2(2) by auto
    qed
  qed
qed

definition ping_host :: "nat host" where
  "ping_host = \<lparr>hp_served = sample_served, hp_data = (\<lambda>_. [])\<rparr>"

text \<open>A request whose data is in chunks, and a daemon that is gone.\<close>

definition no_server :: "nat serve" where "no_server n a w = (- 1, w)"

lemma no_server_env:
  "invocation_env (host_ops no_server) (\<lambda>w. set (sv_open (hp_served w))) host_rest (\<lambda>w. sv_ok (hp_served w))"
  by (rule host_env) (simp add: no_server_def)

definition chunk_request :: container_request where
  "chunk_request = sample_request\<lparr>cr_request := (cr_request sample_request)\<lparr>sr_data :=
     \<lparr>user_metadata = JNull, data_fd = None, sd_data_iter = Some [''abc''], sd_timeout = 10, sd_cancel = False\<rparr>\<rparr>\<rparr>"

definition refused_run :: "storlet_data res \<times> invocation \<times> nat host" where
  "refused_run = (case StorletInvocationProtocol chunk_request ''/pipe'' ''/log/f'' of
     Inr i \<Rightarrow> communicate (host_ops no_server) (i, ping_host))"

theorem communicate_descriptors_witness:
  "\<exists>e. fst refused_run = Inl e \<and> is_Exception e"
proof -
  obtain i where i: "StorletInvocationProtocol chunk_request ''/pipe'' ''/log/f'' = Inr i"
    by (simp add: StorletInvocationProtocol_def chunk_request_def sample_request_def)
  obtain res j w' where c: "refused_run = (res, (j, w'))" by (metis surj_pair)
  have "communicate (host_ops no_server) (i, ping_host) = (res, (j, w'))" using c i by (simp add: refused_run_def)
  from communicate_descriptors [OF no_server_env _ i this] have
    "\<And>e. res = Inl e \<Longrightarrow> is_Exception e" by (auto simp: ping_host_def sample_served_ok)
  moreover have "case fst refused_run of Inl _ \<Rightarrow> True | Inr _ \<Rightarrow> False" by code_simp
  ultimately show ?thesis unfolding c by (cases res) auto
qed

text \<open>The write end of the input leaks when the command is not accepted: a request whose data is in chunks and whose
  run got as far as its pipes but no task leaves that descriptor open for good, since the only code that closes it is
  the writer that was never started.\<close>

theorem refused_run_leaks_input:
  assumes "invocation_env ops open_fds rest ok" "ok w" "StorletInvocationProtocol r p l = Inr i"
    "communicate ops (i, w) = (Inl e, (j, w'))" "inv_task_id j = JNull" "metadata_read_fd j \<noteq> None"
    "\<not> has_fd (sr_data (cr_request r))"
  shows "\<exists>fd. own_input_write_fd j = Some fd \<and> fd \<notin> open_fds w \<and> fd \<in> open_fds w'"
proof -
  note f = protocol_fresh [OF assms(3)]
  note t = invocation_env.communicate_triple [OF assms(1) conjunct1 [OF f], of "open_fds w"]
  have "held open_fds ok i (open_fds w) {} (i, w)" using assms(2) by (simp add: held_def)
  note e = tripleD2 [OF t this assms(4)]
  have "\<not> held open_fds ok i (open_fds w) {} (j, w')" using assms(6) f by (auto simp: held_def fresh_def)
  with e assms(5) have j: "ready i (open_fds w) j" "held open_fds ok j (open_fds w) (set (writer_list j)) (j, w')"
    unfolding held_def by auto
  have "\<not> has_fd (inv_data j)" using j(1) assms(7) f by (simp add: ready_def same_run_def)
  then obtain fd where "own_input_write_fd j = Some fd" "fd \<in> set (writer_list j)"
    using j(1) by (auto simp: ready_def prepared_def writer_list_def)
  then show ?thesis using j(2) by (auto simp: held_def)
qed

theorem refused_run_leaks_input_witness:
  "case refused_run of (_, j, w') \<Rightarrow> \<exists>fd. own_input_write_fd j = Some fd \<and> fd \<in> set (sv_open (hp_served w'))"
proof -
  obtain i where i: "StorletInvocationProtocol chunk_request ''/pipe'' ''/log/f'' = Inr i"
    by (simp add: StorletInvocationProtocol_def chunk_request_def sample_request_def)
  have "case refused_run of (res, j, w') \<Rightarrow> (case res of Inl _ \<Rightarrow> inv_task_id j = JNull \<and> metadata_read_fd j \<noteq> None | Inr _ \<Rightarrow> False)"
    by code_simp
  then obtain e j w' where c: "refused_run = (Inl e, (j, w'))" "inv_task_id j = JNull" "metadata_read_fd j \<noteq> None"
    by (auto split: prod.splits sum.splits)
  then have "communicate (host_ops no_server) (i, ping_host) = (Inl e, (j, w'))" using i by (simp add: refused_run_def)
  from refused_run_leaks_input [OF no_server_env _ i this c(2,3)] show ?thesis
    unfolding c(1) by (auto simp: ping_host_def sample_served_ok chunk_request_def has_fd_def)
qed

text \<open>A writer thread always gives its descriptor back: whatever a write raises, the descriptor is closed when
  \<open>_write_input_data\<close> returns, it does return, and it raises nothing.\<close>

theorem writer_closes:
  assumes "invocation_env ops open_fds rest ok" "ok w" "fd \<in> open_fds w"
    "\<And>c w r w'. ok w \<Longrightarrow> wr fd c w = (r, w') \<Longrightarrow> ok w' \<and> open_fds w' = open_fds w \<and> (\<forall>e. r = Inl e \<longrightarrow> is_Exception e)"
  shows "\<exists>w'. write_input_data ops wr fd cs (i, w) = (Inr (), (i, w')) \<and> open_fds w' = open_fds w - {fd}"
proof -
  let ?Z = "open_fds w - {fd}"
  have h: "held open_fds ok i ?Z {fd} (i, w)" using assms(2,3) by (auto simp: held_def)
  have t: "triple (held open_fds ok i ?Z {fd}) (write_input_data ops wr fd cs) (\<lambda>_. held open_fds ok i ?Z ({fd} - {fd})) (\<lambda>_ _. False)"
    by (rule invocation_env.write_input_triple [OF assms(1,4)]) auto
  obtain x s where s: "write_input_data ops wr fd cs (i, w) = (x, s)" by (metis surj_pair)
  with tripleD1 [OF t h] tripleD2 [OF t h] show ?thesis by (cases x; cases s) (auto simp: held_def)
qed

theorem writer_closes_witness:
  "\<exists>w'. write_input_data (host_ops (sv_serve [])) (\<lambda>_ _ w. (Inl StorletTimeout, w)) 3 [''a''] ((),
      ping_host\<lparr>hp_served := sample_served\<lparr>sv_open := [3]\<rparr>\<rparr>) = (Inr (), ((), w')) \<and> set (sv_open (hp_served w')) = {}"
proof -
  have "\<exists>w'. write_input_data (host_ops (sv_serve [])) (\<lambda>_ _ w. (Inl StorletTimeout, w)) 3 [''a''] ((),
      ping_host\<lparr>hp_served := sample_served\<lparr>sv_open := [3]\<rparr>\<rparr>) = (Inr (), ((), w')) \<and>
      set (sv_open (hp_served w')) = set (sv_open (hp_served (ping_host\<lparr>hp_served := sample_served\<lparr>sv_open := [3]\<rparr>\<rparr>))) - {3}"
    by (rule writer_closes [OF host.invocation_env_axioms]) (auto simp: sv_ok_def sample_served_def)
  then show ?thesis by simp
qed


text \<open>A container that answers every command, for a whole run.\<close>

definition flow_io :: "string pipe_ops" where
  "flow_io = yes_ops\<lparr>sbus_send_msg := (\<lambda>n a w. (0, ''{'' @ [dquote] @ ''status'' @ [dquote] @ '': true, '' @ [dquote] @ ''message'' @ [dquote]
       @ '': 1, '' @ [dquote] @ ''task_id'' @ [dquote] @ '': '' @ [dquote] @ ''t'' @ [dquote] @ ''}'')),
     os_read := (\<lambda>fd n w. if n = MAX_METADATA_SIZE then (Inr ''{}'', w) else (Inr (take n w), drop n w))\<rparr>"

definition flow_sample :: "string flow_ops" where
  "flow_sample = \<lparr>fl_inv = \<lparr>io = flow_io, dirs = yes_dirs, open_append = (\<lambda>p w. (Inr 7, w)),
       select_read = (\<lambda>fd w. (Inr [fd], w)), select_write = (\<lambda>fd w. (Inr [fd], w)), spawn_writer = (\<lambda>fd s w. w)\<rparr>,
     fl_restart = (\<lambda>sb img w. (Inr (), w)), fl_budgets = (1, 1), fl_get_storlet = sample_get, fl_get_dependency = sample_get,
     fl_put_log = (\<lambda>p n w. (Inr (), w))\<rparr>"

definition sample_gateway :: gateway where
  "sample_gateway = \<lparr>gw_conf = [], gw_scope = ''scope'', storlet_timeout = 40 * nano, gw_paths = sample_paths\<rparr>"


end
