(* ===== verification/Runs.thy ===== *)
theory Runs
  imports Factory Invocation
begin

text \<open>
  Where the gateway's run of a storlet meets the storlet daemon: the descriptors of the execute command as the daemon
  reads them, the state of the daemon after a command came through the client, and the metadata a storlet sends.
\<close>

section \<open>The state of the server after a request\<close>

lemma served_close [simp]:
  "sv_state (snd (finally_close (served_ops hs) fd rw)) = sv_state (snd rw)"
  by (auto simp: finally_close_def served_ops_def sv_close_def split: prod.splits sum.splits)

lemma served_read_reply:
  "read_reply (served_ops hs) fd n acc w = Some y \<Longrightarrow> sv_state (snd y) = sv_state w"
proof (induction "length (sv_reply w)" arbitrary: acc w rule: less_induct)
  case less
  have rd: "os_read (served_ops hs) fd n w = (Inr (take n (sv_reply w)), w\<lparr>sv_reply := drop n (sv_reply w)\<rparr>)"
    by (simp add: served_ops_def sv_read_def)
  show ?case
  proof (cases "take n (sv_reply w) = []")
    case True
    then show ?thesis using less.prems
      by (auto simp: read_reply.simps [of "served_ops hs" fd n acc w] rd)
  next
    case False
    let ?w = "w\<lparr>sv_reply := drop n (sv_reply w)\<rparr>"
    have "read_reply (served_ops hs) fd n (acc @ take n (sv_reply w)) ?w = Some y"
      using less.prems False
      by (simp add: read_reply.simps [of "served_ops hs" fd n acc w] rd)
    moreover have "length (sv_reply ?w) < length (sv_reply w)" using False by auto
    ultimately show ?thesis using less.hyps by fastforce
  qed
qed

lemma request_state:
  assumes "send_command (served_ops hs) path (sv_next w + 1) cmd ps tid extra (snd (sv_pipe w)) = (Inr (), w2)"
    "request (served_ops hs) path n cmd ps tid extra w = (r, w')"
  shows "sv_state w' = sv_state w2"
proof -
  have p: "os_pipe (served_ops hs) w = (Inr (sv_next w, sv_next w + 1), snd (sv_pipe w))"
    by (simp add: served_ops_def sv_pipe_def)
  obtain r3 w3 where c: "finally_close (served_ops hs) (sv_next w + 1) (Inr () :: unit res, w2) = (r3, w3)" by fastforce
  have w3: "sv_state w3 = sv_state w2" using served_close [of hs "sv_next w + 1" "(Inr (), w2)"] c by simp
  show ?thesis
  proof (cases r3)
    case (Inl e)
    then show ?thesis using assms(2) w3 served_close [of hs "sv_next w" "(Inl e :: sbus_response res, w3)"]
      by (simp add: request_def p assms(1) c)
  next
    case (Inr u)
    show ?thesis
    proof (cases "read_reply (served_ops hs) (sv_next w) n [] w3")
      case None
      then show ?thesis using assms(2) Inr w3 by (simp add: request_def p assms(1) c)
    next
      case (Some y)
      then show ?thesis using assms(2) Inr w3 served_read_reply [OF Some] served_close [of hs "sv_next w" y]
        by (cases "finally_close (served_ops hs) (sv_next w) y") (simp add: request_def p assms(1) c)
    qed
  qed
qed

text \<open>\<open>request_served\<close> with the state the server is left in.\<close>

lemma request_served_state:
  assumes srv: "sbus_server hs I" and st: "I (sv_state w)" and ok: "sv_ok w" "0 < n"
    and d: "build_datagram cmd ss ps tid = Inr d"
    and ss: "ss = SBusFileDescriptor SBUS_FD_SERVICE_OUT (sv_next w + 1) [] JNull # extra"
    and dok: "dtg_ok d" and size: "wire_size d \<le> MAX_MSG_LENGTH" and nf: "length ss < 2 ^ 31"
    and h: "handle_command hs (d\<lparr>sfds := renumber (map int [0 ..< length ss]) ss\<rparr>) (sv_state w) = (Inr r, st')"
  shows "\<exists>w'. request (served_ops hs) path n cmd ps tid extra w = (Inr (response_of r), w') \<and>
    set (sv_open w') = set (sv_open w) \<and> sv_state w' = st'"
proof -
  obtain w' where w': "request (served_ops hs) path n cmd ps tid extra w = (Inr (response_of r), w')"
      "set (sv_open w') = set (sv_open w)"
    using request_served [OF srv st ok d ss dok size nf, of path] h by auto
  have "sv_state (snd (sv_pipe w)) = sv_state w" by (simp add: sv_pipe_def)
  then obtain w2 where "send_command (served_ops hs) path (sv_next w + 1) cmd ps tid extra (snd (sv_pipe w)) = (Inr (), w2)" "sv_state w2 = st'"
    using send_served [OF srv _ d ss dok size nf, of "snd (sv_pipe w)" path] st h by auto
  then show ?thesis using request_state [OF _ w'(1)] w' by auto
qed

section \<open>Cancelling over the wire\<close>

definition cancel_sent :: "string \<Rightarrow> int \<Rightarrow> datagram" where
  "cancel_sent t wfd = \<lparr>dclass = SBusServiceDatagram, command = JStr ''SBUS_CMD_CANCEL'',
     sfds = [SBusFileDescriptor SBUS_FD_SERVICE_OUT wfd [] JNull], params = JNull, task_id = JStr t\<rparr>"

lemma cancel_sent:
  "build_datagram (JStr ''SBUS_CMD_CANCEL'') [SBusFileDescriptor SBUS_FD_SERVICE_OUT wfd [] JNull] JNull (JStr t)
     = Inr (cancel_sent t wfd)"
  "t \<noteq> [] \<Longrightarrow> dtg_ok (cancel_sent t wfd)"
  by (simp_all add: cancel_sent_def build_datagram_def service_datagram_def datagram_init_Inr SBusFileDescriptor_def
      dtg_ok_def sfd_ok_def opt_ok_def fd_consts dict_ok_def)

lemma cancel_wire_size: "wire_size (cancel_sent t wfd) = wire_size (cancel_sent t 0)"
  by (simp add: wire_size_def serialized_metadata_def serialized_cmd_params_def metadata_def cmd_params_def
      cancel_sent_def sfd_metadata_def SBusFileDescriptor_def Let_def)

lemma handle_cancel:
  assumes "command dtg = JStr ''SBUS_CMD_CANCEL''" "daemon_cancel ops dtg s = (Inr r, s')"
  shows "handle_command (daemon_handlers ops content) dtg s = (Inr r, s')"
proof -
  have "''SBUS_CMD_CANCEL'' \<in> set sbus_cmd_attrs" by code_simp
  moreover have "lower (drop (length SBUS_CMD_PREFIX) ''SBUS_CMD_CANCEL'') = ''cancel''" by code_simp
  ultimately show ?thesis using assms by (simp add: handle_command_def get_handler_def daemon_handlers_def)
qed

lemma cancel_over_wire:
  assumes os: "process_os dops children ok" and inv: "daemon_inv children ok (sv_state w)" and w: "sv_ok w"
    and t: "dict_get (task_id_to_pid (sv_state w)) t = Some pid" "t \<noteq> []" "wire_size (cancel_sent t 0) \<le> MAX_MSG_LENGTH"
  shows "\<exists>w'. client_cancel (served_ops (daemon_handlers dops content)) (SBusClient p) (JStr t) w
      = (Inr (response_of (CommandSuccess (''Cancelled task '' @ t) False None)), w') \<and> set (sv_open w') = set (sv_open w) \<and>
    task_id_to_pid (sv_state w') = dict_pop t (task_id_to_pid (sv_state w))"
proof -
  let ?ss = "[SBusFileDescriptor SBUS_FD_SERVICE_OUT (sv_next w + 1) [] JNull]"
  let ?d = "(cancel_sent t (sv_next w + 1))\<lparr>sfds := renumber (map int [0 ..< length ?ss]) ?ss\<rparr>"
  have "task_id ?d = JStr t" by (simp add: cancel_sent_def)
  from process_os.daemon_cancel_known [OF os inv this t(1)] obtain v where
    "daemon_cancel dops ?d (sv_state w) = (Inr (CommandSuccess (''Cancelled task '' @ t) False None),
       (sv_state w)\<lparr>task_id_to_pid := dict_pop t (task_id_to_pid (sv_state w)), d_world := v\<rparr>)" by blast
  then have h: "handle_command (daemon_handlers dops content) ?d (sv_state w) = (Inr (CommandSuccess (''Cancelled task '' @ t) False None),
       (sv_state w)\<lparr>task_id_to_pid := dict_pop t (task_id_to_pid (sv_state w)), d_world := v\<rparr>)"
    by (rule handle_cancel [rotated]) (simp add: cancel_sent_def)
  have s: "wire_size (cancel_sent t (sv_next w + 1)) \<le> MAX_MSG_LENGTH" using t(3) by (simp only: cancel_wire_size [of t "sv_next w + 1"])
  from request_served_state [OF process_os.daemon_server [OF os] inv w _ cancel_sent(1) refl cancel_sent(2) [OF t(2)] s _ h,
      where path = p and n = 16]
  obtain w' where "request (served_ops (daemon_handlers dops content)) p 16 (JStr ''SBUS_CMD_CANCEL'') JNull (JStr t) [] w =
      (Inr (response_of (CommandSuccess (''Cancelled task '' @ t) False None)), w')" "set (sv_open w') = set (sv_open w)"
      "sv_state w' = (sv_state w)\<lparr>task_id_to_pid := dict_pop t (task_id_to_pid (sv_state w)), d_world := v\<rparr>"
    by (simp del: append.simps) blast
  then show ?thesis by (intro exI [of _ w']) (simp add: client_cancel_def client_request_def SBusClient_def del: append.simps)
qed

section \<open>The execute command\<close>

lemma remote_fds_Inr:
  assumes "remote_fds (i, w) = (Inr rs, s)"
  shows "\<exists>a out md lg. input_data_read_fd i = Some a \<and> data_write_fd i = Some out \<and> metadata_write_fd i = Some md \<and>
    lg_file (storlet_logger i) = Some lg \<and>
    rs = [SBusFileDescriptor SBUS_FD_INPUT_OBJECT a (range_metadata (srequest i)) (user_metadata (inv_data i)),
      SBusFileDescriptor SBUS_FD_OUTPUT_OBJECT out [] JNull, SBusFileDescriptor SBUS_FD_OUTPUT_OBJECT_METADATA md [] JNull,
      SBusFileDescriptor SBUS_FD_LOGGER lg [] JNull]
      @ map (\<lambda>x. SBusFileDescriptor SBUS_FD_INPUT_OBJECT (the (xs_read_fd x)) [] (xs_user_metadata x)) (extra_data_sources i)"
proof -
  have m: "mapM (\<lambda>x. rbind (fd_arg (xs_read_fd x)) (\<lambda>fd. Inr (SBusFileDescriptor SBUS_FD_INPUT_OBJECT fd [] (xs_user_metadata x)))) xs = Inr ys
      \<Longrightarrow> ys = map (\<lambda>x. SBusFileDescriptor SBUS_FD_INPUT_OBJECT (the (xs_read_fd x)) [] (xs_user_metadata x)) xs" for xs ys
    by (induction xs arbitrary: ys) (auto simp: rbind_Inr_iff fd_arg_def split: option.splits)
  show ?thesis using assms
    by (auto simp: remote_fds_def log_getfd_def ebind_def eget_def eres_def ereturn_def eraise_def fd_arg_def
        split: option.splits sum.splits dest!: m [unfolded fd_arg_def])
qed

lemma SBusFileDescriptor_sel [simp]: "fdtype (SBusFileDescriptor t f sm gm) = t" "fileno (SBusFileDescriptor t f sm gm) = f"
  "storlets_metadata (SBusFileDescriptor t f sm gm) = sm"
  by (simp_all add: SBusFileDescriptor_def)

lemma range_create_input:
  assumes "cr_start r = JInt a" "cr_end r = JInt b"
  shows "create_input_file content (range_metadata r) md fd = StorletRangeInputFile md fd (content fd) a b"
  using assms by (simp add: range_metadata_def has_range_def create_input_file_def opt_get_def dict_get_def py_int_int_str)


section \<open>The metadata of the output\<close>

context invocation_env
begin

lemma read_metadata_decoded:
  assumes "ok w" "metadata_read_fd i = Some fd" "fd \<in> open_fds w" "select_read ops fd w = (Inr [fd], w1)"
    "os_read (io ops) fd MAX_METADATA_SIZE w1 = (Inr b, w2)" "rbind (utf8_decode b) loads = Inr md"
  shows "\<exists>w'. read_metadata ops (i, w) = (Inr md, (i, w')) \<and> open_fds w' = open_fds w - {fd}"
proof -
  have w1: "ok w1" "open_fds w1 = open_fds w" using sel_read [OF assms(1,3,4)] by auto
  have w2: "ok w2" "open_fds w2 = open_fds w"
    using read [OF w1(1) _ _ assms(5)] w1(2) assms(3) by (auto simp: MAX_METADATA_SIZE_def)
  obtain c w3 where c: "pipe_close (io ops) fd w2 = (c, w3)" by fastforce
  then have "c = Inr ()" "open_fds w3 = open_fds w - {fd}" using close [OF w2(1) _ c] w2(2) assms(3) by auto
  then show ?thesis using assms(2,4-6) c
    by (auto simp: read_metadata_def wait_for_read_with_timeout_def close_fd_def fd_arg_def ebind_def eget_def etry_def
        eworld_def esys_def eres_def ereturn_def)
qed

end

end
