(* ===== verification/Samples.thy ===== *)
theory Samples
  imports Daemon Effects
begin

text \<open>
  The sample storlets (\<open>StorletSamples/python/storlet_samples\<close>) and the files that
  \<open>storlets/tools/testtools.py\<close> offers to test a storlet without a daemon.

  A storlet is written against an interface, the file objects it is given, so the samples have the operations of the files
  as an argument (\<open>file_ops\<close>): \<open>daemon_files\<close> are the files of the daemon, \<open>fake_files\<close> those of the test tools. The locale
  \<open>storlet_files\<close> states what a storlet relies on, and what the samples do is proved from it once.
  The metadata of an input file is a dictionary; Python shares it, so setting a key of what \<open>get_metadata\<close> returned changes
  the file's own metadata.
\<close>

section \<open>The files a storlet works on\<close>

record ('i, 'o) file_ops =
  fi_read :: "'i \<Rightarrow> int \<Rightarrow> string res \<times> 'i"
  fi_metadata :: "'i \<Rightarrow> json"
  fi_set_metadata :: "json \<Rightarrow> 'i \<Rightarrow> 'i"
  fi_close :: "'i \<Rightarrow> 'i"
  fo_set_metadata :: "'o \<Rightarrow> json \<Rightarrow> unit res \<times> 'o"
  fo_write :: "'o \<Rightarrow> string \<Rightarrow> unit res \<times> 'o"
  fo_close :: "'o \<Rightarrow> 'o"

definition daemon_files :: "(infile, outfile) file_ops" where
  "daemon_files = \<lparr>fi_read = in_read, fi_metadata = in_metadata, fi_set_metadata = (\<lambda>md f. f\<lparr>in_metadata := md\<rparr>),
     fi_close = in_close, fo_set_metadata = out_set_metadata, fo_write = out_write, fo_close = out_close\<rparr>"

text \<open>\<open>FakeStorletFileIn\<close> with its \<open>StringIO\<close>, and \<open>FakeStorletFileOut\<close>.\<close>

record fake_in =
  fk_text :: string
  fk_pos :: nat
  fk_metadata :: json
  fk_in_closed :: bool

record fake_out =
  fk_output :: "string list"
  fk_out_metadata :: "json option"
  fk_out_closed :: bool

definition FakeStorletFileIn :: "string \<Rightarrow> json \<Rightarrow> fake_in" where
  "FakeStorletFileIn s md = \<lparr>fk_text = s, fk_pos = 0, fk_metadata = md, fk_in_closed = False\<rparr>"

definition FakeStorletFileOut :: fake_out where
  "FakeStorletFileOut = \<lparr>fk_output = [], fk_out_metadata = None, fk_out_closed = False\<rparr>"

definition fake_in_read :: "fake_in \<Rightarrow> int \<Rightarrow> string res \<times> fake_in" where
  "fake_in_read f n =
     (let left = drop (fk_pos f) (fk_text f); d = (if n < 0 then left else take (nat n) left)
      in (Inr d, f\<lparr>fk_pos := fk_pos f + length d\<rparr>))"

definition fake_out_write :: "fake_out \<Rightarrow> string \<Rightarrow> unit res \<times> fake_out" where
  "fake_out_write f b = (Inr (), f\<lparr>fk_output := fk_output f @ [b]\<rparr>)"

definition fake_set_metadata :: "fake_out \<Rightarrow> json \<Rightarrow> unit res \<times> fake_out" where
  "fake_set_metadata f md =
     (if fk_out_metadata f \<noteq> None then (Inl (IOErr ''Sending metadata twice is not allowed''), f)
      else (case md of
         JObj d \<Rightarrow> (Inr (), f\<lparr>fk_out_metadata := Some (JObj (dict_update [] d))\<rparr>)
       | _ \<Rightarrow> (Inl (TypeError ''object is not iterable''), f\<lparr>fk_out_metadata := Some (JObj [])\<rparr>)))"

definition fake_out_read :: "fake_out \<Rightarrow> string" where
  "fake_out_read f = concat (fk_output f)"

definition fake_files :: "(fake_in, fake_out) file_ops" where
  "fake_files = \<lparr>fi_read = fake_in_read, fi_metadata = fk_metadata, fi_set_metadata = (\<lambda>md f. f\<lparr>fk_metadata := md\<rparr>),
     fi_close = (\<lambda>f. f\<lparr>fk_in_closed := True\<rparr>), fo_set_metadata = fake_set_metadata, fo_write = fake_out_write,
     fo_close = (\<lambda>f. f\<lparr>fk_out_closed := True\<rparr>)\<rparr>"

section \<open>What the samples share\<close>

text \<open>The objects a call works on: the logger and the two lists of files.\<close>

record ('i, 'o) run =
  run_log :: slogger
  run_ins :: "'i list"
  run_outs :: "'o list"

type_synonym ('i, 'o, 'a) run_eff = "(('i, 'o) run, 'a) eff"

definition dbg :: "string \<Rightarrow> ('i, 'o, unit) run_eff" where
  "dbg m s = (case sl_debug (run_log s) m of (r, l) \<Rightarrow> (r, s\<lparr>run_log := l\<rparr>))"

definition on_in :: "nat \<Rightarrow> ('i \<Rightarrow> 'a res \<times> 'i) \<Rightarrow> ('i, 'o, 'a) run_eff" where
  "on_in i g s = (if i < length (run_ins s)
     then (case g (run_ins s ! i) of (r, f) \<Rightarrow> (r, s\<lparr>run_ins := (run_ins s)[i := f]\<rparr>)) else (Inl IndexError, s))"

definition on_out :: "nat \<Rightarrow> ('o \<Rightarrow> 'a res \<times> 'o) \<Rightarrow> ('i, 'o, 'a) run_eff" where
  "on_out i g s = (if i < length (run_outs s)
     then (case g (run_outs s ! i) of (r, f) \<Rightarrow> (r, s\<lparr>run_outs := (run_outs s)[i := f]\<rparr>)) else (Inl IndexError, s))"

definition received :: "nat \<Rightarrow> string" where "received n = ''Received '' @ nat_str n @ '' bytes''"

text \<open>The loop \<open>while True: buf = f.read(16); if not buf: break; ...; out_files[0].write(buf)\<close> with the messages it logs.\<close>

partial_function (option) copy_file ::
  "('i, 'o) file_ops \<Rightarrow> (nat \<Rightarrow> string list) \<Rightarrow> 'i \<Rightarrow> ('i, 'o) run \<Rightarrow> (unit res \<times> 'i \<times> ('i, 'o) run) option" where
  "copy_file ops msgs f s =
     (case fi_read ops f 16 of
        (Inl e, f1) \<Rightarrow> Some (Inl e, f1, s)
      | (Inr buf, f1) \<Rightarrow>
          if buf = [] then Some (Inr (), f1, s)
          else (case ebind (eiter dbg (msgs (length buf))) (\<lambda>_. on_out 0 (\<lambda>g. fo_write ops g buf)) s of
                  (Inl e, s1) \<Rightarrow> Some (Inl e, f1, s1)
                | (Inr _, s1) \<Rightarrow> copy_file ops msgs f1 s1))"

declare copy_file.simps [code]

definition copy_in :: "('i, 'o) file_ops \<Rightarrow> (nat \<Rightarrow> string list) \<Rightarrow> nat \<Rightarrow> ('i, 'o, unit) run_eff" where
  "copy_in ops msgs i s =
     (if i < length (run_ins s) then
        (case copy_file ops msgs (run_ins s ! i) s of
           None \<Rightarrow> (Inl Diverges, s)
         | Some (r, f, s1) \<Rightarrow> (r, s1\<lparr>run_ins := (run_ins s1)[i := f]\<rparr>))
      else (Inl IndexError, s))"

text \<open>\<open>metadata = in_files[0].get_metadata(); metadata[k] = v; ...\<close>\<close>

fun set_keys :: "json dict \<Rightarrow> json \<Rightarrow> json res" where
  "set_keys kvs (JObj d) = Inr (JObj (dict_update d kvs))"
| "set_keys kvs md = (if kvs = [] then Inr md else Inl (TypeError ''object does not support item assignment''))"

definition own_metadata :: "('i, 'o) file_ops \<Rightarrow> json dict \<Rightarrow> ('i, 'o, json) run_eff" where
  "own_metadata ops kvs = on_in 0 (\<lambda>f. case set_keys kvs (fi_metadata ops f) of
     Inl e \<Rightarrow> (Inl e, f) | Inr md \<Rightarrow> (Inr md, fi_set_metadata ops md f))"

fun merge_metadata :: "json list \<Rightarrow> json dict \<Rightarrow> json dict res" where
  "merge_metadata [] d = Inr d"
| "merge_metadata (JObj d' # mds) d = merge_metadata mds (dict_update d d')"
| "merge_metadata (_ # mds) d = Inl (TypeError ''object is not iterable'')"

definition close_files :: "('i, 'o) file_ops \<Rightarrow> ('i, 'o, unit) run_eff" where
  "close_files ops = ebind (on_in 0 (\<lambda>f. (Inr (), fi_close ops f))) (\<lambda>_. on_out 0 (\<lambda>f. (Inr (), fo_close ops f)))"

text \<open>The part that most samples have in common, after the metadata is known.\<close>

definition return_object :: "('i, 'o) file_ops \<Rightarrow> (nat \<Rightarrow> string list) \<Rightarrow> json \<Rightarrow> ('i, 'o, unit) run_eff" where
  "return_object ops msgs md =
     ebind (on_out 0 (\<lambda>f. fo_set_metadata ops f md)) (\<lambda>_.
     ebind (dbg ''Start to return object data'') (\<lambda>_.
     ebind (copy_in ops msgs 0) (\<lambda>_.
     ebind (dbg ''Complete'') (\<lambda>_. close_files ops))))"

section \<open>The samples\<close>

definition SimpleStorlet :: "('i, 'o) file_ops \<Rightarrow> json \<Rightarrow> ('i, 'o, unit) run_eff" where
  "SimpleStorlet ops ps =
     ebind (dbg ''Returning metadata'') (\<lambda>_.
     ebind (own_metadata ops [(''test'', JStr ''simple'')]) (\<lambda>md.
       return_object ops (\<lambda>n. [received n, ''Writing back '' @ nat_str n @ '' bytes'']) md))"

definition ExecQueryHeaderStorlet :: "('i, 'o) file_ops \<Rightarrow> json \<Rightarrow> ('i, 'o, unit) run_eff" where
  "ExecQueryHeaderStorlet ops ps =
     ebind (on_in 0 (\<lambda>f. (Inr (), f))) (\<lambda>_.
     ebind (eres (case ps of JObj d \<Rightarrow> Inr d | _ \<Rightarrow> Inl (AttributeError ''items''))) (\<lambda>kvs.
     ebind (own_metadata ops kvs) (\<lambda>md. return_object ops (\<lambda>n. [received n]) md)))"

text \<open>\<open>call\<close> is \<open>subprocess.call\<close>.\<close>

definition ExecDepStorlet :: "(string \<Rightarrow> int res) \<Rightarrow> ('i, 'o) file_ops \<Rightarrow> json \<Rightarrow> ('i, 'o, unit) run_eff" where
  "ExecDepStorlet call ops ps =
     ebind (eres (rbind (jgetitem ps ''storlet_execution_path'') (\<lambda>p. case p of
         JStr s \<Rightarrow> Inr (path_join s ''get42.sh'') | _ \<Rightarrow> Inl (TypeError ''expected str'')))) (\<lambda>dependency_path.
     ebind (dbg (''Exec = '' @ dependency_path)) (\<lambda>_.
     ebind (on_in 0 (\<lambda>f. (Inr (), f))) (\<lambda>_.
     ebind (eres (call dependency_path)) (\<lambda>rc.
     ebind (own_metadata ops [(''depend-ret-code'', JInt rc)]) (\<lambda>md. return_object ops (\<lambda>n. [received n]) md)))))"

definition MultiInputStorlet :: "('i, 'o) file_ops \<Rightarrow> json \<Rightarrow> ('i, 'o, unit) run_eff" where
  "MultiInputStorlet ops ps s =
     ebind (eres (merge_metadata (map (fi_metadata ops) (run_ins s)) [])) (\<lambda>md.
     ebind (on_out 0 (\<lambda>f. fo_set_metadata ops f (JObj md))) (\<lambda>_.
     ebind (dbg ''Start to return object data'') (\<lambda>_.
     ebind (eiter (copy_in ops (\<lambda>n. [received n])) [0 ..< length (run_ins s)]) (\<lambda>_.
     ebind (dbg ''Complete'') (\<lambda>_.
     ebind (eiter (\<lambda>i. on_in i (\<lambda>f. (Inr (), fi_close ops f))) [0 ..< length (run_ins s)]) (\<lambda>_.
       on_out 0 (\<lambda>f. (Inr (), fo_close ops f)))))))) s"

text \<open>\<open>'%.64x' % n\<close>.\<close>

fun hex_str :: "nat \<Rightarrow> string" where
  "hex_str n = (if n < 16 then [hex_digit n] else hex_str (n div 16) @ [hex_digit (n mod 16)])"

declare hex_str.simps [simp del]

definition hex64 :: "nat \<Rightarrow> string" where
  "hex64 n = (let h = hex_str n in replicate (64 - length h) CHR ''0'' @ h)"

text \<open>The files leave the list one by one; when a step raises, the file at hand is no longer in it.\<close>

primrec mime_parts :: "('i, 'o) file_ops \<Rightarrow> string \<Rightarrow> 'i list \<Rightarrow> ('i, 'o, unit) run_eff" where
  "mime_parts ops boundary [] = ereturn ()"
| "mime_parts ops boundary (f # fs) = (\<lambda>s0. let s = s0\<lparr>run_ins := fs\<rparr> in
     case copy_file ops (\<lambda>n. [received n]) f s of
       None \<Rightarrow> (Inl Diverges, s)
     | Some (Inl e, _, s1) \<Rightarrow> (Inl e, s1)
     | Some (Inr _, _, s1) \<Rightarrow>
         ebind (on_out 0 (\<lambda>g. fo_write ops g (utf8_encode (if fs \<noteq> [] then [nl] @ ''--'' @ boundary @ [nl]
           else [nl] @ ''--'' @ boundary @ ''--'')))) (\<lambda>_. mime_parts ops boundary fs) s1)"

text \<open>\<open>rnd\<close> is \<open>random.randint(0, 16 ** 64)\<close>.\<close>

definition MultiInputMIMEStorlet :: "nat \<Rightarrow> ('i, 'o) file_ops \<Rightarrow> json \<Rightarrow> ('i, 'o, unit) run_eff" where
  "MultiInputMIMEStorlet rnd ops ps s =
     ebind (eres (merge_metadata (map (fi_metadata ops) (run_ins s)) [])) (\<lambda>md.
     let mime_boundary = hex64 rnd in
     ebind (on_out 0 (\<lambda>f. fo_set_metadata ops f
       (JObj (dict_set ''Content-Type'' (JStr (''multipart/mixed; boundary='' @ mime_boundary)) md)))) (\<lambda>_.
     ebind (dbg ''Start to return object data'') (\<lambda>_.
     ebind (mime_parts ops mime_boundary (run_ins s)) (\<lambda>_.
     ebind (dbg ''Complete'') (\<lambda>_.
       on_out 0 (\<lambda>f. (Inr (), fo_close ops f))))))) s"

text \<open>Sleeping has no effect on the files.\<close>

definition TestStorlet :: "('i, 'o) file_ops \<Rightarrow> json \<Rightarrow> ('i, 'o, unit) run_eff" where
  "TestStorlet ops ps =
     ebind (dbg ''execute test.py'') (\<lambda>_.
     ebind (eres (jget ps ''op'')) (\<lambda>opr.
     ebind (dbg (''op = '' @ str_of_json opr)) (\<lambda>_.
       if opr = JStr ''crash'' then eraise (PlainException ''Crashed'')
       else
     ebind (own_metadata ops []) (\<lambda>md.
     ebind (on_out 0 (\<lambda>f. fo_set_metadata ops f md)) (\<lambda>_.
     ebind (if opr = JStr ''print'' then
              ebind (eres (case ps of JObj d \<Rightarrow> Inr d | _ \<Rightarrow> Inl (AttributeError ''items''))) (\<lambda>kvs.
                eiter (\<lambda>(k, v). on_out 0 (\<lambda>f. fo_write ops f (utf8_encode (k @ ''     '' @ str_of_json v @ [nl])))) kvs)
            else ereturn ()) (\<lambda>_. close_files ops))))))"

text \<open>\<open>xrange\<close> does not exist in Python 3: a \<open>NameError\<close>, which nothing tells apart from other exceptions.\<close>

definition BrokenStorlet :: "('i, 'o) file_ops \<Rightarrow> json \<Rightarrow> ('i, 'o, unit) run_eff" where
  "BrokenStorlet ops ps = eraise (PlainException ''name xrange is not defined'')"

text \<open>A sample as the daemon calls it.\<close>

definition as_storlet :: "(json \<Rightarrow> (infile, outfile, unit) run_eff) \<Rightarrow> storlet" where
  "as_storlet f lg ins outs ps = (case f ps \<lparr>run_log = lg, run_ins = ins, run_outs = outs\<rparr> of
     (r, s) \<Rightarrow> (r, run_log s, run_ins s, run_outs s))"

section \<open>What a storlet relies on\<close>

definition log_ok :: "slogger \<Rightarrow> bool" where "log_ok l \<longleftrightarrow> \<not> w_closed (sl_file l)"

lemma dbg_ok: "log_ok (run_log s) \<Longrightarrow> \<exists>l. dbg m s = (Inr (), s\<lparr>run_log := l\<rparr>) \<and> log_ok l"
  by (auto simp: dbg_def sl_debug_def emit_log_def wfile_write_def log_ok_def)

lemma dbgs_ok: "log_ok (run_log s) \<Longrightarrow> \<exists>l. eiter dbg ms s = (Inr (), s\<lparr>run_log := l\<rparr>) \<and> log_ok l"
proof (induction ms arbitrary: s)
  case Nil
  then show ?case by (auto simp: ereturn_def intro!: exI [of _ "run_log s"])
next
  case (Cons m ms)
  from dbg_ok [OF Cons.prems, of m] obtain l where l: "dbg m s = (Inr (), s\<lparr>run_log := l\<rparr>)" "log_ok l" by blast
  from Cons.IH [of "s\<lparr>run_log := l\<rparr>"] l show ?case by (auto simp: ebind_def)
qed

lemma on_out_0: "run_outs s = g # gs \<Longrightarrow> h g = (r, g') \<Longrightarrow> on_out 0 h s = (r, s\<lparr>run_outs := g' # gs\<rparr>)"
  by (simp add: on_out_def)

lemma hex_str_ascii: "c \<in> set (hex_str n) \<Longrightarrow> (of_char c :: nat) < 128"
  by (induction n rule: hex_str.induct) (subst (asm) (2) hex_str.simps, auto simp: hex_digit_def split: if_splits)

lemma utf8_hex64: "utf8_encode (hex64 n) = hex64 n"
  by (rule utf8_encode_ascii) (auto simp: hex64_def Let_def hex_str_ascii)

text \<open>What the body of a multipart answer is.\<close>

fun mime_body :: "string \<Rightarrow> string list \<Rightarrow> string" where
  "mime_body b [] = []"
| "mime_body b [x] = x @ [nl] @ ''--'' @ b @ ''--''"
| "mime_body b (x # y # ys) = x @ ([nl] @ ''--'' @ b @ [nl]) @ mime_body b (y # ys)"

text \<open>\<open>rest\<close> is what an input still delivers, \<open>body\<close> and \<open>sent\<close> are what an output got.\<close>

locale storlet_files =
  fixes ops :: "('i, 'o) file_ops" and rest :: "'i \<Rightarrow> string" and iok :: "'i \<Rightarrow> bool"
    and body :: "'o \<Rightarrow> string" and sent :: "'o \<Rightarrow> json option" and ook :: "'o \<Rightarrow> bool"
  assumes read_next: "iok f \<Longrightarrow> \<exists>f'. fi_read ops f 16 = (Inr (take 16 (rest f)), f') \<and> iok f' \<and> rest f' = drop 16 (rest f)"
    and own_kept: "iok f \<Longrightarrow> iok (fi_set_metadata ops md f) \<and> rest (fi_set_metadata ops md f) = rest f"
    and send_once: "ook g \<Longrightarrow> sent g = None \<Longrightarrow> dict_ok d \<Longrightarrow>
      \<exists>g'. fo_set_metadata ops g (JObj d) = (Inr (), g') \<and> ook g' \<and> sent g' = Some (JObj d) \<and> body g' = body g"
    and write_more: "ook g \<Longrightarrow> sent g \<noteq> None \<Longrightarrow>
      \<exists>g'. fo_write ops g b = (Inr (), g') \<and> ook g' \<and> sent g' = sent g \<and> body g' = body g @ b"
begin

lemma copy_file_all:
  assumes "iok f" "log_ok (run_log s)" "run_outs s = g # gs" "ook g" "sent g \<noteq> None"
  shows "\<exists>f' l g'. copy_file ops msgs f s = Some (Inr (), f', s\<lparr>run_log := l, run_outs := g' # gs\<rparr>) \<and> log_ok l \<and>
    ook g' \<and> sent g' = sent g \<and> body g' = body g @ rest f"
  using assms
proof (induction "length (rest f)" arbitrary: f s g rule: less_induct)
  case less
  obtain f1 where f1: "fi_read ops f 16 = (Inr (take 16 (rest f)), f1)" "iok f1" "rest f1 = drop 16 (rest f)"
    using read_next [OF less.prems(1)] by blast
  show ?case
  proof (cases "rest f = []")
    case True
    then have "copy_file ops msgs f s = Some (Inr (), f1, s\<lparr>run_log := run_log s, run_outs := g # gs\<rparr>)"
      using f1(1) less.prems(3) by (subst copy_file.simps) simp
    then show ?thesis using True less.prems by (intro exI [of _ f1] exI [of _ "run_log s"] exI [of _ g]) simp
  next
    case False
    then have shorter: "length (rest f1) < length (rest f)" by (simp add: f1(3))
    obtain l where l: "eiter dbg (msgs (length (take 16 (rest f)))) s = (Inr (), s\<lparr>run_log := l\<rparr>)" "log_ok l"
      using dbgs_ok [OF less.prems(2)] by blast
    obtain g1 where g1: "fo_write ops g (take 16 (rest f)) = (Inr (), g1)" "ook g1" "sent g1 = sent g"
      "body g1 = body g @ take 16 (rest f)" using write_more [OF less.prems(4,5)] by blast
    define s1 where "s1 = s\<lparr>run_log := l, run_outs := g1 # gs\<rparr>"
    have step: "copy_file ops msgs f s = copy_file ops msgs f1 s1"
      using f1(1) False l(1) g1(1) less.prems(3)
      by (subst copy_file.simps) (simp add: ebind_def on_out_def s1_def)
    have "\<exists>f' l g'. copy_file ops msgs f1 s1 = Some (Inr (), f', s1\<lparr>run_log := l, run_outs := g' # gs\<rparr>) \<and> log_ok l \<and>
        ook g' \<and> sent g' = sent g1 \<and> body g' = body g1 @ rest f1"
      by (rule less.hyps [OF shorter f1(2)]) (use l g1 less.prems(5) in \<open>auto simp: s1_def\<close>)
    then show ?thesis using g1 f1(3) by (auto simp: step s1_def)
  qed
qed

lemma return_object_spec:
  assumes "run_ins s = f # fs" "iok f" "run_outs s = g # gs" "ook g" "sent g = None" "dict_ok d" "log_ok (run_log s)"
  shows "\<exists>s' g'. return_object ops msgs (JObj d) s = (Inr (), s') \<and> run_outs s' = fo_close ops g' # gs \<and> ook g' \<and>
    body g' = body g @ rest f \<and> sent g' = Some (JObj d)"
proof -
  obtain g1 where g1: "fo_set_metadata ops g (JObj d) = (Inr (), g1)" "ook g1" "sent g1 = Some (JObj d)" "body g1 = body g"
    using send_once [OF assms(4-6)] by blast
  obtain l where l: "dbg ''Start to return object data'' (s\<lparr>run_outs := g1 # gs\<rparr>) = (Inr (), s\<lparr>run_outs := g1 # gs, run_log := l\<rparr>)"
    "log_ok l" using dbg_ok [of "s\<lparr>run_outs := g1 # gs\<rparr>"] assms(7) by auto
  define s1 where "s1 = s\<lparr>run_outs := g1 # gs, run_log := l\<rparr>"
  obtain f2 l2 g2 where c: "copy_file ops msgs f s1 = Some (Inr (), f2, s1\<lparr>run_log := l2, run_outs := g2 # gs\<rparr>)" "log_ok l2" "ook g2"
    "sent g2 = sent g1" "body g2 = body g1 @ rest f"
    using copy_file_all [of f s1 g1 gs msgs] assms(2) l(2) g1 by (auto simp: s1_def)
  define s2 where "s2 = s1\<lparr>run_log := l2, run_outs := g2 # gs, run_ins := f2 # fs\<rparr>"
  have copy: "copy_in ops msgs 0 s1 = (Inr (), s2)"
    using c(1) assms(1) by (simp add: copy_in_def s1_def s2_def)
  obtain l3 where l3: "dbg ''Complete'' s2 = (Inr (), s2\<lparr>run_log := l3\<rparr>)" using dbg_ok [of s2] c(2) by (auto simp: s2_def)
  have "return_object ops msgs (JObj d) s = close_files ops (s2\<lparr>run_log := l3\<rparr>)"
    using g1(1) l(1) copy l3 assms(3)
    by (simp add: return_object_def ebind_def on_out_def s1_def)
  then show ?thesis using c g1 by (auto simp: close_files_def ebind_def on_in_def on_out_def s2_def)
qed

lemma own_metadata_spec:
  assumes "run_ins s = f # fs" "iok f" "fi_metadata ops f = JObj d"
  shows "\<exists>f'. own_metadata ops kvs s = (Inr (JObj (dict_update d kvs)), s\<lparr>run_ins := f' # fs\<rparr>) \<and> iok f' \<and> rest f' = rest f"
  using assms own_kept [OF assms(2)] by (auto simp: own_metadata_def on_in_def)

lemma simple_spec:
  assumes "run_ins s = f # fs" "iok f" "fi_metadata ops f = JObj d" "dict_ok d" "run_outs s = g # gs" "ook g" "sent g = None"
    "log_ok (run_log s)"
  shows "\<exists>s' g'. SimpleStorlet ops ps s = (Inr (), s') \<and> run_outs s' = fo_close ops g' # gs \<and> ook g' \<and> body g' = body g @ rest f \<and>
    sent g' = Some (JObj (dict_set ''test'' (JStr ''simple'') d))"
proof -
  obtain l where l: "dbg ''Returning metadata'' s = (Inr (), s\<lparr>run_log := l\<rparr>)" "log_ok l" using dbg_ok [OF assms(8)] by blast
  obtain f1 where f1: "own_metadata ops [(''test'', JStr ''simple'')] (s\<lparr>run_log := l\<rparr>) =
      (Inr (JObj (dict_set ''test'' (JStr ''simple'') d)), s\<lparr>run_log := l, run_ins := f1 # fs\<rparr>)" "iok f1" "rest f1 = rest f"
    using own_metadata_spec [of "s\<lparr>run_log := l\<rparr>" f fs d "[(''test'', JStr ''simple'')]"] assms(1-3) by (auto simp: dict_update_def)
  show ?thesis unfolding SimpleStorlet_def
    using return_object_spec [of "s\<lparr>run_log := l, run_ins := f1 # fs\<rparr>" f1 fs g gs "dict_set ''test'' (JStr ''simple'') d"] l f1 assms(4-7)
    by (simp add: ebind_def)
qed

lemma mime_parts_spec:
  assumes "\<And>f. f \<in> set fs \<Longrightarrow> iok f" "fs \<noteq> []" "log_ok (run_log s)" "run_outs s = g # gs" "ook g" "sent g \<noteq> None"
    "utf8_encode b = b"
  shows "\<exists>s' g'. mime_parts ops b fs s = (Inr (), s') \<and> run_outs s' = g' # gs \<and> log_ok (run_log s') \<and> ook g' \<and>
    sent g' = sent g \<and> body g' = body g @ mime_body b (map rest fs)"
  using assms
proof (induction fs arbitrary: s g)
  case (Cons f fs)
  let ?s = "s\<lparr>run_ins := fs\<rparr>"
  let ?sep = "if fs \<noteq> [] then [nl] @ ''--'' @ b @ [nl] else [nl] @ ''--'' @ b @ ''--''"
  obtain f1 l g1 where c: "copy_file ops (\<lambda>n. [received n]) f ?s = Some (Inr (), f1, ?s\<lparr>run_log := l, run_outs := g1 # gs\<rparr>)"
    "log_ok l" "ook g1" "sent g1 = sent g" "body g1 = body g @ rest f"
    using copy_file_all [of f ?s g gs "\<lambda>n. [received n]"] Cons.prems by auto
  obtain g2 where g2: "fo_write ops g1 ?sep = (Inr (), g2)" "ook g2" "sent g2 = sent g1" "body g2 = body g1 @ ?sep"
    using write_more [of g1 ?sep] c Cons.prems(6) by auto
  define s2 where "s2 = ?s\<lparr>run_log := l, run_outs := g2 # gs\<rparr>"
  have "utf8_encode ?sep = ?sep" using Cons.prems(7) by (auto simp: utf8_encode_def)
  then have step: "mime_parts ops b (f # fs) s = mime_parts ops b fs s2"
    using c(1) g2(1) by (simp add: ebind_def on_out_def s2_def Let_def)
  show ?case
  proof (cases "fs = []")
    case True
    then show ?thesis using g2 c step by (simp add: s2_def ereturn_def)
  next
    case False
    then obtain x xs where xs: "map rest fs = x # xs" by (cases fs) auto
    obtain s' g' where "mime_parts ops b fs s2 = (Inr (), s')" "run_outs s' = g' # gs" "log_ok (run_log s')" "ook g'"
      "sent g' = sent g2" "body g' = body g2 @ mime_body b (map rest fs)"
      using Cons.IH [of s2 g2] Cons.prems False g2 c by (auto simp: s2_def)
    then show ?thesis using step g2 c False xs by simp
  qed
qed simp

lemma mime_spec:
  assumes "\<And>f. f \<in> set (run_ins s) \<Longrightarrow> iok f" "run_ins s \<noteq> []" "merge_metadata (map (fi_metadata ops) (run_ins s)) [] = Inr d" "dict_ok d"
    "run_outs s = g # gs" "ook g" "sent g = None" "log_ok (run_log s)"
  shows "\<exists>s' g'. MultiInputMIMEStorlet rnd ops ps s = (Inr (), s') \<and> run_outs s' = fo_close ops g' # gs \<and> ook g' \<and>
    body g' = body g @ mime_body (hex64 rnd) (map rest (run_ins s)) \<and>
    sent g' = Some (JObj (dict_set ''Content-Type'' (JStr (''multipart/mixed; boundary='' @ hex64 rnd)) d))"
proof -
  let ?md = "dict_set ''Content-Type'' (JStr (''multipart/mixed; boundary='' @ hex64 rnd)) d"
  obtain g1 where g1: "fo_set_metadata ops g (JObj ?md) = (Inr (), g1)" "ook g1" "sent g1 = Some (JObj ?md)" "body g1 = body g"
    using send_once [OF assms(6,7), of ?md] assms(4) by auto
  obtain l where l: "dbg ''Start to return object data'' (s\<lparr>run_outs := g1 # gs\<rparr>) = (Inr (), s\<lparr>run_outs := g1 # gs, run_log := l\<rparr>)"
    "log_ok l" using dbg_ok [of "s\<lparr>run_outs := g1 # gs\<rparr>"] assms(8) by auto
  define s1 where "s1 = s\<lparr>run_outs := g1 # gs, run_log := l\<rparr>"
  obtain s2 g2 where m: "mime_parts ops (hex64 rnd) (run_ins s) s1 = (Inr (), s2)" "run_outs s2 = g2 # gs" "log_ok (run_log s2)"
    "ook g2" "sent g2 = sent g1" "body g2 = body g1 @ mime_body (hex64 rnd) (map rest (run_ins s))"
    using mime_parts_spec [of "run_ins s" s1 g1 gs "hex64 rnd"] assms(1,2) l(2) g1 by (auto simp: s1_def utf8_hex64)
  obtain l3 where l3: "dbg ''Complete'' s2 = (Inr (), s2\<lparr>run_log := l3\<rparr>)" using dbg_ok [OF m(3)] by blast
  have "MultiInputMIMEStorlet rnd ops ps s = on_out 0 (\<lambda>f. (Inr (), fo_close ops f)) (s2\<lparr>run_log := l3\<rparr>)"
    using g1(1) l(1) m(1) l3 assms(3,5)
    by (simp add: MultiInputMIMEStorlet_def ebind_def on_out_def eres_def Let_def s1_def)
  then show ?thesis using m g1 by (auto simp: on_out_def)
qed

end

interpretation real: storlet_files daemon_files in_rest in_ok "\<lambda>g. w_data (out_obj g)" out_metadata
  "\<lambda>g. \<not> w_closed (out_obj g) \<and> w_closed (out_md g) = (out_metadata g \<noteq> None) \<and>
     w_data (out_md g) = (case out_metadata g of None \<Rightarrow> [] | Some md \<Rightarrow> utf8_encode (dumps md))"
proof (unfold_locales, goal_cases)
  case (1 f)
  then show ?case using in_read_spec [of f 16] by (auto simp: daemon_files_def)
next
  case (2 f md)
  then show ?case by (simp add: daemon_files_def in_ok_def in_closed_def in_rest_def src_rest_def)
qed (auto simp: daemon_files_def out_defs Let_def)

interpretation fake: storlet_files fake_files "\<lambda>f. drop (fk_pos f) (fk_text f)" "\<lambda>_. True" fake_out_read fk_out_metadata "\<lambda>_. True"
proof (unfold_locales, goal_cases)
  case (1 f)
  show ?case by (simp add: fake_files_def fake_in_read_def Let_def min_def add.commute)
next
  case (3 g d)
  then show ?case by (simp add: fake_files_def fake_set_metadata_def fake_out_read_def dict_update_Nil_ok)
qed (auto simp: fake_files_def fake_out_write_def fake_out_read_def)

text \<open>The daemon runs the simple sample.\<close>

lemma simple_run:
  assumes "d_storlet s = as_storlet (SimpleStorlet daemon_files)" "object_in_fds dtg = [i]" "object_in_metadata dtg = [JObj d]"
    "object_in_storlet_metadata dtg = [[]]" "object_out_fds dtg = [p]" "object_metadata_out_fds dtg = [q]"
    "logger_out_fd dtg = Some l" "content i = \<lparr>r_content = c, r_pos = 0, r_closed = False\<rparr>" "dict_ok d"
  shows "\<exists>lg ins g. execute_storlet content dtg s = (Inr (), Some (lg, ins, [g])) \<and> w_data (out_obj g) = c \<and>
    w_data (out_md g) = utf8_encode (dumps (JObj (dict_set ''test'' (JStr ''simple'') d))) \<and> w_closed (out_obj g) \<and> w_closed (out_md g)"
proof -
  define f where "f = StorletInputFile (JObj d) i (content i)"
  define r where "r = \<lparr>run_log = StorletLogger (d_storlet_name s) l, run_ins = [f], run_outs = [StorletOutputFile p]\<rparr>"
  have "in_ok f" "in_rest f = c"
    using assms(8) by (simp_all add: f_def StorletInputFile_def in_ok_def in_closed_def in_rest_def src_rest_def)
  then obtain s' g where g: "SimpleStorlet daemon_files (params dtg) r = (Inr (), s')" "run_outs s' = [out_close g]" "w_data (out_obj g) = c"
    "w_data (out_md g) = utf8_encode (dumps (JObj (dict_set ''test'' (JStr ''simple'') d)))"
    using real.simple_spec [of r f "[]" d "StorletOutputFile p" "[]" "params dtg"] assms(9)
    by (auto simp: r_def f_def StorletInputFile_def daemon_files_def StorletOutputFile_def wfile_open_def log_ok_def StorletLogger_def)
  have "create_input_file content [] (JObj d) i = Inr f" by (simp add: create_input_file_def opt_get_def dict_get_def f_def)
  then have "\<exists>lg ins. execute_storlet content dtg s = (Inr (), Some (lg, ins, [safe_close_out (out_close g)]))"
    using assms(1-7) g(1,2) by (simp add: execute_storlet_def as_storlet_def r_def Let_def)
  moreover have "safe_close_out (out_close g) = out_close g" by (simp add: safe_close_out_def out_closed_def out_close_def wfile_close_def Let_def)
  ultimately show ?thesis using g(3,4) by (auto simp: out_close_def wfile_close_def Let_def)
qed

section \<open>Properties\<close>

text \<open>The simple sample returns the object: when the daemon runs it on a datagram with one input, the object reaches the
  output byte for byte, the metadata is that of the input with the key \<open>test\<close>, and the run ends without an exception with
  both channels closed.\<close>

theorem simple_storlet_returns_object:
  assumes "d_storlet s = as_storlet (SimpleStorlet daemon_files)" "object_in_fds dtg = [i]" "object_in_metadata dtg = [JObj d]"
    "object_in_storlet_metadata dtg = [[]]" "object_out_fds dtg = [p]" "object_metadata_out_fds dtg = [q]"
    "logger_out_fd dtg = Some l" "content i = \<lparr>r_content = c, r_pos = 0, r_closed = False\<rparr>" "dict_ok d"
  shows "\<exists>lg ins g. execute_storlet content dtg s = (Inr (), Some (lg, ins, [g])) \<and> w_data (out_obj g) = c \<and>
    w_data (out_md g) = utf8_encode (dumps (JObj (dict_set ''test'' (JStr ''simple'') d))) \<and> w_closed (out_obj g) \<and> w_closed (out_md g)"
  by (rule simple_run [where content = content and i = i and c = c, OF assms])

definition plain_datagram :: datagram where
  "plain_datagram = sample_datagram\<lparr>sfds := [SBusFileDescriptor SBUS_FD_SERVICE_OUT 3 [] JNull,
     SBusFileDescriptor SBUS_FD_INPUT_OBJECT 4 [] (JObj [(''k'', JStr ''v'')]), SBusFileDescriptor SBUS_FD_OUTPUT_OBJECT 5 [] JNull,
     SBusFileDescriptor SBUS_FD_OUTPUT_OBJECT_METADATA 6 [] JNull, SBusFileDescriptor SBUS_FD_LOGGER 7 [] JNull]\<rparr>"

theorem simple_storlet_returns_object_witness:
  "\<exists>lg ins g. execute_storlet sample_content plain_datagram (sample_daemon\<lparr>d_storlet := as_storlet (SimpleStorlet daemon_files)\<rparr>) =
     (Inr (), Some (lg, ins, [g])) \<and> w_data (out_obj g) = ''hello'' \<and>
     w_data (out_md g) = utf8_encode (dumps (JObj (dict_set ''test'' (JStr ''simple'') [(''k'', JStr ''v'')]))) \<and>
     w_closed (out_obj g) \<and> w_closed (out_md g)"
  by (rule simple_storlet_returns_object [where i = 4 and p = 5 and q = 6 and l = 7])
    (simp_all add: plain_datagram_def accessor_defs sample_datagram_def SBusFileDescriptor_def sample_content_def dict_ok_def)

text \<open>C38: The multipart sample frames its inputs: whatever the files are, the body is their contents in order, each followed by
  the boundary that the content type announces, the last one by the closing boundary.\<close>

theorem mime_storlet_frames_inputs:
  assumes "\<And>f. f \<in> set ins \<Longrightarrow> in_ok f" "ins \<noteq> []" "merge_metadata (map in_metadata ins) [] = Inr d" "dict_ok d"
  shows "\<exists>lg' ins' g. as_storlet (MultiInputMIMEStorlet rnd daemon_files) (StorletLogger n l) ins [StorletOutputFile p] ps =
      (Inr (), lg', ins', [g]) \<and> w_data (out_obj g) = mime_body (hex64 rnd) (map in_rest ins) \<and>
    out_get_metadata g = Inr (JObj (dict_set ''Content-Type'' (JStr (''multipart/mixed; boundary='' @ hex64 rnd)) d))"
  using real.mime_spec [of "\<lparr>run_log = StorletLogger n l, run_ins = ins, run_outs = [StorletOutputFile p]\<rparr>" d "StorletOutputFile p" "[]" rnd ps] assms
  by (auto simp: as_storlet_def daemon_files_def StorletOutputFile_def wfile_open_def log_ok_def StorletLogger_def
      out_get_metadata_def out_close_def wfile_close_def Let_def)

theorem mime_storlet_frames_inputs_witness:
  "\<exists>lg' ins' g. as_storlet (MultiInputMIMEStorlet 7 daemon_files) (StorletLogger ''n'' 3)
      [sample_infile\<lparr>in_metadata := JObj []\<rparr>, sample_infile\<lparr>in_metadata := JObj []\<rparr>] [StorletOutputFile 5] JNull = (Inr (), lg', ins', [g]) \<and>
     w_data (out_obj g) = mime_body (hex64 7) (map in_rest [sample_infile\<lparr>in_metadata := JObj []\<rparr>, sample_infile\<lparr>in_metadata := JObj []\<rparr>]) \<and>
     out_get_metadata g = Inr (JObj (dict_set ''Content-Type'' (JStr (''multipart/mixed; boundary='' @ hex64 7)) []))"
  by (rule mime_storlet_frames_inputs)
    (auto simp: sample_infile_def StorletInputFile_def in_ok_def in_closed_def dict_update_def)

text \<open>C39: A test with the fake files predicts the run in the daemon: for every text and metadata, the simple sample sends the
  same body and the same metadata to the fake output as to the file of the daemon.\<close>

theorem fakes_predict_daemon:
  assumes "dict_ok d"
  shows "\<exists>s1 g1 s2 g2. SimpleStorlet fake_files ps \<lparr>run_log = StorletLogger n l, run_ins = [FakeStorletFileIn c (JObj d)], run_outs = [FakeStorletFileOut]\<rparr>
      = (Inr (), s1) \<and> run_outs s1 = [g1] \<and>
    SimpleStorlet daemon_files ps \<lparr>run_log = StorletLogger n l,
        run_ins = [StorletInputFile (JObj d) i \<lparr>r_content = c, r_pos = 0, r_closed = False\<rparr>], run_outs = [StorletOutputFile p]\<rparr>
      = (Inr (), s2) \<and> run_outs s2 = [g2] \<and>
    fake_out_read g1 = w_data (out_obj g2) \<and> fk_out_metadata g1 = out_metadata g2 \<and> fake_out_read g1 = c"
proof -
  let ?i = "FakeStorletFileIn c (JObj d)" and ?j = "StorletInputFile (JObj d) i \<lparr>r_content = c, r_pos = 0, r_closed = False\<rparr>"
  have ok: "in_ok ?j" "in_rest ?j = c"
    by (simp_all add: StorletInputFile_def in_ok_def in_closed_def in_rest_def src_rest_def)
  obtain s1 g1 where 1: "SimpleStorlet fake_files ps \<lparr>run_log = StorletLogger n l, run_ins = [?i], run_outs = [FakeStorletFileOut]\<rparr> = (Inr (), s1)"
    "run_outs s1 = [fo_close fake_files g1]" "fake_out_read g1 = c" "fk_out_metadata g1 = Some (JObj (dict_set ''test'' (JStr ''simple'') d))"
    using fake.simple_spec [of "\<lparr>run_log = StorletLogger n l, run_ins = [?i], run_outs = [FakeStorletFileOut]\<rparr>" ?i "[]" d FakeStorletFileOut "[]" ps] assms
    by (auto simp: FakeStorletFileIn_def FakeStorletFileOut_def fake_files_def fake_out_read_def log_ok_def StorletLogger_def wfile_open_def)
  obtain s2 g2 where 2: "SimpleStorlet daemon_files ps \<lparr>run_log = StorletLogger n l, run_ins = [?j], run_outs = [StorletOutputFile p]\<rparr> = (Inr (), s2)"
    "run_outs s2 = [out_close g2]" "w_data (out_obj g2) = c" "out_metadata g2 = Some (JObj (dict_set ''test'' (JStr ''simple'') d))"
    using real.simple_spec [of "\<lparr>run_log = StorletLogger n l, run_ins = [?j], run_outs = [StorletOutputFile p]\<rparr>" ?j "[]" d "StorletOutputFile p" "[]" ps] assms ok
    by (auto simp: StorletInputFile_def daemon_files_def StorletOutputFile_def log_ok_def StorletLogger_def wfile_open_def)
  show ?thesis using 1 2 by (auto simp: fake_files_def fake_out_read_def out_close_def wfile_close_def Let_def)
qed

theorem fakes_predict_daemon_witness:
  "\<exists>s1 g1. SimpleStorlet fake_files JNull \<lparr>run_log = StorletLogger ''n'' 3, run_ins = [FakeStorletFileIn ''abc'' (JObj [])], run_outs = [FakeStorletFileOut]\<rparr>
      = (Inr (), s1) \<and> run_outs s1 = [g1] \<and> fake_out_read g1 = ''abc''"
  using fakes_predict_daemon [of "[]" JNull "''n''" 3 "''abc''" 4 5] by auto

text \<open>The fakes are more permissive: they take a body before the metadata, which the file of the daemon refuses.\<close>

lemma fake_accepts_early_body:
  "fst (fo_write fake_files FakeStorletFileOut b) = Inr ()" "\<exists>m. fst (fo_write daemon_files (StorletOutputFile p) b) = Inl (IOErr m)"
  by (simp_all add: fake_files_def daemon_files_def fake_out_write_def out_write_def StorletOutputFile_def wfile_open_def)

end
