(* ===== verification/Simulation.thy ===== *)
theory Simulation
  imports Prelude
begin

text \<open>
  Runs of a step relation with events, and forward simulations: a component whose steps are explained by steps of a
  specification is explained along every run.
\<close>

section \<open>Runs\<close>

inductive runs :: "('s \<Rightarrow> 'e \<Rightarrow> 's \<Rightarrow> bool) \<Rightarrow> 's \<Rightarrow> 'e list \<Rightarrow> 's \<Rightarrow> bool" for step where
  runs_nil: "runs step s [] s"
| runs_cons: "step s e t \<Longrightarrow> runs step t es u \<Longrightarrow> runs step s (e # es) u"

inductive_simps runs_Nil: "runs step s [] u"
inductive_simps runs_Cons: "runs step s (e # es) u"

lemma runs_append: "runs step s es t \<Longrightarrow> runs step t fs u \<Longrightarrow> runs step s (es @ fs) u"
  by (induction rule: runs.induct) (auto intro: runs.intros)

lemma runs_single: "step s e t \<Longrightarrow> runs step s [e] t"
  by (auto intro: runs.intros)

lemma runs_invariant:
  assumes "runs step s es t" "I s" "\<And>s e t. I s \<Longrightarrow> step s e t \<Longrightarrow> I t"
  shows "I t"
  using assms by (induction rule: runs.induct) auto

text \<open>A specification over sets that can remove any one element can remove any part.\<close>

lemma runs_remove:
  assumes "\<And>A x. x \<in> A \<Longrightarrow> step A (f x) (A - {x})" "finite A" "B \<subseteq> A"
  shows "\<exists>xs. runs step A (map f xs) B"
  using assms(2,3)
proof (induction "card (A - B)" arbitrary: A)
  case 0
  then have "A = B" by auto
  then show ?case by (intro exI [of _ "[]"]) (simp add: runs_Nil)
next
  case (Suc k)
  then obtain x where x: "x \<in> A - B" by (metis card.empty ex_in_conv nat.distinct(1))
  have "A - {x} - B = A - B - {x}" by blast
  then have "k = card (A - {x} - B)" using Suc.hyps(2) Suc.prems(1) x by simp
  from Suc.hyps(1) [OF this] Suc.prems x obtain xs where "runs step (A - {x}) (map f xs) B" by blast
  then have "runs step A (map f (x # xs)) B" using x assms(1) by (auto intro: runs_cons)
  then show ?case by blast
qed

section \<open>Forward simulation\<close>

text \<open>A step of the component from a state that satisfies its invariant is explained by a run of the specification between the
  abstractions of its two states. \<open>explains\<close> says which runs explain which event.\<close>

locale forward_simulation =
  fixes cstep :: "'s \<Rightarrow> 'e \<Rightarrow> 's \<Rightarrow> bool" and cinv :: "'s \<Rightarrow> bool" and absf :: "'s \<Rightarrow> 'a"
    and astep :: "'a \<Rightarrow> 'v \<Rightarrow> 'a \<Rightarrow> bool" and explained_by :: "'e \<Rightarrow> 'v list \<Rightarrow> bool"
  assumes step_explained: "cinv s \<Longrightarrow> cstep s e t \<Longrightarrow>
    cinv t \<and> (\<exists>vs. runs astep (absf s) vs (absf t) \<and> explained_by e vs)"
begin

lemma run_explained:
  assumes "runs cstep s es t" "cinv s"
  shows "cinv t \<and> (\<exists>vss. list_all2 explained_by es vss \<and> runs astep (absf s) (concat vss) (absf t))"
  using assms
proof (induction rule: runs.induct)
  case (runs_nil s)
  then show ?case by (auto simp: runs_Nil intro!: exI [of _ "[]"])
next
  case (runs_cons s e t es u)
  from step_explained [OF runs_cons.prems runs_cons.hyps(1)] obtain vs where t: "cinv t"
    and vs: "runs astep (absf s) vs (absf t)" "explained_by e vs" by blast
  from runs_cons.IH [OF t] obtain vss where "cinv u" "list_all2 explained_by es vss" "runs astep (absf t) (concat vss) (absf u)"
    by blast
  then show ?case using vs runs_append [OF vs(1)] by (intro conjI exI [of _ "vs # vss"]) auto
qed

end

end
