(* ===== verification/Pool.thy ===== *)
theory Pool
  imports Daemon Simulation
begin

text \<open>
  The storlet daemon among its environment: commands of any clients and the ends of child processes, in any order. The
  specification is a bounded pool of tasks; the daemon refines it along every interleaving.
\<close>

section \<open>The specification\<close>

text \<open>A set of tasks with room for \<open>n\<close>: a task starts when there is room, ends by itself, or is cancelled.\<close>

datatype pool_event = Started string | Finished string | Cancelled string

inductive pool_step :: "int \<Rightarrow> string set \<Rightarrow> pool_event \<Rightarrow> string set \<Rightarrow> bool" for n where
  start: "int (card A) < n \<Longrightarrow> pool_step n A (Started t) (insert t A)"
| finish: "t \<in> A \<Longrightarrow> pool_step n A (Finished t) (A - {t})"
| cancel: "t \<in> A \<Longrightarrow> pool_step n A (Cancelled t) (A - {t})"

abbreviation pool_run :: "int \<Rightarrow> string set \<Rightarrow> pool_event list \<Rightarrow> string set \<Rightarrow> bool" where
  "pool_run n \<equiv> runs (pool_step n)"

lemma pool_run_bound:
  assumes "pool_run n A es B" "finite A" "int (card A) \<le> n"
  shows "finite B \<and> int (card B) \<le> n"
proof -
  have "finite B \<and> int (card B) \<le> n" if "finite A \<and> int (card A) \<le> n" "pool_step n A e B" for A e B
    using that(2,1) by (cases rule: pool_step.cases) (auto simp: card_insert_if card_Diff_singleton_if split: if_splits)
  then show ?thesis using runs_invariant [where I = "\<lambda>A. finite A \<and> int (card A) \<le> n", OF assms(1)] assms(2,3) by blast
qed

text \<open>Any part of the tasks may have ended.\<close>

lemma pool_finish: "finite A \<Longrightarrow> B \<subseteq> A \<Longrightarrow> \<exists>ts. pool_run n A (map Finished ts) B"
  by (rule runs_remove) (auto intro: finish)

section \<open>The daemon and its environment\<close>

datatype daemon_event = Answered datagram cmd_resp | ChildExit

text \<open>\<open>exits\<close> is what may happen to the process table between two system calls of the daemon.\<close>

inductive daemon_step :: "'w os_ops \<Rightarrow> (int \<Rightarrow> rfile) \<Rightarrow> ('w \<Rightarrow> 'w \<Rightarrow> bool) \<Rightarrow> 'w dstate \<Rightarrow> daemon_event \<Rightarrow> 'w dstate \<Rightarrow> bool"
  for ops content exits where
  answered: "handle_command (daemon_handlers ops content) dtg s = (Inr r, s') \<Longrightarrow> daemon_step ops content exits s (Answered dtg r) s'"
| child_exit: "exits (d_world s) w \<Longrightarrow> daemon_step ops content exits s ChildExit (s\<lparr>d_world := w\<rparr>)"

abbreviation daemon_run :: "'w os_ops \<Rightarrow> (int \<Rightarrow> rfile) \<Rightarrow> ('w \<Rightarrow> 'w \<Rightarrow> bool) \<Rightarrow> 'w dstate \<Rightarrow> daemon_event list \<Rightarrow> 'w dstate \<Rightarrow> bool" where
  "daemon_run ops content exits \<equiv> runs (daemon_step ops content exits)"

text \<open>What an answer tells its client about the pool, and which events of the pool explain an event of the daemon: tasks may
  have ended before, and an execution that failed after the fork has started a task all the same.\<close>

definition reported :: "datagram \<Rightarrow> cmd_resp \<Rightarrow> pool_event list" where
  "reported d r = (case resp_task_id r of Some t \<Rightarrow> [Started t]
     | None \<Rightarrow> if command d = JStr ''SBUS_CMD_CANCEL'' \<and> status r then (case task_id d of JStr t \<Rightarrow> [Cancelled t] | _ \<Rightarrow> []) else [])"

fun explains :: "daemon_event \<Rightarrow> pool_event list \<Rightarrow> bool" where
  "explains ChildExit es \<longleftrightarrow> es = []"
| "explains (Answered d r) es \<longleftrightarrow> (\<exists>ts v. es = map Finished ts @ v \<and> (v = reported d r \<or> \<not> status r \<and> (\<exists>t. v = [Started t])))"

abbreviation tasks :: "'w dstate \<Rightarrow> string set" where "tasks s \<equiv> fst ` set (task_id_to_pid s)"

section \<open>Commands\<close>

lemma command_methods:
  "map (\<lambda>c. lower (drop (length SBUS_CMD_PREFIX) c)) sbus_cmd_attrs =
    [''halt'', ''execute'', ''start_daemon'', ''stop_daemon'', ''daemon_status'', ''stop_daemons'', ''ping'', ''cancel'', ''nop'',
     ''prefix'', [], [], ''__'', ''_'', [], [], ''_'', ''s__'']"
  by (simp add: SBUS_CMD_PREFIX_def lower_def lower_char_def sbus_cmd_attrs_def sbus_cmd_names_def char_of_def bit_0)

definition method_command :: "(string \<times> string) list" where
  "method_command = [(''halt'', ''SBUS_CMD_HALT''), (''execute'', ''SBUS_CMD_EXECUTE''), (''start_daemon'', ''SBUS_CMD_START_DAEMON''),
     (''stop_daemon'', ''SBUS_CMD_STOP_DAEMON''), (''daemon_status'', ''SBUS_CMD_DAEMON_STATUS''), (''stop_daemons'', ''SBUS_CMD_STOP_DAEMONS''),
     (''ping'', ''SBUS_CMD_PING''), (''cancel'', ''SBUS_CMD_CANCEL''), (''nop'', ''SBUS_CMD_NOP'')]"

lemma command_of_method:
  assumes "c \<in> set sbus_cmd_attrs" "map_of method_command (lower (drop (length SBUS_CMD_PREFIX) c)) = Some c'"
  shows "c = c'"
proof -
  let ?m = "\<lambda>c. lower (drop (length SBUS_CMD_PREFIX) c)"
  define others where "others = drop 9 (zip (map ?m sbus_cmd_attrs) sbus_cmd_attrs)"
  have z: "zip (map ?m sbus_cmd_attrs) sbus_cmd_attrs = method_command @ others"
    unfolding others_def command_methods by (simp add: method_command_def sbus_cmd_attrs_def sbus_cmd_names_def)
  have "map fst others = drop 9 (map ?m sbus_cmd_attrs)" by (simp only: others_def drop_map [symmetric] map_fst_zip length_map)
  then have o: "map fst others = [''prefix'', [], [], ''__'', ''_'', [], [], ''_'', ''s__'']" unfolding command_methods by simp
  have "(?m c, c) \<in> set (method_command @ others)" using assms(1) unfolding z [symmetric] by (fastforce simp: in_set_zip in_set_conv_nth)
  moreover have "(?m c, c) \<notin> set others"
  proof
    assume "(?m c, c) \<in> set others"
    then have "?m c \<in> set (map fst others)" by force
    then have "map_of method_command (?m c) = None" unfolding o by (auto simp: method_command_def)
    then show False using assms(2) by simp
  qed
  ultimately have "(?m c, c) \<in> set method_command" by simp
  moreover have "distinct (map fst method_command)" by (simp add: method_command_def)
  ultimately have "map_of method_command (?m c) = Some c" by (rule map_of_is_SomeI [rotated])
  then show ?thesis using assms(2) by simp
qed

lemma daemon_command_names:
  assumes "c \<in> set sbus_cmd_attrs" "map_of (daemon_handlers ops content) (lower (drop (length SBUS_CMD_PREFIX) c)) = Some h"
  shows "c = ''SBUS_CMD_PING'' \<and> h = ping \<or> c = ''SBUS_CMD_EXECUTE'' \<and> h = daemon_execute ops content \<or>
    c = ''SBUS_CMD_CANCEL'' \<and> h = daemon_cancel ops \<or> c = ''SBUS_CMD_HALT'' \<and> h = daemon_halt"
proof -
  define k where "k = lower (drop (length SBUS_CMD_PREFIX) c)"
  have k: "k = ''ping'' \<and> h = ping \<or> k = ''execute'' \<and> h = daemon_execute ops content \<or>
      k = ''cancel'' \<and> h = daemon_cancel ops \<or> k = ''halt'' \<and> h = daemon_halt"
    using assms(2) unfolding k_def [symmetric] daemon_handlers_def by (auto split: if_splits)
  note c = command_of_method [OF assms(1), folded k_def]
  from k show ?thesis by (elim disjE conjE) (use c in \<open>simp_all add: method_command_def\<close>)
qed

text \<open>Waiting only removes tasks.\<close>

lemma wait_child_shrinks: "set (task_id_to_pid (wait_child_process ops s)) \<subseteq> set (task_id_to_pid s)"
proof -
  have c: "set (task_id_to_pid (cleanup_pids ops s)) \<subseteq> set (task_id_to_pid s)"
    by (auto simp: cleanup_pids_def foldl_dict_pop split: prod.splits)
  have r: "set (task_id_to_pid (remove_pid p s')) \<subseteq> set (task_id_to_pid s')" for p and s' :: "'a dstate"
    by (auto simp: remove_pid_def dict_pop_filter split: option.splits)
  show ?thesis using c
    by (auto simp: wait_child_process_def Let_def split: prod.splits sum.splits if_splits dest!: subsetD [OF r])
qed

lemma wait_for_slot_shrinks:
  assumes "wait_for_slot ops s = Some s'"
  shows "set (task_id_to_pid s') \<subseteq> set (task_id_to_pid s)"
  by (rule while_option_rule [OF _ assms [unfolded wait_for_slot_def]]) (use wait_child_shrinks in blast)+

text \<open>An answer is the handler's, or it is a failure without a task.\<close>

lemma handled_cases:
  assumes "handle_command hs dtg s = (Inr r, s')"
  shows "(s' = s \<and> \<not> status r \<and> resp_task_id r = None \<and> (\<exists>e. get_handler hs (command dtg) = Inl e)) \<or>
    (\<exists>h x. get_handler hs (command dtg) = Inr h \<and> h dtg s = (x, s') \<and>
      (case x of Inr y \<Rightarrow> r = y | Inl e \<Rightarrow> (\<exists>st m it tid. e = CommandResponseExc st m it tid) \<or> \<not> status r \<and> resp_task_id r = None))"
proof (cases "get_handler hs (command dtg)")
  case (Inl e)
  then have "(\<exists>m. e = ValueError m) \<or> e = TypeError ''attribute name must be string''"
    by (auto simp: get_handler_def split: json.splits if_splits option.splits)
  then show ?thesis using assms Inl by (auto simp: handle_command_def resp_defs is_Exception_def)
next
  case (Inr h)
  obtain x t where x: "h dtg s = (x, t)" by fastforce
  show ?thesis
  proof (cases x)
    case (Inl e)
    then show ?thesis using assms Inr x by (cases e) (auto simp: handle_command_def resp_defs split: if_splits)
  qed (use assms Inr x in \<open>auto simp: handle_command_def\<close>)
qed

lemma close_fds_errno: "close_fds ops xs w = (Inl e, w') \<Longrightarrow> \<exists>n. e = OSErrno n"
  by (induction xs arbitrary: w) (auto simp: safe_close_def split: prod.splits sum.splits if_splits)

section \<open>The simulation\<close>

text \<open>The process table may change between the daemon's calls only as the end of a child changes it: it stays waitable.\<close>

locale process_env = process_os +
  fixes exits :: "'a \<Rightarrow> 'a \<Rightarrow> bool"
  assumes exit_waitable: "ok w \<Longrightarrow> exits w w' \<Longrightarrow> ok w' \<and> children w' = children w"
begin

lemma execute_sim:
  assumes "daemon_inv children ok s" "daemon_execute ops content dtg s = (r, s')"
  shows "\<exists>ts v. pool_run (d_pool_size s) (tasks s) (map Finished ts @ v) (tasks s') \<and> d_pool_size s' = d_pool_size s \<and>
    (case r of Inr resp \<Rightarrow> \<exists>t. resp = CommandSuccess ''OK'' True (Some t) \<and> v = [Started t] | Inl e \<Rightarrow> (\<exists>n. e = OSErrno n) \<and> (v = [] \<or> (\<exists>t. v = [Started t])))"
proof -
  obtain u w where u: "os_uuid4 ops (d_world s) = (u, w)" by fastforce
  let ?s0 = "s\<lparr>d_world := w\<rparr>"
  have "daemon_inv children ok ?s0" using assms(1) uuid4 [OF _ u] by (simp add: daemon_inv_def)
  then obtain ds w1 where slot: "wait_for_slot ops ?s0 = Some (s\<lparr>task_id_to_pid := ds, d_world := w1\<rparr>)"
    and ds: "int (length ds) < d_pool_size s" "ok w1" using wait_for_slot_spec [of ?s0] by auto
  have "fst ` set ds \<subseteq> tasks s" using wait_for_slot_shrinks [OF slot] by auto
  then obtain ts where ts: "pool_run (d_pool_size s) (tasks s) (map Finished ts) (fst ` set ds)"
    using pool_finish [of "tasks s"] by blast
  have "card (fst ` set ds) \<le> length ds" using card_image_le [of "set ds" fst] card_length [of ds] by simp
  then have room: "pool_run (d_pool_size s) (fst ` set ds) [Started t] (insert t (fst ` set ds))" for t
    using ds(1) by (auto intro!: runs.intros pool_step.start)
  obtain f w2 where f: "os_fork ops w1 = (f, w2)" by fastforce
  show ?thesis
  proof (cases f)
    case (Inl e)
    then have "r = Inl (OSErrno e)" "s' = s\<lparr>task_id_to_pid := ds, d_world := w2\<rparr>"
      using assms(2) u slot f by (auto simp: daemon_execute_def Let_def)
    then show ?thesis using ts by (intro exI [of _ ts] exI [of _ "[]"]) simp
  next
    case (Inr pid)
    then have "pid \<noteq> 0" using fork [OF ds(2) f] by simp
    then obtain c :: "unit res" and w3 where "r = rbind c (\<lambda>_. Inr (CommandSuccess ''OK'' True (Some (take 8 u))))" "\<And>e. c = Inl e \<Longrightarrow> \<exists>n. e = OSErrno n"
      "s' = s\<lparr>task_id_to_pid := dict_set (take 8 u) pid ds, d_world := w3\<rparr>"
      using assms(2) u slot f Inr by (auto simp: daemon_execute_def Let_def split: prod.splits dest: close_fds_errno)
    moreover have "fst ` set (dict_set (take 8 u) pid ds) = insert (take 8 u) (fst ` set ds)"
      by (simp add: dict_set_def AList.dom_update)
    ultimately show ?thesis using runs_append [OF ts room, of "take 8 u"]
      by (intro exI [of _ ts] exI [of _ "[Started (take 8 u)]"]) (cases c; simp)
  qed
qed

lemma cancel_sim:
  assumes "daemon_inv children ok s" "daemon_cancel ops dtg s = (r, s')"
  shows "d_pool_size s' = d_pool_size s \<and>
    ((\<exists>t m. task_id dtg = JStr t \<and> r = Inr (CommandSuccess m False None) \<and> pool_step (d_pool_size s) (tasks s) (Cancelled t) (tasks s')) \<or>
     (tasks s' = tasks s \<and> (case r of Inr x \<Rightarrow> \<not> status x \<and> resp_task_id x = None | Inl e \<Rightarrow> \<exists>m. e = TypeError m)))"
proof (cases "\<exists>t pid. task_id dtg = JStr t \<and> dict_get (task_id_to_pid s) t = Some pid")
  case True
  then obtain t pid where t: "task_id dtg = JStr t" "dict_get (task_id_to_pid s) t = Some pid" by blast
  obtain w where w: "daemon_cancel ops dtg s = (Inr (CommandSuccess (''Cancelled task '' @ t) False None),
      s\<lparr>task_id_to_pid := dict_pop t (task_id_to_pid s), d_world := w\<rparr>)"
    using daemon_cancel_known [OF assms(1) t] by blast
  have "tasks s' = tasks s - {t}" using w assms(2) by (auto simp: dict_pop_filter)
  moreover have "t \<in> tasks s" using t(2) by (force simp: dict_get_def dest: map_of_SomeD)
  ultimately have "pool_step (d_pool_size s) (tasks s) (Cancelled t) (tasks s')" by (simp add: pool_step.cancel)
  then show ?thesis using t(1) w assms(2) by auto
next
  case False
  then show ?thesis using assms(2) by (auto simp: daemon_cancel_def resp_defs split: json.splits option.splits)
qed

lemma answer_sim:
  assumes "daemon_inv children ok s" "handle_command (daemon_handlers ops content) dtg s = (Inr r, s')"
  shows "\<exists>es. pool_run (d_pool_size s) (tasks s) es (tasks s') \<and> explains (Answered dtg r) es \<and> d_pool_size s' = d_pool_size s"
  using handled_cases [OF assms(2)]
proof (elim disjE exE conjE)
  assume "s' = s" "\<not> status r" "resp_task_id r = None"
  then show ?thesis by (intro exI [of _ "[]"]) (auto simp: runs_Nil reported_def)
next
  fix h x
  assume h: "get_handler (daemon_handlers ops content) (command dtg) = Inr h" "h dtg s = (x, s')"
    and x: "case x of Inr y \<Rightarrow> r = y | Inl e \<Rightarrow> (\<exists>st m it tid. e = CommandResponseExc st m it tid) \<or> \<not> status r \<and> resp_task_id r = None"
  obtain c where c: "command dtg = JStr c" "c \<in> set sbus_cmd_attrs"
    "map_of (daemon_handlers ops content) (lower (drop (length SBUS_CMD_PREFIX) c)) = Some h"
    using h(1) by (auto simp: get_handler_cases)
  from daemon_command_names [OF c(2,3)] show ?thesis
  proof (elim disjE conjE)
    assume ex: "c = ''SBUS_CMD_EXECUTE''" "h = daemon_execute ops content"
    then obtain ts v where sim: "pool_run (d_pool_size s) (tasks s) (map Finished ts @ v) (tasks s')" "d_pool_size s' = d_pool_size s"
      "case x of Inr resp \<Rightarrow> \<exists>t. resp = CommandSuccess ''OK'' True (Some t) \<and> v = [Started t]
        | Inl e \<Rightarrow> (\<exists>n. e = OSErrno n) \<and> (v = [] \<or> (\<exists>t. v = [Started t]))"
      using execute_sim [OF assms(1)] h(2) by blast
    have "v = reported dtg r \<or> \<not> status r \<and> (\<exists>t. v = [Started t])"
      using x sim(3) c(1) ex by (cases x) (auto simp: reported_def resp_defs)
    then have "explains (Answered dtg r) (map Finished ts @ v)" by auto
    then show ?thesis using sim by blast
  next
    assume cn: "c = ''SBUS_CMD_CANCEL''" "h = daemon_cancel ops"
    then have d: "daemon_cancel ops dtg s = (x, s')" using h(2) by simp
    from cancel_sim [OF assms(1) d] show ?thesis
    proof (elim conjE disjE exE)
      fix t m assume "d_pool_size s' = d_pool_size s" "task_id dtg = JStr t" "x = Inr (CommandSuccess m False None)"
        "pool_step (d_pool_size s) (tasks s) (Cancelled t) (tasks s')"
      then show ?thesis using x c(1) cn(1)
        by (intro exI [of _ "[Cancelled t]"]) (auto simp: reported_def resp_defs runs_Cons runs_Nil)
    next
      assume "d_pool_size s' = d_pool_size s" "tasks s' = tasks s"
        "case x of Inr x \<Rightarrow> \<not> status x \<and> resp_task_id x = None | Inl e \<Rightarrow> \<exists>m. e = TypeError m"
      then show ?thesis using x by (intro exI [of _ "[]"]) (cases x; auto simp: reported_def runs_Nil)
    qed
  qed (use h(2) x c(1) in \<open>auto simp: ping_def daemon_halt_def resp_defs reported_def runs_Nil intro!: exI [of _ "[]"]\<close>)
qed

lemma step_sim:
  assumes "daemon_inv children ok s" "daemon_step ops content exits s e s'"
  shows "daemon_inv children ok s' \<and> d_pool_size s' = d_pool_size s \<and>
    (\<exists>es. pool_run (d_pool_size s) (tasks s) es (tasks s') \<and> explains e es)"
  using assms(2)
proof (cases rule: daemon_step.cases)
  case (answered dtg r)
  then have "daemon_inv children ok s'" using d.handle_command_total [OF assms(1), of content dtg] by auto
  then show ?thesis using answer_sim [OF assms(1) answered(2)] answered(1) by auto
next
  case (child_exit w)
  then show ?thesis using assms(1) exit_waitable [of "d_world s" w] by (auto simp: daemon_inv_def runs_Nil)
qed

end

text \<open>The daemon with a pool of size \<open>n\<close> simulates the pool.\<close>

sublocale process_env \<subseteq> sim: forward_simulation "daemon_step ops content exits" "\<lambda>s. daemon_inv children ok s \<and> d_pool_size s = n"
  tasks "pool_step n" explains for content n
  by unfold_locales (use step_sim in blast)

context process_env
begin

lemmas pool_simulation = sim.forward_simulation_axioms

end

section \<open>The process table and its children\<close>

definition table_exit :: "world \<Rightarrow> world \<Rightarrow> bool" where
  "table_exit w w' \<longleftrightarrow> (\<exists>p \<in> set (w_running w). \<exists>rc.
     w' = w\<lparr>w_running := remove1 p (w_running w), w_zombies := w_zombies w @ [(p, rc)]\<rparr>)"

lemma exited_child:
  assumes "world_ok w" "p \<in> set (w_running w)"
  shows "world_ok (w\<lparr>w_running := remove1 p (w_running w), w_zombies := w_zombies w @ [(p, rc)]\<rparr>) \<and>
    world_children (w\<lparr>w_running := remove1 p (w_running w), w_zombies := w_zombies w @ [(p, rc)]\<rparr>) = world_children w"
  using assms unfolding world_ok_def world_children_def by auto

interpretation table_env: process_env table_ops world_children world_ok table_exit
  by unfold_locales (use exited_child in \<open>auto simp only: table_exit_def\<close>)


abbreviation sample_events :: "daemon_event list" where
  "sample_events \<equiv> [ChildExit, Answered cancel_datagram (CommandSuccess ''Cancelled task t1'' False None)]"

lemma cancel_command: "lower (drop (length SBUS_CMD_PREFIX) ''SBUS_CMD_CANCEL'') = ''cancel''"
  by (simp add: SBUS_CMD_PREFIX_def lower_def lower_char_def char_of_def bit_0)

lemma sample_interleaving: "\<exists>s'. daemon_run table_ops sample_content table_exit sample_daemon sample_events s'"
proof -
  let ?w = "sample_world\<lparr>w_running := [], w_zombies := [(7, 0)]\<rparr>"
  have w: "table_exit sample_world ?w" by (simp add: table_exit_def sample_world_def)
  have "get_handler (daemon_handlers table_ops sample_content) (command cancel_datagram) = Inr (daemon_cancel table_ops)"
    unfolding get_handler_cases using cancel_command
    by (simp add: cancel_datagram_def sbus_cmd_attrs_def sbus_cmd_names_def daemon_handlers_def)
  moreover obtain s' where "daemon_cancel table_ops cancel_datagram (sample_daemon\<lparr>d_world := ?w\<rparr>) =
      (Inr (CommandSuccess ''Cancelled task t1'' False None), s')"
    by (simp add: daemon_cancel_def cancel_datagram_def sample_daemon_def dict_get_def table_ops_def table_kill_def)
  ultimately have "handle_command (daemon_handlers table_ops sample_content) cancel_datagram (sample_daemon\<lparr>d_world := ?w\<rparr>)
      = (Inr (CommandSuccess ''Cancelled task t1'' False None), s')" by (simp add: handle_command_def)
  then have "daemon_step table_ops sample_content table_exit (sample_daemon\<lparr>d_world := ?w\<rparr>)
      (Answered cancel_datagram (CommandSuccess ''Cancelled task t1'' False None)) s'" by (rule answered)
  moreover have "daemon_step table_ops sample_content table_exit sample_daemon ChildExit (sample_daemon\<lparr>d_world := ?w\<rparr>)"
    by (rule child_exit) (simp add: sample_daemon_def w)
  ultimately show ?thesis by (blast intro: runs.intros)
qed


end
