(* ===== verification/Registry.thy ===== *)
theory Registry
  imports Factory Pool
begin

text \<open>
  The daemon factory as a registry of storlet daemons. The specification is a set of names; along every sequence of commands
  and of changes of the world around it the factory refines it: what an answer claims about a storlet is true of the table, and a
  command about one storlet leaves the entries of all others alone.
\<close>

section \<open>The specification\<close>

datatype registry_event = Registered string | Found string | Removed string | Emptied

inductive registry_step :: "string set \<Rightarrow> registry_event \<Rightarrow> string set \<Rightarrow> bool" where
  registered: "registry_step R (Registered n) (insert n R)"
| found: "n \<in> R \<Longrightarrow> registry_step R (Found n) R"
| removed: "n \<in> R \<Longrightarrow> registry_step R (Removed n) (R - {n})"
| emptied: "registry_step {} Emptied {}"

text \<open>Any part of the entries may be removed.\<close>

lemma registry_shrink: "finite R \<Longrightarrow> S \<subseteq> R \<Longrightarrow> \<exists>ns. runs registry_step R (map Removed ns) S"
  by (rule runs_remove) (auto intro: removed)

section \<open>The factory and its environment\<close>

datatype factory_event = Replied datagram cmd_resp | WorldChanged

text \<open>\<open>changes\<close> is what may happen to the world between two commands, for example the end of a daemon.\<close>

inductive factory_step :: "'w factory_ops \<Rightarrow> ('w \<Rightarrow> 'w \<Rightarrow> bool) \<Rightarrow> 'w fstate \<Rightarrow> factory_event \<Rightarrow> 'w fstate \<Rightarrow> bool"
  for ops changes where
  replied: "handle_command (factory_handlers ops) dtg s = (Inr r, s') \<Longrightarrow> factory_step ops changes s (Replied dtg r) s'"
| world_changed: "changes (f_world s) w \<Longrightarrow> factory_step ops changes s WorldChanged (s\<lparr>f_world := w\<rparr>)"

definition names :: "'w fstate \<Rightarrow> string set" where "names s = fst ` set (storlet_name_to_pid s)"

lemma names_simps [simp]:
  "names (s\<lparr>f_world := w\<rparr>) = names s"
  "names (s\<lparr>storlet_name_to_pipe_name := p\<rparr>) = names s"
  "names (s\<lparr>storlet_name_to_pid := dict_set n pid (storlet_name_to_pid s)\<rparr>) = insert n (names s)"
  "names (s\<lparr>f_world := w, storlet_name_to_pid := dict_pop n (storlet_name_to_pid s)\<rparr>) = names s - {n}"
  by (auto simp: names_def dict_set_def AList.dom_update dict_pop_filter)

lemma names_get: "dict_get (storlet_name_to_pid s) n = Some v \<Longrightarrow> n \<in> names s"
  by (force simp: names_def dict_get_def dest: map_of_SomeD)

definition about :: "datagram \<Rightarrow> string \<Rightarrow> bool" where
  "about d n \<longleftrightarrow> jgetitem (params d) ''storlet_name'' = Inr (JStr n)"

text \<open>Which events of the registry explain a reply: success reports that the storlet is registered now, was found, is removed, or
  that no storlet is left; a failed start may have registered the daemon that did not answer.\<close>

definition claims :: "datagram \<Rightarrow> cmd_resp \<Rightarrow> registry_event list \<Rightarrow> bool" where
  "claims d r es \<longleftrightarrow>
     (if command d = JStr ''SBUS_CMD_START_DAEMON'' then
        (if status r then \<exists>n. about d n \<and> es \<in> {[Registered n], [Found n]} else es = [] \<or> (\<exists>n. about d n \<and> es = [Registered n]))
      else if command d = JStr ''SBUS_CMD_STOP_DAEMON'' then
        (if status r then \<exists>n. about d n \<and> es = [Removed n] else es = [])
      else if command d = JStr ''SBUS_CMD_DAEMON_STATUS'' then
        (if status r then \<exists>n. about d n \<and> es = [Found n] else es = [])
      else if command d \<in> {JStr ''SBUS_CMD_STOP_DAEMONS'', JStr ''SBUS_CMD_HALT''} then
        (\<exists>ns. es = map Removed ns @ (if status r then [Emptied] else []))
      else es = [])"

fun registry_explains :: "factory_event \<Rightarrow> registry_event list \<Rightarrow> bool" where
  "registry_explains (Replied d r) es = claims d r es"
| "registry_explains WorldChanged es = (es = [])"

section \<open>Exceptions of the operations\<close>

text \<open>No operation raises a response, so a successful answer comes from the end of a handler.\<close>

definition no_response :: "'a res \<Rightarrow> bool" where
  "no_response x \<longleftrightarrow> (\<forall>st m it tid. x \<noteq> Inl (CommandResponseExc st m it tid))"

lemma no_response_simps [simp]: "no_response (Inr x)" "no_response (Inl e) \<longleftrightarrow> (\<forall>st m it tid. e \<noteq> CommandResponseExc st m it tid)"
  by (auto simp: no_response_def)

lemma no_response_rbind [intro]: "no_response x \<Longrightarrow> (\<And>y. x = Inr y \<Longrightarrow> no_response (f y)) \<Longrightarrow> no_response (rbind x f)"
  by (cases x) auto

lemma no_response_mapM: "(\<And>x. no_response (f x)) \<Longrightarrow> no_response (mapM f xs)"
  by (induction xs) (auto intro!: no_response_rbind)

lemma read_reply_exc: "read_reply ops fd n acc w = Some y \<Longrightarrow> no_response (fst y)"
proof (rule read_reply.raw_induct [where P = "\<lambda>_ _ _ _ _ y. no_response (fst y)", rotated])
  fix f and ops :: "'a pipe_ops" and fd n acc w and y :: "string res \<times> 'a"
  assume "\<And>ops fd n acc w y. f ops fd n acc w = Some y \<Longrightarrow> no_response (fst y)"
    "(case os_read ops fd n w of (Inl e, w') \<Rightarrow> Some (Inl SBusClientIOError, w')
      | (Inr buf, w') \<Rightarrow> if buf = [] then Some (Inr acc, w') else f ops fd n (acc @ buf) w') = Some y"
  then show "no_response (fst y)" by (auto split: prod.splits sum.splits if_splits)
qed

lemma build_datagram_no_response: "no_response (build_datagram cmd ss ps tid)"
  by (auto simp: build_datagram_def execute_datagram_def service_datagram_def datagram_init_def check_required_fdtypes_def Let_def)

lemma parse_response_no_response: "no_response (parse_response s)"
proof -
  have "no_response (jget v k)" "no_response (jgetitem v k)" for v k by (cases v; auto split: option.splits)+
  moreover have "no_response (loads s)" by (auto simp: loads_def split: option.splits)
  ultimately have "no_response (rbind (loads s) (\<lambda>resp. rbind (jgetitem resp ''status'') (\<lambda>st.
             rbind (jgetitem resp ''message'') (\<lambda>m. Inr (resp, st, m)))))" by (intro no_response_rbind) auto
  then show ?thesis using \<open>\<And>v k. no_response (jget v k)\<close> unfolding parse_response_def
    by (auto intro!: no_response_rbind split: sum.split py_exc.split prod.split)
qed

lemma finally_close_no_response: "no_response (fst rw) \<Longrightarrow> no_response (fst (finally_close ops fd rw))"
  by (auto simp: finally_close_def split: prod.split sum.split)

lemma send_command_no_response: "no_response (fst (send_command ops path fd cmd ps tid extra w))"
proof (cases "build_datagram cmd (SBusFileDescriptor SBUS_FD_SERVICE_OUT fd [] JNull # extra) ps tid")
  case (Inl e)
  have "no_response (Inl e :: datagram res)" using build_datagram_no_response unfolding Inl [symmetric] .
  then show ?thesis using Inl by (simp add: send_command_def)
qed (auto simp: send_command_def split: prod.split)

lemma utf8_decode_no_response: "no_response (utf8_decode s)"
  by (auto simp: no_response_def dest: utf8_decode_error)

lemma request_no_response: "no_response (fst (request ops path n cmd ps tid extra w))"
proof (cases "os_pipe ops w")
  case (Pair p w1)
  show ?thesis
  proof (cases p)
    case (Inr ab)
    obtain rfd wfd where ab: "ab = (rfd, wfd)" by fastforce
    obtain c w2 where c: "finally_close ops wfd (send_command ops path wfd cmd ps tid extra w1) = (c, w2)" by fastforce
    then have "no_response c" using finally_close_no_response [OF send_command_no_response] by (metis fst_conv)
    show ?thesis
    proof (cases c)
      case (Inl e)
      have "no_response (fst (finally_close ops rfd (Inl e :: sbus_response res, w2)))"
        by (rule finally_close_no_response) (use \<open>no_response c\<close> Inl in simp)
      then show ?thesis using Pair Inr ab c Inl by (simp add: request_def)
    next
      case c': (Inr u)
      show ?thesis
      proof (cases "read_reply ops rfd n [] w2")
        case (Some rw)
        then have "no_response (fst (finally_close ops rfd rw))" by (intro finally_close_no_response read_reply_exc)
        then have "no_response (rbind (rbind (fst (finally_close ops rfd rw)) utf8_decode) parse_response)"
          by (intro no_response_rbind utf8_decode_no_response parse_response_no_response)
        then show ?thesis using Pair Inr ab c c' Some by (auto simp: request_def split: prod.split)
      qed (use Pair Inr ab c c' in \<open>simp add: request_def\<close>)
    qed
  qed (use Pair in \<open>simp add: request_def\<close>)
qed

section \<open>The table\<close>

text \<open>Operations that look at the world leave the table as it is.\<close>

lemma daemon_call_table:
  assumes "cmd \<in> {client_ping, client_halt}" "daemon_call cmd ops p s = (r, s')"
  shows "names s' = names s \<and> storlet_name_to_pid s' = storlet_name_to_pid s \<and> no_response r"
proof -
  have "no_response (fst (cmd (fo_pipe ops) (SBusClient q) w))" for q w
    using assms(1) request_no_response by (auto simp: client_ping_def client_halt_def client_request_def)
  then show ?thesis using assms(2) by (auto simp: daemon_call_def split: json.splits prod.splits) (metis fst_conv)
qed

lemma ping_tries_table: "ping_tries ops p k s = (r, s') \<Longrightarrow> names s' = names s \<and> no_response r"
proof (induction k arbitrary: s)
  case (Suc k)
  obtain x s1 where x: "daemon_call client_ping ops p s = (x, s1)" by fastforce
  then have "names s1 = names s" "no_response x" using daemon_call_table by blast+
  then show ?case using Suc.prems Suc.IH [of s1] x by (cases x) (auto split: if_splits)
qed auto

lemma status_table: "get_process_status_by_pid ops pid n s = (r, s') \<Longrightarrow> names s' = names s \<and> no_response r"
  by (auto simp: get_process_status_by_pid_def split: prod.splits sum.splits if_splits)

lemma status_by_name_table:
  assumes "get_process_status_by_name ops j s = (r, s')"
  shows "names s' = names s \<and> no_response r \<and> (r = Inr True \<longrightarrow> (\<exists>n. j = JStr n \<and> n \<in> names s))"
  using assms by (cases j) (auto simp: get_process_status_by_name_def split: option.splits dest: status_table names_get)

text \<open>Starting adds at most the name of the request, stopping removes at most it.\<close>

lemma check_started_table:
  assumes "check_started ops pid n s = (r, s')"
  shows "no_response r \<and> (names s' = names s \<and> (\<exists>e. r = Inl e) \<or> names s' = insert n (names s))"
proof -
  obtain x s1 where x: "get_process_status_by_pid ops pid n s = (x, s1)" by fastforce
  let ?s2 = "s1\<lparr>storlet_name_to_pid := dict_set n pid (storlet_name_to_pid s1)\<rparr>"
  obtain y s3 where y: "wait_for_daemon_to_initialize ops n ?s2 = (y, s3)" by fastforce
  then have "names s3 = insert n (names s1) \<and> no_response y"
  proof (cases "dict_get (storlet_name_to_pipe_name s1) n")
    case (Some q)
    then have "ping_tries ops q NUM_OF_TRIES_PINGING_STARTING_DAEMON ?s2 = (y, s3)" using y by (simp add: wait_for_daemon_to_initialize_def)
    from ping_tries_table [OF this] show ?thesis by simp
  qed (simp add: wait_for_daemon_to_initialize_def, metis names_simps(3) no_response_simps(2) py_exc.distinct)
  moreover have s1: "names s1 = names s" "no_response x" using status_table [OF x] by simp_all
  ultimately have y': "names s3 = insert n (names s)" "no_response y" by simp_all
  show ?thesis
  proof (cases x)
    case (Inl e)
    then show ?thesis using assms x s1 by (auto simp: check_started_def)
  next
    case (Inr st)
    show ?thesis
    proof (cases st)
      case True
      then show ?thesis using assms x Inr y y' by (cases y) (auto simp: check_started_def)
    next
      case False
      then show ?thesis using assms x Inr s1 by (auto simp: check_started_def)
    qed
  qed
qed

lemma as_str_Inr: "as_str j = Inr n \<longleftrightarrow> j = JStr n"
  by (cases j) auto

lemma spawn_table:
  assumes "spawn_subprocess ops pargs e j s = (r, s')"
  shows "no_response r \<and> (names s' = names s \<and> (\<exists>e. r = Inl e) \<or> (\<exists>n. j = JStr n \<and> names s' = insert n (names s)))"
proof -
  define a where "a = rbind (mapM as_str pargs) (\<lambda>args. rbind (as_str j) (\<lambda>name. Inr (args, name)))"
  have as: "no_response (as_str v)" for v by (cases v) auto
  then have "no_response a" unfolding a_def by (intro no_response_rbind no_response_mapM) auto
  moreover have "j = JStr n" if "a = Inr (args, n)" for args n using that by (auto simp: a_def rbind_Inr_iff as_str_Inr)
  ultimately have a: "no_response a" "\<And>args n. a = Inr (args, n) \<Longrightarrow> j = JStr n" by blast+
  show ?thesis
  proof (cases "pargs = [] \<or> \<not> fo_executable ops (str_of_json (hd pargs)) (f_world s)")
    case True
    then show ?thesis using assms by (cases "pargs = []") (simp_all add: spawn_subprocess_def, auto)
  next
    case False
    note r = assms [unfolded spawn_subprocess_def a_def [symmetric]]
    show ?thesis
    proof (cases a)
      case (Inl x)
      then show ?thesis using r a(1) False by auto
    next
      case (Inr an)
      then obtain args n where n: "a = Inr (args, n)" by (cases an) auto
      obtain x w where x: "fo_popen ops args (Some e) (f_world s) = (x, w)" by fastforce
      obtain y w' where y: "fo_popen ops [''logger''] None w = (y, w')" by fastforce
      show ?thesis
      proof (cases "(\<exists>p. x = Inr p) \<and> (\<exists>q. y = Inr q)")
        case True
        then obtain p q where "x = Inr p" "y = Inr q" by blast
        then have "check_started ops p n (s\<lparr>f_world := w'\<rparr>) = (r, s')" using r False n x y by auto
        then show ?thesis using check_started_table a(2) [OF n] by fastforce
      next
        case False2: False
        then show ?thesis using r False n x y by (cases x; cases y) auto
      qed
    qed
  qed
qed

lemma start_table:
  assumes "process_start_daemon ops lang path j pool uds level version s = (r, s')"
  shows "no_response r \<and> (case r of
      Inl _ \<Rightarrow> names s' = names s \<or> (\<exists>n. j = JStr n \<and> names s' = insert n (names s))
    | Inr b \<Rightarrow> \<exists>n. j = JStr n \<and> (if b then names s' = insert n (names s) else n \<in> names s \<and> names s' = names s))"
proof -
  define a where "a = rbind (daemon_args ops s lang path j pool uds level version) (\<lambda>(pargs, e). rbind (assign_pipe j uds s) (\<lambda>s1. Inr (pargs, e, s1)))"
  have "no_response (as_str v)" "no_response (assign_pipe v uds s)" "no_response (lang_lower v)" for v
    by (cases v; auto simp: assign_pipe_def lang_lower_def)+
  then have na: "no_response a" unfolding a_def daemon_args_def get_jvm_args_def get_python_args_def
    by (auto simp: Let_def intro!: no_response_rbind)
  show ?thesis
  proof (cases a)
    case (Inl e)
    then show ?thesis using assms na unfolding process_start_daemon_def a_def [symmetric] by auto
  next
    case (Inr x)
    then obtain pargs e s1 where a: "a = Inr (pargs, e, s1)" by (cases x) auto
    then have s1: "names s1 = names s" by (auto simp: a_def rbind_Inr_iff assign_pipe_def split: json.splits)
    obtain b s2 where b: "get_process_status_by_name ops j s1 = (b, s2)" by fastforce
    obtain c s3 where c: "spawn_subprocess ops pargs e j s2 = (c, s3)" by fastforce
    note r = assms [unfolded process_start_daemon_def a_def [symmetric] a, simplified, unfolded b, simplified]
    show ?thesis
    proof (cases "b = Inr False")
      case True
      then have "(case c of Inl e \<Rightarrow> (Inl e, s3) | Inr _ \<Rightarrow> (Inr True, s3)) = (r, s')" using r c by (cases c) auto
      then show ?thesis using spawn_table [OF c] status_by_name_table [OF b] s1 by (cases c) auto
    next
      case False
      then show ?thesis using r status_by_name_table [OF b] s1 by (cases b) auto
    qed
  qed
qed

lemma kill_table:
  assumes "process_kill ops j s = (r, s')"
  shows "no_response r \<and> (case r of Inl _ \<Rightarrow> names s' = names s | Inr _ \<Rightarrow> \<exists>n. j = JStr n \<and> n \<in> names s \<and> names s' = names s - {n})"
  using assms by (cases j) (auto simp: process_kill_def Let_def split: option.splits prod.splits sum.splits dest: names_get)

lemma shutdown_table:
  assumes "shutdown_process ops (JStr n) s = (r, s')"
  shows "no_response r \<and> names s' \<subseteq> names s"
proof (cases "dict_get (storlet_name_to_pid s) n = None \<or> dict_get (storlet_name_to_pipe_name s) n = None")
  case False
  then obtain pid p where p: "dict_get (storlet_name_to_pid s) n = Some pid" "dict_get (storlet_name_to_pipe_name s) n = Some p" by auto
  obtain x s1 where x: "daemon_call client_halt ops p s = (x, s1)" by fastforce
  then have t: "names s1 = names s" "no_response x" using daemon_call_table by blast+
  obtain y w where y: "os_waitpid (fo_os ops) pid (f_world s1) = (y, w)" by fastforce
  show ?thesis
  proof (cases x)
    case (Inl e)
    then show ?thesis using assms p x t by (auto simp: shutdown_process_def Let_def)
  next
    case (Inr resp)
    have s': "s' \<in> {s1, s1\<lparr>f_world := w\<rparr>, s1\<lparr>f_world := w, storlet_name_to_pid := dict_pop n (storlet_name_to_pid s1)\<rparr>} \<and> no_response r"
      using assms p x Inr y by (cases y) (auto simp: shutdown_process_def Let_def split: if_splits)
    then have "names s' \<in> {names s1, names s1 - {n}}" by (elim conjE insertE) simp_all
    then show ?thesis using s' t(1) by blast
  qed
qed (use assms in \<open>auto simp: shutdown_process_def Let_def split: option.splits\<close>)

lemma stop_each_table:
  assumes "\<And>n s r s'. stop (JStr n) s = (r, s') \<Longrightarrow> no_response r \<and> names s' \<subseteq> names s" "stop_each stop b ns s = (r, s')"
  shows "no_response r \<and> names s' \<subseteq> names s"
  using assms(2)
proof (induction ns arbitrary: s r s')
  case (Cons n ns)
  obtain x s1 where x: "stop (JStr n) s = (x, s1)" by fastforce
  obtain y s2 where y: "stop_each stop b ns s1 = (y, s2)" by fastforce
  note t = assms(1) [OF x] Cons.IH [OF y]
  show ?case
  proof (cases x)
    case (Inl e)
    then show ?thesis using Cons.prems x y t by (cases y) (auto split: if_splits)
  next
    case (Inr z)
    then have "r = y" "s' = s2" using Cons.prems x y by auto
    then show ?thesis using t by blast
  qed
qed auto

lemma names_empty: "storlet_name_to_pid s = [] \<Longrightarrow> names s = {}"
  by (simp add: names_def)

lemma kill_all_table:
  assumes "dict_ok (storlet_name_to_pid s)" "process_kill_all ops True s = (r, s')"
  shows "no_response r \<and> names s' \<subseteq> names s \<and> (r = Inr () \<longrightarrow> names s' = {})"
proof -
  obtain x where x: "stop_each (process_kill ops) True (map fst (storlet_name_to_pid s)) s = (x, s')"
    using assms(2) by (auto simp: process_kill_all_def split: prod.splits sum.splits)
  have "no_response y \<and> names t' \<subseteq> names t" if "process_kill ops (JStr n) t = (y, t')" for n y t t'
    using kill_table [OF that] by (cases y) auto
  then have "names s' \<subseteq> names s" using stop_each_table [of "process_kill ops", OF _ x] by blast
  moreover have "no_response r \<and> (r = Inr () \<longrightarrow> names s' = {})"
    using process_kill_all_spec [OF assms(1), of ops] assms(2) by (auto simp: Let_def names_empty split: if_splits)
  ultimately show ?thesis by blast
qed

lemma shutdown_all_table:
  assumes "dict_ok (storlet_name_to_pid s)" "shutdown_all_processes ops True s = (r, s')"
  shows "no_response r \<and> names s' \<subseteq> names s \<and> (\<forall>ns. r = Inr ns \<longrightarrow> names s' = {})"
proof -
  obtain x where x: "stop_each (shutdown_process ops) True (map fst (storlet_name_to_pid s)) s = (x, s')"
    "r = rbind x (\<lambda>failed. if failed \<noteq> [] then Inl (SDaemonError (''Failed to shutdown some storlet daemons: '' @ join_with '', '' failed))
       else Inr (map fst (storlet_name_to_pid s)))"
    using assms(2) by (auto simp: shutdown_all_processes_def Let_def split: prod.splits sum.splits)
  have "no_response x \<and> names s' \<subseteq> names s" by (rule stop_each_table [OF shutdown_table x(1)])
  then show ?thesis using shutdown_all_spec [OF assms] x(2) by (cases x) (auto simp: names_empty)
qed

section \<open>The simulation\<close>

lemma names_finite [simp]: "finite (names s)"
  by (simp add: names_def)

text \<open>What a handler did explains its answer, and a failure built from the exception it raised.\<close>

definition handled_ok :: "datagram \<Rightarrow> string set \<Rightarrow> cmd_resp res \<Rightarrow> string set \<Rightarrow> bool" where
  "handled_ok d R x S \<longleftrightarrow> no_response x \<and> (\<exists>es. runs registry_step R es S \<and>
     (\<forall>r. (case x of Inr y \<Rightarrow> r = y | Inl _ \<Rightarrow> \<not> status r) \<longrightarrow> claims d r es))"

lemma failed_claims:
  assumes "no_response (Inl e :: cmd_resp res)" "runs registry_step R es S" "\<And>r. \<not> status r \<Longrightarrow> claims d r es"
  shows "handled_ok d R (sdaemon_failure it (Inl e)) S"
proof -
  have "sdaemon_failure it (Inl e) = Inl e \<or> (\<exists>m. sdaemon_failure it (Inl e) = Inr (CommandFailure m it None))"
    by (auto simp: sdaemon_failure_def split: py_exc.split)
  then show ?thesis using assms by (auto simp: handled_ok_def resp_defs)
qed

lemma removed_claims:
  assumes "command d \<in> {JStr ''SBUS_CMD_STOP_DAEMONS'', JStr ''SBUS_CMD_HALT''}" "names s' \<subseteq> names s" "no_response x"
    "(\<exists>m. x = Inr (CommandSuccess m False None) \<and> names s' = {}) \<or> (\<exists>e. x = Inl e)"
  shows "handled_ok d (names s) (sdaemon_failure False x) (names s')"
proof -
  obtain ns where ns: "runs registry_step (names s) (map Removed ns) (names s')" using registry_shrink [OF names_finite assms(2)] by blast
  show ?thesis using assms(4)
  proof (elim disjE exE conjE)
    fix m assume x: "x = Inr (CommandSuccess m False None)" "names s' = {}"
    then have "runs registry_step (names s) (map Removed ns @ [Emptied]) (names s')" using ns
      by (intro runs_append [OF ns]) (auto intro: runs_single emptied)
    then show ?thesis using x assms(1) by (auto simp: handled_ok_def sdaemon_failure_def resp_defs claims_def)
  next
    fix e assume x: "x = Inl e"
    show ?thesis unfolding x by (rule failed_claims [OF _ ns]) (use x assms in \<open>auto simp: claims_def\<close>)
  qed
qed

lemma start_claims:
  assumes "command d = JStr ''SBUS_CMD_START_DAEMON''" "start_daemon ops d s = (x, s')"
  shows "handled_ok d (names s) x (names s')"
proof -
  define a where "a = rbind (jgetitem (params d) ''storlet_name'') (\<lambda>name.
           rbind (jgetitem (params d) ''daemon_language'') (\<lambda>lang.
           rbind (jgetitem (params d) ''storlet_path'') (\<lambda>path.
           rbind (jgetitem (params d) ''pool_size'') (\<lambda>pool.
           rbind (jgetitem (params d) ''uds_path'') (\<lambda>uds.
           rbind (jgetitem (params d) ''log_level'') (\<lambda>level.
           rbind (jget (params d) ''daemon_language_version'') (\<lambda>version.
             Inr (name, lang, path, pool, uds, level, version))))))))"
  have "no_response (jgetitem v k)" "no_response (jget v k)" for v k by (cases v; auto split: option.splits)+
  then have na: "no_response a" unfolding a_def by (intro no_response_rbind) auto
  note x = assms(2) [unfolded start_daemon_def a_def [symmetric]]
  show ?thesis
  proof (cases a)
    case (Inl e)
    then have "x = Inl e" "s' = s" using x by auto
    then show ?thesis using na Inl assms(1) by (auto simp: handled_ok_def claims_def runs_Nil intro!: exI [of _ "[]"])
  next
    case (Inr v)
    then obtain j lang path pool uds level version where a: "a = Inr (j, lang, path, pool, uds, level, version)" by (cases v) auto
    then have ab: "j = JStr n \<Longrightarrow> about d n" for n by (auto simp: a_def rbind_Inr_iff about_def)
    obtain y t where y: "process_start_daemon ops lang path j pool uds level version s = (y, t)" by fastforce
    let ?ok = "\<lambda>started. CommandSuccess (if started then ''OK'' else ''The storlet daemon '' @ str_of_json j @ '' is already running'') True None"
    have x: "x = sdaemon_failure True (rbind y (\<lambda>started. Inr (?ok started)))" "s' = t" using x a y by auto
    note t = start_table [OF y]
    show ?thesis
    proof (cases y)
      case y': (Inl e)
      have "x = sdaemon_failure True (Inl e)" using x(1) y' by simp
      moreover have "\<exists>es. runs registry_step (names s) es (names t) \<and> (es = [] \<or> (\<exists>n. about d n \<and> es = [Registered n]))"
      proof -
        have "names t = names s \<or> (\<exists>n. about d n \<and> names t = insert n (names s))" using t y' ab by auto
        then show ?thesis using runs_nil [of registry_step "names s"] runs_single [of registry_step, OF registered] by metis
      qed
      then obtain es where "runs registry_step (names s) es (names t)" "es = [] \<or> (\<exists>n. about d n \<and> es = [Registered n])" by blast
      moreover have "no_response (Inl e :: cmd_resp res)" using t y' by simp
      ultimately show ?thesis unfolding x(2) using assms(1) failed_claims [of e "names s" es "names t" d True] by (simp add: claims_def)
    next
      case y': (Inr b)
      then obtain n where n: "j = JStr n" "if b then names t = insert n (names s) else n \<in> names s \<and> names t = names s" using t by auto
      have xb: "x = Inr (?ok b)" using x(1) y' by (simp add: sdaemon_failure_def)
      have "runs registry_step (names s) [if b then Registered n else Found n] (names t)"
        using n(2) by (auto intro: runs_single registered found split: if_splits)
      moreover have "status (?ok b)" by (simp add: resp_defs)
      ultimately show ?thesis unfolding x(2) xb handled_ok_def using ab [OF n(1)] assms(1)
        by (intro conjI exI [of _ "[if b then Registered n else Found n]"]) (auto simp: claims_def)
    qed
  qed
qed

text \<open>The handlers of a single storlet that read only its name.\<close>

lemma named_claims:
  assumes "x = (case jgetitem (params d) ''storlet_name'' of Inl e \<Rightarrow> Inl e | Inr j \<Rightarrow> sdaemon_failure True (rbind (y j) (\<lambda>v. Inr (f j v))))"
    and "\<And>e. jgetitem (params d) ''storlet_name'' = Inl e \<Longrightarrow> S = R"
    and "\<And>r. \<not> status r \<Longrightarrow> claims d r []"
    and "\<And>j. jgetitem (params d) ''storlet_name'' = Inr j \<Longrightarrow> no_response (y j) \<and> (case y j of Inl _ \<Rightarrow> S = R
      | Inr v \<Rightarrow> \<exists>es. runs registry_step R es S \<and> claims d (f j v) es)"
  shows "handled_ok d R x S"
proof (cases "jgetitem (params d) ''storlet_name''")
  case (Inl e)
  then have "x = Inl e" "S = R" using assms(1,2) by simp_all
  moreover have "no_response (Inl e :: json res)" using Inl by (cases "params d") (auto split: option.splits)
  ultimately show ?thesis using assms(3) by (auto simp: handled_ok_def runs_Nil intro!: exI [of _ "[]"])
next
  case (Inr j)
  note t = assms(4) [OF Inr]
  show ?thesis
  proof (cases "y j")
    case (Inl e)
    have "runs registry_step R [] S" using t Inl by (simp add: runs_Nil)
    then show ?thesis using failed_claims [of e R "[]" S d True] t Inl assms(1,3) Inr by simp
  next
    case y: (Inr v)
    then obtain es where "runs registry_step R es S" "claims d (f j v) es" using t by auto
    then show ?thesis using assms(1) Inr y by (auto simp: handled_ok_def sdaemon_failure_def)
  qed
qed

lemma stop_claims:
  assumes "command d = JStr ''SBUS_CMD_STOP_DAEMON''" "stop_daemon ops d s = (x, s')"
  shows "handled_ok d (names s) x (names s')"
proof (rule named_claims [where y = "\<lambda>j. fst (process_kill ops j s)" and
      f = "\<lambda>j _. CommandSuccess (''The storlet daemon '' @ str_of_json j @ '' is stopped'') True None"])
  fix j assume j: "jgetitem (params d) ''storlet_name'' = Inr j"
  then obtain y where y: "process_kill ops j s = (y, s')" using assms(2) by (auto simp: stop_daemon_def split: prod.splits)
  show "no_response (fst (process_kill ops j s)) \<and> (case fst (process_kill ops j s) of Inl _ \<Rightarrow> names s' = names s
      | Inr v \<Rightarrow> \<exists>es. runs registry_step (names s) es (names s') \<and>
          claims d (CommandSuccess (''The storlet daemon '' @ str_of_json j @ '' is stopped'') True None) es)"
  proof (cases y)
    case (Inr v)
    then obtain n where n: "j = JStr n" "n \<in> names s" "names s' = names s - {n}" using kill_table [OF y] by auto
    then have "runs registry_step (names s) [Removed n] (names s')" by (simp add: runs_single removed)
    moreover have "about d n" using j n(1) by (simp add: about_def)
    ultimately show ?thesis using y Inr assms(1) by (auto simp: claims_def resp_defs)
  qed (use y kill_table [OF y] in auto)
qed (use assms in \<open>auto simp: stop_daemon_def claims_def split: sum.splits prod.splits\<close>)

lemma status_claims:
  assumes "command d = JStr ''SBUS_CMD_DAEMON_STATUS''" "daemon_status ops d s = (x, s')"
  shows "handled_ok d (names s) x (names s')"
proof (rule named_claims [where y = "\<lambda>j. fst (get_process_status_by_name ops j s)" and
      f = "\<lambda>j b. if b then CommandSuccess (''The storlet daemon '' @ str_of_json j @ '' seems to be OK'') True None
        else CommandFailure (''No running storlet daemons for '' @ str_of_json j) True None"])
  fix j assume j: "jgetitem (params d) ''storlet_name'' = Inr j"
  then obtain y where y: "get_process_status_by_name ops j s = (y, s')" using assms(2) by (auto simp: daemon_status_def split: prod.splits)
  note t = status_by_name_table [OF y]
  let ?r = "\<lambda>b. if b then CommandSuccess (''The storlet daemon '' @ str_of_json j @ '' seems to be OK'') True None
        else CommandFailure (''No running storlet daemons for '' @ str_of_json j) True None"
  have "\<exists>es. runs registry_step (names s) es (names s') \<and> claims d (?r b) es" if yb: "y = Inr b" for b
  proof (cases b)
    case True
    then obtain n where n: "j = JStr n" "n \<in> names s" using t yb by auto
    then have "runs registry_step (names s) [Found n] (names s')" using t by (auto intro: runs_single found)
    moreover have "about d n" using j n(1) by (simp add: about_def)
    ultimately show ?thesis using True assms(1) by (auto simp: claims_def resp_defs)
  next
    case False
    then show ?thesis using t assms(1) by (intro exI [of _ "[]"]) (simp add: claims_def resp_defs runs_Nil)
  qed
  then show "no_response (fst (get_process_status_by_name ops j s)) \<and> (case fst (get_process_status_by_name ops j s) of
      Inl _ \<Rightarrow> names s' = names s | Inr v \<Rightarrow> \<exists>es. runs registry_step (names s) es (names s') \<and> claims d (?r v) es)"
    using t y by (cases y) auto
qed (use assms in \<open>auto simp: daemon_status_def claims_def split: sum.splits prod.splits\<close>)

lemma stop_all_claims:
  assumes "command d = JStr ''SBUS_CMD_STOP_DAEMONS''" "dict_ok (storlet_name_to_pid s)" "stop_daemons ops d s = (x, s')"
  shows "handled_ok d (names s) x (names s')"
proof -
  obtain y where y: "process_kill_all ops True s = (y, s')" "x = sdaemon_failure False (rbind y (\<lambda>_. Inr (CommandSuccess ''OK'' False None)))"
    using assms(3) by (auto simp: stop_daemons_def split: prod.splits)
  show ?thesis unfolding y(2) by (rule removed_claims) (use assms(1) kill_all_table [OF assms(2) y(1)] in \<open>cases y; auto\<close>)+
qed

lemma halt_claims:
  assumes "command d = JStr ''SBUS_CMD_HALT''" "dict_ok (storlet_name_to_pid s)" "factory_halt ops d s = (x, s')"
  shows "handled_ok d (names s) x (names s')"
proof -
  obtain y where y: "shutdown_all_processes ops True s = (y, s')"
    "x = sdaemon_failure False (rbind y (\<lambda>_. Inr (CommandSuccess ''Stopped all storlet daemons. Terminating.'' False None)))"
    using assms(3) by (auto simp: factory_halt_def split: prod.splits)
  show ?thesis unfolding y(2) by (rule removed_claims) (use assms(1) shutdown_all_table [OF assms(2) y(1)] in \<open>cases y; auto\<close>)+
qed

lemma factory_command_names:
  assumes "c \<in> set sbus_cmd_attrs" "map_of (factory_handlers ops) (lower (drop (length SBUS_CMD_PREFIX) c)) = Some h"
  shows "c = ''SBUS_CMD_PING'' \<and> h = ping \<or> c = ''SBUS_CMD_START_DAEMON'' \<and> h = start_daemon ops \<or>
    c = ''SBUS_CMD_STOP_DAEMON'' \<and> h = stop_daemon ops \<or> c = ''SBUS_CMD_DAEMON_STATUS'' \<and> h = daemon_status ops \<or>
    c = ''SBUS_CMD_STOP_DAEMONS'' \<and> h = stop_daemons ops \<or> c = ''SBUS_CMD_HALT'' \<and> h = factory_halt ops"
proof -
  define k where "k = lower (drop (length SBUS_CMD_PREFIX) c)"
  have k: "k = ''ping'' \<and> h = ping \<or> k = ''start_daemon'' \<and> h = start_daemon ops \<or> k = ''stop_daemon'' \<and> h = stop_daemon ops \<or>
      k = ''daemon_status'' \<and> h = daemon_status ops \<or> k = ''stop_daemons'' \<and> h = stop_daemons ops \<or> k = ''halt'' \<and> h = factory_halt ops"
    using assms(2) unfolding k_def [symmetric] factory_handlers_def by (auto split: if_splits)
  note c = command_of_method [OF assms(1), folded k_def]
  from k show ?thesis by (elim disjE conjE) (use c in \<open>simp_all add: method_command_def\<close>)
qed

lemma handler_claims:
  assumes "c \<in> set sbus_cmd_attrs" "map_of (factory_handlers ops) (lower (drop (length SBUS_CMD_PREFIX) c)) = Some h"
    "command d = JStr c" "dict_ok (storlet_name_to_pid s)" "h d s = (x, s')"
  shows "handled_ok d (names s) x (names s')"
  using factory_command_names [OF assms(1,2)]
proof (elim disjE conjE)
  assume "c = ''SBUS_CMD_PING''" "h = ping"
  then show ?thesis using assms(3,5) by (auto simp: ping_def handled_ok_def claims_def runs_Nil intro!: exI [of _ "[]"])
qed (use assms(3-5) in \<open>auto intro: start_claims stop_claims status_claims stop_all_claims halt_claims\<close>)

lemma unknown_claims:
  assumes "get_handler (factory_handlers ops) (command d) = Inl e" "\<not> status r"
  shows "\<exists>es. runs registry_step R es R \<and> claims d r es"
  using assms(2) by (cases "command d \<in> {JStr ''SBUS_CMD_STOP_DAEMONS'', JStr ''SBUS_CMD_HALT''}")
    (auto simp: claims_def runs_Nil intro!: exI [of _ "[]"])

lemma answer_claims:
  assumes "dict_ok (storlet_name_to_pid s)" "handle_command (factory_handlers ops) d s = (Inr r, s')"
  shows "\<exists>es. runs registry_step (names s) es (names s') \<and> claims d r es"
  using handled_cases [OF assms(2)]
proof (elim disjE exE conjE)
  fix e assume "s' = s" "\<not> status r" "get_handler (factory_handlers ops) (command d) = Inl e"
  then show ?thesis using unknown_claims by blast
next
  fix h x
  assume h: "get_handler (factory_handlers ops) (command d) = Inr h" "h d s = (x, s')"
    and x: "case x of Inr y \<Rightarrow> r = y | Inl e \<Rightarrow> (\<exists>st m it tid. e = CommandResponseExc st m it tid) \<or> \<not> status r \<and> resp_task_id r = None"
  obtain c where "command d = JStr c" "c \<in> set sbus_cmd_attrs" "map_of (factory_handlers ops) (lower (drop (length SBUS_CMD_PREFIX) c)) = Some h"
    using h(1) by (auto simp: get_handler_cases)
  then have "handled_ok d (names s) x (names s')" using handler_claims assms(1) h(2) by blast
  moreover from this x have "case x of Inr y \<Rightarrow> r = y | Inl _ \<Rightarrow> \<not> status r" by (cases x) (auto simp: handled_ok_def)
  ultimately show ?thesis by (auto simp: handled_ok_def)
qed

text \<open>The world may change between commands as long as it stays what the factory relies on.\<close>

locale factory_env = factory_os +
  fixes changes :: "'a \<Rightarrow> 'a \<Rightarrow> bool"
  assumes changes_ok: "ok w \<Longrightarrow> changes w w' \<Longrightarrow> ok w'"

sublocale factory_env \<subseteq> registry: forward_simulation "factory_step ops changes" "factory_inv ok" names registry_step registry_explains
proof
  fix s e t assume inv: "factory_inv ok s" and "factory_step ops changes s e t"
  from this(2) show "factory_inv ok t \<and> (\<exists>es. runs registry_step (names s) es (names t) \<and> registry_explains e es)"
  proof (cases rule: factory_step.cases)
    case (replied d r)
    have "dict_ok (storlet_name_to_pid s)" using inv by (simp add: factory_inv_def)
    moreover have "factory_inv ok t" using f.handle_command_total [OF inv, of d] replied(2) by auto
    ultimately show ?thesis using answer_claims [OF _ replied(2)] replied(1) by auto
  next
    case (world_changed w)
    then show ?thesis using inv changes_ok factory_inv_world by (auto simp: factory_inv_def runs_Nil)
  qed
qed

context factory_env
begin

lemmas registry_simulation = registry.forward_simulation_axioms

end

section \<open>The container\<close>

definition container_exit :: "world \<times> 'v \<Rightarrow> world \<times> 'v \<Rightarrow> bool" where
  "container_exit w w' \<longleftrightarrow> table_exit (fst w) (fst w') \<and> snd w' = snd w"

interpretation container_env: factory_env "container_ops hs" "\<lambda>w. world_children (fst w)" "\<lambda>w. set (sv_open (snd w))"
  "\<lambda>fd w. sv_reply (snd w)" "\<lambda>w. world_ok (fst w) \<and> sv_ok (snd w)" container_exit for hs
  by unfold_locales (auto simp: container_exit_def dest: table_env.exit_waitable)

text \<open>C5: The factory keeps a registry. Along every sequence of commands, whatever they are, and of changes of its world (ends of
  daemons), each reply is explained by what happened to the table: a successful start registered that storlet or found it, a
  successful stop removed it, a successful status found it, a successful stop of all daemons left none; failures change nothing, but
  that a failed start may have registered its own storlet and a failed stop of all may have removed some. No command touches the
  entry of a storlet it does not name.\<close>

theorem factory_refines_registry:
  assumes "factory_env ops children open_fds rest ok changes" "factory_inv ok s" "runs (factory_step ops changes) s evs s'"
  shows "factory_inv ok s' \<and> (\<exists>ess. list_all2 registry_explains evs ess \<and> runs registry_step (names s) (concat ess) (names s'))"
  by (rule forward_simulation.run_explained [OF factory_env.registry_simulation [OF assms(1)] assms(3,2)])

definition stop_datagram :: datagram where
  "stop_datagram = ping_datagram\<lparr>command := JStr ''SBUS_CMD_STOP_DAEMON'', params := JObj [(''storlet_name'', JStr ''s'')]\<rparr>"

abbreviation stop_events :: "factory_event list" where
  "stop_events \<equiv> [WorldChanged, Replied stop_datagram (CommandSuccess ''The storlet daemon s is stopped'' True None)]"

lemma stop_command: "lower (drop (length SBUS_CMD_PREFIX) ''SBUS_CMD_STOP_DAEMON'') = ''stop_daemon''"
  by (simp add: SBUS_CMD_PREFIX_def lower_def lower_char_def char_of_def bit_0)

lemma sample_stop: "\<exists>s'. runs (factory_step (container_ops [(''ping'', ping)]) container_exit) sample_factory stop_events s'"
proof -
  let ?ops = "container_ops [(''ping'', ping)] :: (world \<times> nat served) factory_ops"
  let ?w = "(sample_world\<lparr>w_running := [], w_zombies := [(7, 0)]\<rparr>, sample_served)"
  have w: "container_exit (f_world sample_factory) ?w"
    by (simp add: container_exit_def table_exit_def sample_factory_def sample_world_def)
  have "get_handler (factory_handlers ?ops) (command stop_datagram) = Inr (stop_daemon ?ops)"
    unfolding get_handler_cases using stop_command
    by (simp add: stop_datagram_def sbus_cmd_attrs_def sbus_cmd_names_def factory_handlers_def)
  moreover have "\<exists>s'. stop_daemon ?ops stop_datagram (sample_factory\<lparr>f_world := ?w\<rparr>) =
      (Inr (CommandSuccess ''The storlet daemon s is stopped'' True None), s')"
    by (simp add: stop_daemon_def stop_datagram_def dict_get_def process_kill_def sample_factory_def container_ops_def fst_os_def on_fst_def
        table_ops_def table_kill_def table_nohang_def sdaemon_failure_def sample_world_def)
  ultimately obtain s' where "handle_command (factory_handlers ?ops) stop_datagram (sample_factory\<lparr>f_world := ?w\<rparr>)
      = (Inr (CommandSuccess ''The storlet daemon s is stopped'' True None), s')" by (auto simp: handle_command_def)
  then have "factory_step ?ops container_exit (sample_factory\<lparr>f_world := ?w\<rparr>)
      (Replied stop_datagram (CommandSuccess ''The storlet daemon s is stopped'' True None)) s'" by (rule replied)
  moreover have "factory_step ?ops container_exit sample_factory WorldChanged (sample_factory\<lparr>f_world := ?w\<rparr>)"
    using w by (rule world_changed)
  ultimately show ?thesis by (blast intro: runs.intros)
qed

theorem factory_refines_registry_witness:
  "\<exists>s' ess. runs (factory_step (container_ops [(''ping'', ping)]) container_exit) sample_factory stop_events s' \<and>
     list_all2 registry_explains stop_events ess \<and> runs registry_step {''s''} (concat ess) (names s')"
proof -
  obtain s' where "runs (factory_step (container_ops [(''ping'', ping)]) container_exit) sample_factory stop_events s'"
    using sample_stop by blast
  from this factory_refines_registry [OF container_env.factory_env_axioms sample_factory_inv this] show ?thesis
    by (auto simp: sample_factory_def names_def)
qed

end
