(* ===== verification/Entry.thy ===== *)
theory Entry
  imports Transport Factory
begin

text \<open>
  The processes inside a container from their command line to their exit status: \<open>get_logger\<close> of
  \<open>storlets/agent/common/utils.py\<close>, the calls of \<open>SBus\<close> that set the transport up, and the \<open>main\<close> functions of the storlet
  daemon and of the daemon factory.

  Of \<open>argparse\<close> the positional arguments are modelled, which is all the two programs declare; how a command line with strings
  that begin with a dash is read (the help option, negative numbers) is the parameter \<open>options\<close>, which gives the positional
  arguments or ends the process. The C library behind \<open>SBus\<close> is a parameter.
\<close>

section \<open>Logging\<close>

text \<open>\<open>str.upper\<close> on the code points below 256; the two letters whose capital is beyond them stay.\<close>

definition capital :: "char \<Rightarrow> string" where
  "capital c = (let n = of_char c :: nat in
     if n = 223 then ''SS''
     else if (97 \<le> n \<and> n \<le> 122) \<or> (224 \<le> n \<and> n \<le> 254 \<and> n \<noteq> 247) then [char_of (n - 32)] else [c])"

definition upper :: "string \<Rightarrow> string" where
  "upper s = concat (map capital s)"

text \<open>The attributes of the module \<open>logging\<close> with no small letter in their name: the levels, a text and a dictionary.\<close>

datatype log_attr = LevelAttr int | TextAttr | DictAttr

definition logging_attrs :: "(string \<times> log_attr) list" where
  "logging_attrs = [(''CRITICAL'', LevelAttr 50), (''FATAL'', LevelAttr 50), (''ERROR'', LevelAttr 40), (''WARNING'', LevelAttr 30),
     (''WARN'', LevelAttr 30), (''INFO'', LevelAttr 20), (''DEBUG'', LevelAttr 10), (''NOTSET'', LevelAttr 0),
     (''BASIC_FORMAT'', TextAttr), (''_STYLES'', DictAttr)]"

fun check_level :: "log_attr \<Rightarrow> int res" where
  "check_level (LevelAttr n) = Inr n"
| "check_level TextAttr = Inl (ValueError ''Unknown level'')"
| "check_level DictAttr = Inl (TypeError ''Level not an integer or a valid string'')"

text \<open>A logger: its level (0: not set) and the levels of its handlers, which all write to \<open>/dev/log\<close>. The state of the module:
  the level disabled by \<open>logging.disable\<close> and the loggers by name.\<close>

record py_logger =
  lg_level :: int
  lg_handlers :: "int list"

record logging =
  lg_disable :: int
  lg_loggers :: "py_logger dict"

definition getLogger :: "string \<Rightarrow> logging \<Rightarrow> py_logger" where
  "getLogger name L = (case dict_get (lg_loggers L) name of None \<Rightarrow> \<lparr>lg_level = 0, lg_handlers = []\<rparr> | Some l \<Rightarrow> l)"

definition get_logger :: "string \<Rightarrow> string \<Rightarrow> string \<Rightarrow> logging \<Rightarrow> (string \<times> logging) res" where
  "get_logger logger_name log_level cid L =
     (let log_level = upper log_level;
          level = (case map_of logging_attrs log_level of Some a \<Rightarrow> a | None \<Rightarrow> LevelAttr 40);
          name = ''CONT #'' @ cid @ '': '' @ logger_name;
          logger = getLogger name L in
      rbind (if log_level = ''OFF'' then Inr (L\<lparr>lg_disable := 50\<rparr>, logger)
             else rbind (check_level level) (\<lambda>n. Inr (L, logger\<lparr>lg_level := n\<rparr>))) (\<lambda>(L, logger).
      rbind (check_level level) (\<lambda>n.
        Inr (name, L\<lparr>lg_loggers := dict_set name (logger\<lparr>lg_handlers := lg_handlers logger @ [n]\<rparr>) (lg_loggers L)\<rparr>))))"

text \<open>What the module does with a message: it is dropped at or below the disabled level and below the level of the logger, or of
  the root logger (\<open>WARNING\<close>) when that is not set; each handler then compares its own level.\<close>

definition effective_level :: "py_logger \<Rightarrow> int" where
  "effective_level lg = (if lg_level lg \<noteq> 0 then lg_level lg else 30)"

definition syslog_lines :: "logging \<Rightarrow> string \<Rightarrow> int \<Rightarrow> nat" where
  "syslog_lines L name severity = (let lg = getLogger name L in
     if lg_disable L < severity \<and> effective_level lg \<le> severity then length (filter (\<lambda>h. h \<le> severity) (lg_handlers lg)) else 0)"

definition fresh_logging :: logging where
  "fresh_logging = \<lparr>lg_disable = 0, lg_loggers = []\<rparr>"

section \<open>Command lines\<close>

definition parse_args :: "(string list \<Rightarrow> string list res) \<Rightarrow> nat \<Rightarrow> string list \<Rightarrow> string list res" where
  "parse_args options n argv =
     rbind (if list_ex (\<lambda>a. startswith a ''-'') argv then options argv else Inr argv) (\<lambda>ps.
       if length ps = n then Inr ps else Inl (SystemExit 2))"

record daemon_opts =
  do_storlet_name :: string
  do_sbus_path :: string
  do_log_level :: string
  do_pool_size :: int
  do_container_id :: string

definition daemon_parse_args :: "(string list \<Rightarrow> string list res) \<Rightarrow> string list \<Rightarrow> daemon_opts res" where
  "daemon_parse_args options argv = rbind (parse_args options 5 argv) (\<lambda>ps.
     case py_int (ps ! 3) of
       Inl _ \<Rightarrow> Inl (SystemExit 2)
     | Inr pool \<Rightarrow> Inr \<lparr>do_storlet_name = ps ! 0, do_sbus_path = ps ! 1, do_log_level = ps ! 2, do_pool_size = pool,
         do_container_id = ps ! 4\<rparr>)"

record factory_opts =
  fa_sbus_path :: string
  fa_log_level :: string
  fa_container_id :: string

definition factory_parse_args :: "(string list \<Rightarrow> string list res) \<Rightarrow> string list \<Rightarrow> factory_opts res" where
  "factory_parse_args options argv = rbind (parse_args options 3 argv) (\<lambda>ps.
     Inr \<lparr>fa_sbus_path = ps ! 0, fa_log_level = ps ! 1, fa_container_id = ps ! 2\<rparr>)"

section \<open>The transport\<close>

text \<open>The C library: loading it fails with \<open>OSError\<close> where it is not installed.\<close>

record sbus_lib =
  lib_load :: "unit res"
  lib_start_logger :: "string \<Rightarrow> string \<Rightarrow> unit"
  lib_stop_logger :: unit
  lib_create :: "string \<Rightarrow> int"

definition SBus_start_logger :: "sbus_lib \<Rightarrow> string \<Rightarrow> string \<Rightarrow> unit res" where
  "SBus_start_logger lib level cid = rbind (lib_load lib) (\<lambda>_. Inr (lib_start_logger lib (utf8_encode level) (utf8_encode cid)))"

definition SBus_stop_logger :: "sbus_lib \<Rightarrow> unit res" where
  "SBus_stop_logger lib = rbind (lib_load lib) (\<lambda>_. Inr (lib_stop_logger lib))"

definition SBus_create :: "sbus_lib \<Rightarrow> string \<Rightarrow> int res" where
  "SBus_create lib name = rbind (lib_load lib) (\<lambda>_. Inr (lib_create lib (utf8_encode name)))"

section \<open>The main functions\<close>

text \<open>\<open>main\<close> always ends with an exception, \<open>SystemExit\<close> or one that nobody catches; \<open>None\<close>: the loop is still running. Beside it
  is the state of the server when it was left.\<close>

definition or_exit_failure :: "py_exc \<Rightarrow> py_exc" where
  "or_exit_failure e = (if is_Exception e then SystemExit EXIT_FAILURE else e)"

definition run_server :: "(int \<Rightarrow> 's \<Rightarrow> (int res \<times> 's) option) \<Rightarrow> sbus_lib \<Rightarrow> string \<Rightarrow> 's \<Rightarrow> (py_exc \<times> 's option) option" where
  "run_server server_loop lib path s =
     (case SBus_create lib path of
        Inl e \<Rightarrow> Some (or_exit_failure e, Some s)
      | Inr fd \<Rightarrow>
          (case server_loop fd s of
             None \<Rightarrow> None
           | Some (Inl e, s') \<Rightarrow> Some (or_exit_failure e, Some s')
           | Some (Inr st, s') \<Rightarrow> Some (or_exit_failure (SystemExit st), Some s')))"

definition daemon_main :: "(string list \<Rightarrow> string list res) \<Rightarrow> sbus_lib \<Rightarrow> (string \<Rightarrow> string \<Rightarrow> storlet res) \<Rightarrow> 'w os_ops \<Rightarrow>
    (int \<Rightarrow> rfile) \<Rightarrow> loop_env list \<Rightarrow> string list \<Rightarrow> 'w \<Rightarrow> (py_exc \<times> 'w dstate option) option" where
  "daemon_main options lib load ops content es argv w =
     (case daemon_parse_args options argv of
        Inl e \<Rightarrow> Some (e, None)
      | Inr opts \<Rightarrow>
          (case get_logger ''storlets-daemon'' (do_log_level opts) (do_container_id opts) fresh_logging of
             Inl e \<Rightarrow> Some (e, None)
           | Inr _ \<Rightarrow>
               (case SBus_start_logger lib (upper (do_log_level opts)) (do_container_id opts) of
                  Inl e \<Rightarrow> Some (or_exit_failure e, None)
                | Inr _ \<Rightarrow>
                    (case StorletDaemon_init load (do_storlet_name opts) (do_pool_size opts) w of
                       Inl e \<Rightarrow> Some (or_exit_failure e, None)
                     | Inr d \<Rightarrow> run_server (\<lambda>fd. daemon_main_loop ops content fd es) lib (do_sbus_path opts) d))))"

definition factory_main :: "(string list \<Rightarrow> string list res) \<Rightarrow> sbus_lib \<Rightarrow> 'w factory_ops \<Rightarrow> loop_env list \<Rightarrow> string list \<Rightarrow> 'w \<Rightarrow>
    (py_exc \<times> 'w fstate option) option" where
  "factory_main options lib ops es argv w =
     (case factory_parse_args options argv of
        Inl e \<Rightarrow> Some (e, None)
      | Inr opts \<Rightarrow>
          (case get_logger ''daemon-factory'' (fa_log_level opts) (fa_container_id opts) fresh_logging of
             Inl e \<Rightarrow> Some (e, None)
           | Inr _ \<Rightarrow>
               (case SBus_start_logger lib (upper (fa_log_level opts)) (fa_container_id opts) of
                  Inl e \<Rightarrow> Some (or_exit_failure e, None)
                | Inr _ \<Rightarrow> run_server (\<lambda>fd. factory_main_loop ops fd es) lib (fa_sbus_path opts)
                    (StorletDaemonFactory_init (fa_container_id opts) w))))"

text \<open>The exit status the parent process sees: an exception that nobody catches gives 1; \<open>None\<close>: the process does not end.\<close>

definition exit_code :: "py_exc \<Rightarrow> int option" where
  "exit_code e = (case e of SystemExit n \<Rightarrow> Some n | Diverges \<Rightarrow> None | _ \<Rightarrow> Some 1)"

section \<open>Levels\<close>

text \<open>What a log level promises: the messages that are at least as severe, all of them or none.\<close>

datatype verbosity = Debug | Info | Warning | Error | Critical | Off

fun severity :: "verbosity \<Rightarrow> int" where
  "severity Debug = 10"
| "severity Info = 20"
| "severity Warning = 30"
| "severity Error = 40"
| "severity Critical = 50"
| "severity Off = 60"

instantiation verbosity :: linorder
begin

definition less_eq_verbosity :: "verbosity \<Rightarrow> verbosity \<Rightarrow> bool" where
  "a \<le> b \<longleftrightarrow> severity a \<le> severity b"

definition less_verbosity :: "verbosity \<Rightarrow> verbosity \<Rightarrow> bool" where
  "a < b \<longleftrightarrow> severity a < severity b"

instance
proof
  fix a b :: verbosity
  show "a \<le> b \<Longrightarrow> b \<le> a \<Longrightarrow> a = b" by (cases a; cases b) (simp_all add: less_eq_verbosity_def)
qed (auto simp: less_eq_verbosity_def less_verbosity_def)

end

definition threshold :: "string \<Rightarrow> verbosity" where
  "threshold level = (let lv = upper level in
     if lv = ''DEBUG'' then Debug else if lv = ''INFO'' then Info
     else if lv \<in> {''WARNING'', ''WARN'', ''NOTSET''} then Warning
     else if lv \<in> {''CRITICAL'', ''FATAL''} then Critical
     else if lv = ''OFF'' then Off else Error)"

section \<open>Leaving the main loop\<close>

definition exc_only :: "'a res \<Rightarrow> bool" where
  "exc_only x \<longleftrightarrow> (\<forall>e. x = Inl e \<longrightarrow> is_Exception e)"

lemma exc_only_simps [simp]: "exc_only (Inr x)" "exc_only (Inl e) \<longleftrightarrow> is_Exception e"
  by (auto simp: exc_only_def)

lemma exc_only_rbind: "exc_only x \<Longrightarrow> (\<And>y. x = Inr y \<Longrightarrow> exc_only (f y)) \<Longrightarrow> exc_only (rbind x f)"
  by (cases x) auto

context sbus_server
begin

lemma dispatch_exc:
  assumes "inv s" "dispatch_command hs alive dtg s = (Inl e, s')"
  shows "is_Exception e"
proof -
  obtain r t where "handle_command hs dtg s = (Inr r, t)" using handle_command_total [OF assms(1)] by blast
  then show ?thesis using assms(2)
    by (auto simp: dispatch_command_def respond_def Let_def is_Exception_def split: option.splits if_splits)
qed

lemma loop_left:
  assumes "inv s" "\<forall>e \<in> set es. exc_only (ev_receive e)" "loop hs running cnt es s = Some (x, s')"
  shows "inv s' \<and> (case x of Inl e \<Rightarrow> is_Exception e | Inr st \<Rightarrow> st \<in> {EXIT_SUCCESS, EXIT_FAILURE})"
  using assms
proof (induction es arbitrary: running cnt s)
  case (Cons e es)
  then show ?case
    by (auto split: if_splits sum.splits option.splits prod.splits dest: dispatch_inv dispatch_exc simp: exc_only_def)
qed (auto split: if_splits)

lemma main_loop_left:
  assumes "inv s" "\<forall>e \<in> set es. exc_only (ev_receive e)" "main_loop hs terminate fd es s = Some (x, s')"
    and "\<And>t r t'. inv t \<Longrightarrow> terminate t = (r, t') \<Longrightarrow> exc_only r \<and> (r = Inr () \<longrightarrow> ended t')"
  shows "case x of Inl e \<Rightarrow> is_Exception e | Inr st \<Rightarrow> st = EXIT_SUCCESS \<and> ended s' \<or> st = EXIT_FAILURE"
proof (cases "fd < 0")
  case True
  then show ?thesis using assms(3) by (auto simp: main_loop_def)
next
  case False
  then obtain y t where l: "loop hs True 0 es s = Some (y, t)" using assms(3) by (auto simp: main_loop_def split: option.splits)
  note left = loop_left [OF assms(1,2) l]
  obtain r t' where r: "terminate t = (r, t')" by fastforce
  show ?thesis using assms(3) False l left r assms(4) [OF _ r] by (cases y; cases r) (auto simp: main_loop_def)
qed

lemma run_server_exit:
  assumes "inv s" "\<forall>e \<in> set es. exc_only (ev_receive e)" "exc_only (lib_load lib)"
    and "run_server (\<lambda>fd. main_loop hs terminate fd es) lib path s = Some (x, d)"
    and "\<And>t r t'. inv t \<Longrightarrow> terminate t = (r, t') \<Longrightarrow> exc_only r \<and> (r = Inr () \<longrightarrow> ended t')"
  shows "exit_code x = Some 0 \<and> (\<exists>s'. d = Some s' \<and> ended s') \<or> exit_code x = Some 1"
proof (cases "SBus_create lib path")
  case (Inl e)
  then have "lib_load lib = Inl e" by (cases "lib_load lib") (auto simp: SBus_create_def)
  then show ?thesis using assms(3,4) Inl by (auto simp: run_server_def or_exit_failure_def exit_code_def EXIT_FAILURE_def)
next
  case (Inr fd)
  then obtain y s' where y: "main_loop hs terminate fd es s = Some (y, s')" "d = Some s'"
    "x = or_exit_failure (case y of Inl e \<Rightarrow> e | Inr st \<Rightarrow> SystemExit st)"
    using assms(4) by (auto simp: run_server_def split: option.splits sum.splits)
  from main_loop_left [where ended = ended, OF assms(1,2) y(1) assms(5)] y show ?thesis
    by (cases y) (auto simp: or_exit_failure_def exit_code_def is_Exception_def EXIT_FAILURE_def EXIT_SUCCESS_def)
qed

end

text \<open>What \<open>SBus.receive\<close> raises is always an \<open>Exception\<close>.\<close>

definition via_receive :: "loop_env \<Rightarrow> bool" where
  "via_receive e \<longleftrightarrow> (\<exists>n r. ev_receive e = SBus_receive n r)"

lemma mapM_exc_only: "(\<And>x. exc_only (f x)) \<Longrightarrow> exc_only (mapM f xs)"
  by (auto simp: exc_only_def dest!: mapM_Inl)

lemma utf8_decode_exc: "exc_only (utf8_decode s)"
  by (auto simp: exc_only_def is_Exception_def dest: utf8_decode_error)

lemma json_exc: "exc_only (loads s)" "exc_only (jget v k)" "exc_only (jgetitem v k)" "exc_only (jlen v)" "exc_only (pop_type v)"
  by (cases v; auto simp: loads_def is_Exception_def split: option.splits)+

lemma build_datagram_exc: "exc_only (build_datagram cmd ss ps tid)"
  by (auto simp: build_datagram_def execute_datagram_def service_datagram_def datagram_init_def check_required_fdtypes_def Let_def
      is_Exception_def intro!: exc_only_rbind)

lemma from_raw_exc: "exc_only (build_datagram_from_raw_message fs md ps)"
  unfolding build_datagram_from_raw_message_def from_fileno_and_metadata_dict_def
  by (intro exc_only_rbind json_exc) (auto simp: is_Exception_def intro!: exc_only_rbind mapM_exc_only json_exc build_datagram_exc)

lemma SBus_receive_exc: "exc_only (SBus_receive n r)"
  by (auto simp: SBus_receive_def c_value_def Let_def is_Exception_def split: option.splits
      intro!: exc_only_rbind utf8_decode_exc from_raw_exc)

lemma received_exc: "\<forall>e \<in> set es. via_receive e \<Longrightarrow> \<forall>e \<in> set es. exc_only (ev_receive e)"
  using SBus_receive_exc by (metis via_receive_def)

text \<open>What the two servers have done when \<open>_terminate\<close> returns.\<close>

lemma daemon_terminated:
  assumes "process_os ops children ok" "daemon_inv children ok t" "daemon_terminate ops t = (r, t')"
  shows "exc_only r \<and> (r = Inr () \<longrightarrow> task_id_to_pid t' = [])"
  using process_os.wait_all_spec [OF assms(1,2)] assms(3) by (auto simp: daemon_terminate_def)

lemma factory_terminated:
  assumes "factory_os ops children open_fds rest ok" "factory_inv ok t" "factory_terminate ops t = (r, t')"
  shows "exc_only r \<and> (r = Inr () \<longrightarrow> storlet_name_to_pid t' = [])"
proof -
  obtain x where x: "shutdown_all_processes ops True t = (x, t')" "r = rbind x (\<lambda>_. Inr ())"
    using assms(3) by (auto simp: factory_terminate_def split: prod.splits)
  have "keeps (factory_inv ok) (shutdown_all_processes ops True t)" by (rule factory_os.shutdown_all_keeps [OF assms(1,2)])
  moreover have "dict_ok (storlet_name_to_pid t)" using assms(2) by (simp add: factory_inv_def)
  ultimately show ?thesis using shutdown_all_spec [OF _ x(1)] x by (cases x) (auto simp: keeps_def)
qed

lemma get_logger_exit: "get_logger n lv cid L = Inl e \<Longrightarrow> exit_code e = Some 1"
  by (auto simp: get_logger_def Let_def exit_code_def logging_attrs_def split: if_splits)

lemma start_logger_exit:
  assumes "SBus_start_logger lib level cid = Inl e" "exc_only (lib_load lib)"
  shows "exit_code (or_exit_failure e) = Some 1"
  using assms by (cases "lib_load lib") (auto simp: SBus_start_logger_def or_exit_failure_def exit_code_def EXIT_FAILURE_def)

lemma parse_args_positional:
  "list_all (\<lambda>a. \<not> startswith a ''-'') argv \<Longrightarrow> parse_args options n argv = (if length argv = n then Inr argv else Inl (SystemExit 2))"
  by (auto simp: parse_args_def list_ex_iff list_all_iff)

lemma StorletDaemon_init_cases:
  assumes "\<forall>m c. exc_only (load m c)"
  shows "case StorletDaemon_init load name pool w of Inl e \<Rightarrow> is_Exception e
    | Inr d \<Rightarrow> d_pool_size d = pool \<and> task_id_to_pid d = [] \<and> d_world d = w"
proof -
  have "load m c = Inl e \<Longrightarrow> is_Exception e" for m c e using assms by (simp add: exc_only_def)
  from this [of _ _ EventletTimeout] this [of _ _ "SystemExit n" for n] this [of _ _ Diverges] show ?thesis
    by (auto simp: StorletDaemon_init_def is_Exception_def split: list.splits sum.splits py_exc.splits)
qed

definition level_number :: "string \<Rightarrow> int" where
  "level_number lv = (case map_of logging_attrs lv of Some (LevelAttr n) \<Rightarrow> n | _ \<Rightarrow> 40)"

lemma get_logger_fresh:
  assumes "upper level \<notin> {''BASIC_FORMAT'', ''_STYLES''}" "nm = ''CONT #'' @ cid @ '': '' @ name"
  shows "get_logger name level cid fresh_logging = Inr (nm, \<lparr>lg_disable = (if upper level = ''OFF'' then 50 else 0),
    lg_loggers = [(nm, \<lparr>lg_level = (if upper level = ''OFF'' then 0 else level_number (upper level)),
      lg_handlers = [level_number (upper level)]\<rparr>)]\<rparr>)"
proof -
  define lv where "lv = upper level"
  have "(case map_of logging_attrs lv of Some a \<Rightarrow> a | None \<Rightarrow> LevelAttr 40) = LevelAttr (level_number lv)"
    using assms(1) unfolding lv_def [symmetric] by (auto simp: logging_attrs_def level_number_def)
  then show ?thesis unfolding get_logger_def Let_def lv_def [symmetric] assms(2) [symmetric]
    by (simp add: fresh_logging_def getLogger_def dict_get_def dict_set_def)
qed

lemma upper_warn: "upper ''warn'' = ''WARN''"
  by (simp add: upper_def capital_def char_of_def bit_0)

section \<open>Properties\<close>

text \<open>C24: A log level keeps its promise. Whatever the level on the command line (names that the module \<open>logging\<close> uses for other
  things apart), a message goes to the system log once if it is at least as severe as the level and not at all otherwise; \<open>OFF\<close> is
  above every message, an unknown level counts as \<open>ERROR\<close>, and \<open>NOTSET\<close> as \<open>WARNING\<close>.\<close>

theorem log_level_threshold:
  assumes "upper level \<notin> {''BASIC_FORMAT'', ''_STYLES''}" "m < Off"
  shows "\<exists>n L. get_logger name level cid fresh_logging = Inr (n, L) \<and>
    syslog_lines L n (severity m) = (if threshold level \<le> m then 1 else 0)"
proof -
  define nm where "nm = ''CONT #'' @ cid @ '': '' @ name"
  define lv where "lv = upper level"
  have "syslog_lines \<lparr>lg_disable = (if lv = ''OFF'' then 50 else 0), lg_loggers = [(nm, \<lparr>lg_level = (if lv = ''OFF'' then 0 else
      level_number lv), lg_handlers = [level_number lv]\<rparr>)]\<rparr> nm (severity m) = (if threshold level \<le> m then 1 else 0)"
    using assms(2) by (cases m) (simp_all add: syslog_lines_def effective_level_def level_number_def getLogger_def dict_get_def logging_attrs_def
      threshold_def less_eq_verbosity_def less_verbosity_def Let_def lv_def [symmetric])
  then show ?thesis using get_logger_fresh [OF assms(1) nm_def] by (auto simp: lv_def)
qed

theorem log_level_threshold_witness:
  "\<exists>n L. get_logger ''storlets-daemon'' ''warn'' ''c1'' fresh_logging = Inr (n, L) \<and> syslog_lines L n 20 = 0 \<and> threshold ''warn'' = Warning"
proof -
  have "threshold ''warn'' = Warning" by (simp add: threshold_def upper_warn)
  then show ?thesis using upper_warn log_level_threshold [of "''warn''" Info "''storlets-daemon''" "''c1''"]
    by (auto simp: less_verbosity_def less_eq_verbosity_def)
qed


definition sample_lib :: sbus_lib where
  "sample_lib = \<lparr>lib_load = Inr (), lib_start_logger = (\<lambda>_ _. ()), lib_stop_logger = (), lib_create = (\<lambda>_. 3)\<rparr>"

definition hangup :: loop_env where
  "hangup = \<lparr>ev_listen = 0, ev_receive = Inr None, ev_alive = True, ev_sighup = True\<rparr>"

definition sample_load :: "string \<Rightarrow> string \<Rightarrow> storlet res" where
  "sample_load m c = (if m = ''mod'' then Inr (d_storlet sample_daemon) else Inl ImportError)"

abbreviation sample_argv :: "string list" where
  "sample_argv \<equiv> [''mod.Cls'', ''/pipe'', ''warn'', ''2'', ''c1'']"

lemma sample_argv_plain: "list_all (\<lambda>a. \<not> startswith a ''-'') sample_argv"
  by (simp add: startswith_def)

lemma sample_pool: "py_int ''2'' = Inr 2"
  by code_simp

lemma warn_logger: "\<exists>l. get_logger name ''warn'' cid fresh_logging = Inr l"
  using get_logger_fresh [of "''warn''"] by (simp add: upper_warn)

lemma sample_init: "StorletDaemon_init sample_load ''mod.Cls'' 2 sample_world =
    Inr (sample_daemon\<lparr>d_pool_size := 2, task_id_to_pid := []\<rparr>)"
proof -
  have "split_on CHR ''.'' ''mod.Cls'' = [''mod'', ''Cls'']" by code_simp
  then show ?thesis by (simp add: StorletDaemon_init_def sample_load_def sample_daemon_def)
qed

lemma sample_exit:
  "\<exists>s. daemon_main Inr sample_lib sample_load table_ops sample_content [hangup] sample_argv sample_world = Some (SystemExit 0, Some s)"
proof -
  let ?d = "sample_daemon\<lparr>d_pool_size := 2, task_id_to_pid := []\<rparr>"
  have "daemon_inv world_children world_ok ?d" using sample_daemon_inv by (simp add: daemon_inv_def table_sound_def dict_ok_def)
  then obtain s where "daemon_terminate table_ops ?d = (Inr (), s)"
    using table.wait_all_spec [of ?d] by (auto simp: daemon_terminate_def)
  then have loop: "daemon_main_loop table_ops sample_content 3 [hangup] ?d = Some (Inr 0, s)"
    by (simp add: daemon_main_loop_def main_loop_def hangup_def LOOP_TIMEOUT_def LISTEN_TIMEOUT_def EXIT_SUCCESS_def)
  have args: "daemon_parse_args Inr sample_argv = Inr \<lparr>do_storlet_name = ''mod.Cls'', do_sbus_path = ''/pipe'', do_log_level = ''warn'',
      do_pool_size = 2, do_container_id = ''c1''\<rparr>"
    by (simp add: daemon_parse_args_def parse_args_positional [OF sample_argv_plain] sample_pool)
  obtain l where "get_logger ''storlets-daemon'' ''warn'' ''c1'' fresh_logging = Inr l" using warn_logger by blast
  then show ?thesis using loop
    by (simp add: daemon_main_def args sample_init run_server_def SBus_start_logger_def SBus_create_def sample_lib_def
        or_exit_failure_def is_Exception_def)
qed

lemma hangup_received: "\<forall>e \<in> set [hangup]. via_receive e"
proof -
  have "ev_receive hangup = SBus_receive (- 1) r" for r by (simp add: hangup_def SBus_receive_def)
  then show ?thesis by (auto simp: via_receive_def)
qed




end
