(* ===== verification/Middleware.thy ===== *)
theory Middleware
  imports Invocation
begin

text \<open>
  The Swift middleware, part one: \<open>storlets/swift_middleware/handlers/base.py\<close>, what the handlers of the proxy and the
  object server share, and the gateways they call, the container gateway and the stub
  (\<open>storlets/gateway/gateways/stub.py\<close>).

  Swift itself is third-party code: the WSGI application, \<open>split_path\<close>, \<open>Range\<close>, \<open>config_true_value\<close> and the other
  helpers are fields of the record \<open>swift\<close>. Headers are dictionaries whose keys are in the canonical spelling that the
  sources use (Swift's header dictionaries convert every key to it). Setting a header to \<open>None\<close> removes it. A handler is
  a record and its methods are computations (\<open>Effects\<close>) on it and the world; an error response is the exception
  \<open>HTTPException\<close> with its status, whether the code raises or returns it, and \<open>sw_http_error\<close> is the response that Swift
  makes of it.
\<close>

section \<open>Requests and responses\<close>

record wsgi_req =
  rq_method :: string
  rq_path :: string
  rq_headers :: "string dict"
  rq_params :: "string dict"
  rq_body :: data_source

record wsgi_resp =
  wr_status :: int
  wr_headers :: "string dict"
  wr_body :: data_source
  wr_fp :: "int option"
  wr_path :: string

definition is_success :: "wsgi_resp \<Rightarrow> bool" where "is_success r = (wr_status r div 100 = 2)"

text \<open>What the sources call of Swift.\<close>

record 'w swift =
  sw_app :: "wsgi_req \<Rightarrow> 'w \<Rightarrow> wsgi_resp res \<times> 'w"
  sw_account_meta :: "wsgi_req \<Rightarrow> 'w \<Rightarrow> string dict res \<times> 'w"
  sw_split_path :: "string \<Rightarrow> nat \<Rightarrow> nat \<Rightarrow> bool \<Rightarrow> string option list res"
  sw_ranges :: "string \<Rightarrow> (int option \<times> int option) list res"
  sw_true :: "string option \<Rightarrow> bool"
  sw_csv :: "string \<Rightarrow> string list"
  sw_clean_acl :: "string \<Rightarrow> string \<Rightarrow> unit res"
  sw_copy_from :: "wsgi_req \<Rightarrow> (string \<times> string) res"
  sw_destination :: "wsgi_req \<Rightarrow> (string \<times> string) res"
  sw_copy_headers :: "string dict \<Rightarrow> string dict \<Rightarrow> string dict"
  sw_subrequest :: "wsgi_req \<Rightarrow> string \<Rightarrow> string \<Rightarrow> (string \<times> string option) list \<Rightarrow> wsgi_req"
  sw_copy_get :: "wsgi_req \<Rightarrow> wsgi_req"
  sw_sysmeta :: string
  sw_http_error :: "int \<Rightarrow> string \<Rightarrow> wsgi_resp"

text \<open>The interface of a gateway class: its constructor, the registration checks, its request class and
  \<open>invocation_flow\<close>.\<close>

record ('r, 'w) gateway_class =
  gc_init :: "string dict \<Rightarrow> string \<Rightarrow> unit res"
  gc_validate_storlet :: "string dict \<Rightarrow> string \<Rightarrow> unit res"
  gc_validate_dependency :: "string dict \<Rightarrow> string \<Rightarrow> unit res"
  gc_request :: "string \<Rightarrow> json dict \<Rightarrow> storlet_data \<Rightarrow> json dict \<Rightarrow> 'r res"
  gc_append :: "storlet_data \<Rightarrow> 'r \<Rightarrow> 'r"
  gc_flow :: "string dict \<Rightarrow> string \<Rightarrow> 'r \<Rightarrow> 'w \<Rightarrow> storlet_data res \<times> 'w"

record ('r, 'w) env =
  en_swift :: "'w swift"
  en_gateway :: "('r, 'w) gateway_class"
  en_conf :: "string dict"
  en_gateway_conf :: "string dict"

section \<open>Text\<close>

text \<open>\<open>s.split(c, 1)\<close>, \<open>s.rfind(c)\<close>, \<open>s.replace(a, b)\<close> for characters, and \<open>p in s\<close>.\<close>

definition split_once :: "char \<Rightarrow> string \<Rightarrow> (string \<times> string) option" where
  "split_once c s = (if c \<in> set s then Some (takeWhile (\<lambda>x. x \<noteq> c) s, tl (dropWhile (\<lambda>x. x \<noteq> c) s)) else None)"

definition rfind :: "char \<Rightarrow> string \<Rightarrow> int" where
  "rfind c s = int (length (dropWhile (\<lambda>x. x \<noteq> c) (rev s))) - 1"

definition replace_char :: "char \<Rightarrow> char \<Rightarrow> string \<Rightarrow> string" where
  "replace_char a b s = map (\<lambda>x. if x = a then b else x) s"

fun contains :: "string \<Rightarrow> string \<Rightarrow> bool" where
  "contains p [] = (p = [])"
| "contains p (c # cs) = (startswith (c # cs) p \<or> contains p cs)"

text \<open>\<open>urllib.parse.unquote\<close>: each run of escapes is decoded as UTF-8. What is no UTF-8 becomes the replacement
  character, here \<open>?\<close>, as the strings of the model end at U+00FF.\<close>

fun unquote_aux :: "string \<Rightarrow> string \<Rightarrow> string" where
  "unquote_aux run (p # a # b # cs) =
     (case (hex_val a, hex_val b) of
        (Some x, Some y) \<Rightarrow> if p = CHR ''%'' then unquote_aux (run @ [char_of (16 * x + y)]) cs
          else (case utf8_decode run of Inr t \<Rightarrow> t | Inl _ \<Rightarrow> map (\<lambda>_. CHR ''?'') run) @ p # unquote_aux [] (a # b # cs)
      | _ \<Rightarrow> (case utf8_decode run of Inr t \<Rightarrow> t | Inl _ \<Rightarrow> map (\<lambda>_. CHR ''?'') run) @ p # unquote_aux [] (a # b # cs))"
| "unquote_aux run cs = (case utf8_decode run of Inr t \<Rightarrow> t | Inl _ \<Rightarrow> map (\<lambda>_. CHR ''?'') run) @ cs"

definition unquote :: "string \<Rightarrow> string" where "unquote s = unquote_aux [] s"

definition quote_digit :: "nat \<Rightarrow> char" where
  "quote_digit n = (if n < 10 then char_of (48 + n) else char_of (55 + n))"

text \<open>\<open>urllib.parse.quote\<close>: letters, digits and \<open>_.-~/\<close> stay.\<close>

definition quote :: "string \<Rightarrow> string" where
  "quote s = concat (map (\<lambda>c. let n = (of_char c :: nat) in
     if is_digit c \<or> (65 \<le> n \<and> n \<le> 90) \<or> (97 \<le> n \<and> n \<le> 122) \<or> c \<in> set ''_.-~/'' then [c]
     else [CHR ''%'', quote_digit (n div 16), quote_digit (n mod 16)]) (utf8_encode s))"

section \<open>The file manager\<close>

text \<open>\<open>SwiftFileManager\<close>; \<open>get_object\<close> and \<open>upload_object\<close> of the internal client are parameters.\<close>

record file_manager =
  fm_account :: string
  fm_storlet_container :: string
  fm_dependency_container :: string
  fm_log_container :: string

type_synonym client_get = "string \<Rightarrow> string \<Rightarrow> string \<Rightarrow> (string dict \<times> string list \<times> py_exc option) res"

definition fm_get_object :: "client_get \<Rightarrow> file_manager \<Rightarrow> string \<Rightarrow> string \<Rightarrow> (string dict \<times> string list \<times> py_exc option) res" where
  "fm_get_object get_object fm container ob = get_object (fm_account fm) container ob"

text \<open>The name \<open>ob\<close> of the object does not reach the internal client.\<close>

definition fm_put_object ::
  "(string \<Rightarrow> string \<Rightarrow> string dict \<Rightarrow> 'w \<Rightarrow> unit res \<times> 'w) \<Rightarrow> file_manager \<Rightarrow> string \<Rightarrow> string \<Rightarrow> string dict \<Rightarrow> 'w \<Rightarrow> unit res \<times> 'w" where
  "fm_put_object upload fm container ob headers w = upload (fm_account fm) container headers w"

definition fm_get_storlet :: "client_get \<Rightarrow> file_manager \<Rightarrow> string \<Rightarrow> ((string list \<times> py_exc option) \<times> string) res" where
  "fm_get_storlet get_object fm name =
     (case fm_get_object get_object fm (fm_storlet_container fm) name of
        Inl e \<Rightarrow> Inl (if is_Exception e then FileManagementError (''Failed to get storlet file: '' @ name) else e)
      | Inr (headers, it) \<Rightarrow> Inr (it, []))"

definition fm_get_dependency :: "client_get \<Rightarrow> file_manager \<Rightarrow> string \<Rightarrow> ((string list \<times> py_exc option) \<times> string) res" where
  "fm_get_dependency get_object fm name =
     (case fm_get_object get_object fm (fm_dependency_container fm) name of
        Inl e \<Rightarrow> Inl (if is_Exception e then FileManagementError (''Failed to get dependency file: '' @ name) else e)
      | Inr (headers, it) \<Rightarrow>
          Inr (it, conf_get headers ''X-Object-Meta-Storlet-Dependency-Permissions'' []))"

definition fm_put_log ::
  "(string \<Rightarrow> string \<Rightarrow> string dict \<Rightarrow> 'w \<Rightarrow> unit res \<times> 'w) \<Rightarrow> file_manager \<Rightarrow> string \<Rightarrow> 'w \<Rightarrow> unit res \<times> 'w" where
  "fm_put_log upload fm name w =
     (case fm_put_object upload fm (fm_log_container fm) name [(''CONTENTTYPE'', ''text/plain'')] w of
        (Inl e, w') \<Rightarrow> (Inl (if is_Exception e then FileManagementError (''Failed to put log file: '' @ name) else e), w')
      | (Inr _, w') \<Rightarrow> (Inr (), w'))"

section \<open>Handlers\<close>

record handler =
  h_request :: wsgi_req
  h_version :: string
  h_account :: string
  h_container :: string
  h_obj :: "string option"
  reseller_prefix :: string
  storlet_execute_on_proxy :: bool
  storlet_container :: string
  storlet_dependency :: string
  log_container :: string
  max_extra_resources :: int
  acl_string :: "string option"
  extra_resources :: "string list"

type_synonym ('w, 'a) h_eff = "(handler \<times> 'w, 'a) eff"

abbreviation hdr :: "handler \<Rightarrow> string dict" where "hdr h \<equiv> rq_headers (h_request h)"

definition container_names :: "string dict \<Rightarrow> string \<times> string \<times> string" where
  "container_names conf = (conf_get conf ''storlet_container'' ''storlet'', conf_get conf ''storlet_dependency'' ''dependency'',
     conf_get conf ''storlet_logcontainer'' ''storletlog'')"

text \<open>Setting the property \<open>request\<close> parses its path; \<open>vaco\<close> is \<open>_parse_vaco\<close> of the subclass. Its \<open>ValueError\<close> means that the
  request is none for storlets.\<close>

definition set_request :: "('q \<Rightarrow> (string \<times> string \<times> string \<times> string option) res) \<Rightarrow> 'q \<Rightarrow> (string \<times> string \<times> string \<times> string option) res" where
  "set_request vaco req = (case vaco req of Inl e \<Rightarrow> Inl (if is_ValueError e then NotStorletRequest else e) | Inr x \<Rightarrow> Inr x)"

text \<open>The constructor of the base class.\<close>

definition StorletBaseHandler ::
  "('r, 'w) env \<Rightarrow> (wsgi_req \<Rightarrow> (string \<times> string \<times> string \<times> string option) res) \<Rightarrow> wsgi_req \<Rightarrow> handler res" where
  "StorletBaseHandler en vaco req =
     (case set_request vaco req of
        Inl e \<Rightarrow> Inl e
      | Inr (v, a, c, ob) \<Rightarrow>
          let conf = en_conf en; (st, dep, lg) = container_names conf in
          Inr \<lparr>h_request = req, h_version = v, h_account = a, h_container = c, h_obj = ob,
               reseller_prefix = conf_get conf ''reseller_prefix'' ''AUTH'',
               storlet_execute_on_proxy = sw_true (en_swift en) (Some (conf_get conf ''storlet_execute_on_proxy'' ''false'')),
               storlet_container = st, storlet_dependency = dep, log_container = lg,
               max_extra_resources = -1, acl_string = None, extra_resources = []\<rparr>)"

definition scope :: "handler \<Rightarrow> string" where
  "scope h = (let start = (if startswith (h_account h) (reseller_prefix h @ ''_'') then length (reseller_prefix h) + 1 else 0);
                  stop = min (start + 13) (length (h_account h))
              in take (stop - start) (drop start (h_account h)))"

definition has_obj :: "handler \<Rightarrow> bool" where "has_obj h = (h_obj h \<noteq> None \<and> h_obj h \<noteq> Some [])"

definition is_storlet_execution :: "handler \<Rightarrow> bool" where
  "is_storlet_execution h = (dict_has (hdr h) ''X-Run-Storlet'' \<and> has_obj h)"

definition is_range_request :: "handler \<Rightarrow> bool" where "is_range_request h = dict_has (hdr h) ''Range''"

definition is_storlet_range_request :: "handler \<Rightarrow> bool" where
  "is_storlet_range_request h = dict_has (hdr h) ''X-Storlet-Range''"

definition is_storlet_multiple_range_request :: "'w swift \<Rightarrow> handler \<Rightarrow> bool res" where
  "is_storlet_multiple_range_request sw h =
     (case dict_get (hdr h) ''X-Storlet-Range'' of
        None \<Rightarrow> Inr False | Some r \<Rightarrow> rbind (sw_ranges sw r) (\<lambda>rs. Inr (length rs > 1)))"

definition has_run_on_proxy_header :: "handler \<Rightarrow> bool res" where
  "has_run_on_proxy_header h =
     (case dict_get (hdr h) ''X-Storlet-Run-On-Proxy'' of
        None \<Rightarrow> Inr False
      | Some v \<Rightarrow> if strip v \<noteq> [] then Inl (HTTPException 400 ''X-Storlet-Run-On-Proxy header should be empty'') else Inr True)"

definition has_extra_resources_header :: "handler \<Rightarrow> bool" where
  "has_extra_resources_header h = dict_has (hdr h) ''X-Storlet-Extra-Resources''"

definition execute_on_proxy :: "handler \<Rightarrow> bool res" where
  "execute_on_proxy h = rbind (has_run_on_proxy_header h) (\<lambda>b.
     Inr (b \<or> has_extra_resources_header h \<or> storlet_execute_on_proxy h))"

definition execute_range_on_proxy :: "'w swift \<Rightarrow> handler \<Rightarrow> bool res" where
  "execute_range_on_proxy sw h = rbind (is_storlet_multiple_range_request sw h) (\<lambda>m.
     if m then Inr True else if is_storlet_range_request h then execute_on_proxy h else Inr False)"

definition is_slo_response :: "wsgi_resp \<Rightarrow> bool" where
  "is_slo_response r = dict_has (wr_headers r) ''X-Static-Large-Object''"

definition parameter_headers :: "string dict \<Rightarrow> (string \<times> string) list" where
  "parameter_headers hs = filter (\<lambda>(k, v). startswith (lower k) ''x-storlet-parameter'') hs"

definition parse_parameters :: "string dict \<Rightarrow> string dict res" where
  "parse_parameters hs = rbind (mapM (\<lambda>(k, v). case split_once CHR '':'' (unquote v) of
       None \<Rightarrow> Inl (ValueError ''not enough values to unpack'') | Some kv \<Rightarrow> Inr kv) (parameter_headers hs))
     (\<lambda>kvs. Inr (dict_update [] kvs))"

definition update_storlet_parameters_from_headers :: "handler \<Rightarrow> handler res" where
  "update_storlet_parameters_from_headers h = rbind (parse_parameters (hdr h)) (\<lambda>ps.
     Inr (h\<lparr>h_request := (h_request h)\<lparr>rq_params := dict_update (rq_params (h_request h)) ps\<rparr>\<rparr>))"

definition setup_gateway :: "('r, 'w) env \<Rightarrow> handler \<Rightarrow> handler res" where
  "setup_gateway en h = rbind (gc_init (en_gateway en) (en_gateway_conf en) (scope h)) (\<lambda>_.
     update_storlet_parameters_from_headers h)"

definition set_metadata_in_headers :: "(string \<times> string) list \<Rightarrow> string dict \<Rightarrow> string dict" where
  "set_metadata_in_headers md hs = foldl (\<lambda>hs (k, v). if lower k = ''content-type''
     then dict_set k v hs else dict_set (''X-Object-Meta-'' @ k) v hs) hs md"

text \<open>The items of the metadata dictionary a storlet returned; a header value is text.\<close>

definition md_items :: "json \<Rightarrow> (string \<times> string) list" where
  "md_items md = (case md of JObj d \<Rightarrow> map (\<lambda>(k, v). (k, str_of_json v)) d | _ \<Rightarrow> [])"

definition get_user_metadata :: "string dict \<Rightarrow> string dict" where
  "get_user_metadata hs = foldl (\<lambda>md (k, v). if startswith k ''X-Object-Meta-Storlet-'' then md
     else if startswith k ''X-Object-Meta-'' then dict_set (drop 14 k) v md else md) [] hs"

definition option_key :: "string \<Rightarrow> string" where
  "option_key k = ''storlet_'' @ replace_char CHR ''-'' CHR ''_'' (lower (drop 10 k))"

definition is_option_header :: "string \<Rightarrow> bool" where
  "is_option_header k = (startswith k ''X-Storlet-'' \<and> k \<noteq> ''X-Storlet-Range'' \<and> k \<noteq> ''X-Storlet-Generate-Log'')"

definition options_scope :: "string \<Rightarrow> string" where
  "options_scope a = (if rfind CHR '':'' a > 0 then take (nat (rfind CHR '':'' a)) a else a)"

text \<open>The file manager object is represented by what identifies it.\<close>

definition get_storlet_invocation_options :: "'w swift \<Rightarrow> handler \<Rightarrow> json dict" where
  "get_storlet_invocation_options sw h =
     (let hs = hdr h;
          o1 = foldl (\<lambda>d (k, v). if is_option_header k then dict_set (option_key k) (JStr v) d else d) [] hs;
          o2 = dict_set ''scope'' (JStr (options_scope (h_account h))) o1;
          o3 = dict_set ''generate_log'' (JBool (sw_true sw (dict_get hs ''X-Storlet-Generate-Log''))) o2
      in dict_set ''file_manager'' (JObj [(''account'', JStr (h_account h)), (''storlet'', JStr (storlet_container h)),
           (''dependency'', JStr (storlet_dependency h)), (''log'', JStr (log_container h))]) o3)"

definition storlet_data_of :: "string dict \<Rightarrow> data_source \<Rightarrow> int option \<Rightarrow> storlet_data res" where
  "storlet_data_of md body fp = (let m = JObj (map (\<lambda>(k, v). (k, JStr v)) md) in
     case fp of Some fd \<Rightarrow> StorletData m None (Some fd) 10 False
     | None \<Rightarrow> (case body of Chunks cs \<Rightarrow> StorletData m (Some cs) None 10 False | FromFd fd \<Rightarrow> StorletData m None (Some fd) 10 False))"

text \<open>\<open>opts\<close> is \<open>_get_storlet_invocation_options\<close> of the subclass.\<close>

definition build_storlet_request ::
  "('r, 'w) env \<Rightarrow> (handler \<Rightarrow> json dict res) \<Rightarrow> handler \<Rightarrow> string dict \<Rightarrow> data_source \<Rightarrow> int option \<Rightarrow> 'r res" where
  "build_storlet_request en opts h sheaders body fp =
     (let sid = (case dict_get (hdr h) ''X-Run-Storlet'' of None \<Rightarrow> [] | Some s \<Rightarrow> s) in
      rbind (opts h) (\<lambda>options.
      rbind (storlet_data_of (get_user_metadata sheaders) body fp) (\<lambda>data.
        gc_request (en_gateway en) sid (map (\<lambda>(k, v). (k, JStr v)) (rq_params (h_request h))) data options)))"

text \<open>\<open>get_response\<close> of the request the handler holds.\<close>

definition h_app :: "('r, 'w) env \<Rightarrow> ('w, wsgi_resp) h_eff" where
  "h_app en = ebind (eget h_request) (\<lambda>r. eworld (sw_app (en_swift en) r))"

definition h_flow :: "('r, 'w) env \<Rightarrow> 'r \<Rightarrow> ('w, storlet_data) h_eff" where
  "h_flow en sreq = ebind (eget scope) (\<lambda>sc. eworld (gc_flow (en_gateway en) (en_gateway_conf en) sc sreq))"

definition result_headers :: "string dict \<Rightarrow> json \<Rightarrow> string dict" where
  "result_headers hs md =
     (let h1 = dict_pop ''Transfer-Encoding'' (dict_pop ''Content-Length'' hs);
          h2 = (case dict_get hs ''Content-Range'' of None \<Rightarrow> h1
                | Some r \<Rightarrow> dict_pop ''Content-Range'' (dict_set ''Storlet-Input-Range'' r h1))
      in set_metadata_in_headers (md_items md) h2)"

definition apply_storlet :: "'w swift \<Rightarrow> ('w, storlet_data) h_eff \<Rightarrow> wsgi_resp \<Rightarrow> ('w, wsgi_resp) h_eff" where
  "apply_storlet sw call_gateway resp =
     etry (ebind call_gateway (\<lambda>sdata.
           ebind (eres (data_iter sdata)) (\<lambda>body.
             ereturn \<lparr>wr_status = 200, wr_headers = result_headers (wr_headers resp) (user_metadata sdata),
                      wr_body = body, wr_fp = None, wr_path = wr_path resp\<rparr>)))
          (\<lambda>e. if is_StorletRuntimeException e then ereturn (sw_http_error sw 503 []) else eraise e)"

section \<open>The gateways\<close>

definition container_gateway :: "'w flow_ops \<Rightarrow> (container_request, fs \<times> 'w) gateway_class" where
  "container_gateway ops =
     \<lparr>gc_init = (\<lambda>conf sc. rbind (StorletGatewayContainer conf sc) (\<lambda>_. Inr ())),
      gc_validate_storlet = validate_storlet_registration,
      gc_validate_dependency = (\<lambda>ps _. validate_dependency_registration ps),
      gc_request = (\<lambda>sid ps d o1. ContainerStorletRequest sid ps d (Some o1) None),
      gc_append = (\<lambda>d r. r\<lparr>cr_request := (cr_request r)\<lparr>extra_data_list := extra_data_list (cr_request r) @ [d]\<rparr>\<rparr>),
      gc_flow = (\<lambda>conf sc r w. case StorletGatewayContainer conf sc of Inl e \<Rightarrow> (Inl e, w) | Inr gw \<Rightarrow> invocation_flow ops gw r w)\<rparr>"

text \<open>The stub runs nothing and returns the data it got.\<close>

definition indentity_invocation :: "storlet_request \<Rightarrow> storlet_data res" where
  "indentity_invocation r = rbind (data_iter (sr_data r)) (\<lambda>it. case it of
     Chunks cs \<Rightarrow> StorletData (user_metadata (sr_data r)) (Some cs) None 10 False
   | FromFd fd \<Rightarrow> StorletData (user_metadata (sr_data r)) None (Some fd) 10 False)"

definition stub_gateway :: "(storlet_request, 'w) gateway_class" where
  "stub_gateway =
     \<lparr>gc_init = (\<lambda>_ _. Inr ()), gc_validate_storlet = (\<lambda>_ _. Inr ()), gc_validate_dependency = (\<lambda>_ _. Inr ()),
      gc_request = (\<lambda>sid ps d o1. StorletRequest [] sid ps d (Some o1) None),
      gc_append = (\<lambda>d r. r\<lparr>extra_data_list := extra_data_list r @ [d]\<rparr>),
      gc_flow = (\<lambda>_ _ r w. (indentity_invocation r, w))\<rparr>"

end
