(* ===== verification/Proxy.thy ===== *)
theory Proxy
  imports Middleware
begin

text \<open>
  The Swift middleware, part two: the handler of the proxy server
  (\<open>storlets/swift_middleware/handlers/proxy.py\<close>). It registers storlets, updates container ACLs, verifies that the caller
  may run a storlet, decides where it runs and runs it itself when it has to.
\<close>

definition REFERER_PREFIX :: string where "REFERER_PREFIX = ''storlets''"

definition CONDITIONAL_KEYS :: "string list" where
  "CONDITIONAL_KEYS = [''If-Match'', ''If-None-Match'', ''If-Modified-Since'', ''If-Unmodified-Since'']"

section \<open>Classification\<close>

definition proxy_parse_vaco :: "'w swift \<Rightarrow> wsgi_req \<Rightarrow> (string \<times> string \<times> string \<times> string option) res" where
  "proxy_parse_vaco sw req = rbind (sw_split_path sw (rq_path req) 3 4 True) (\<lambda>segs. case segs of
     [Some v, Some a, Some c, ob] \<Rightarrow> Inr (v, a, c, ob) | _ \<Rightarrow> Inl (ValueError ''Invalid path''))"

definition storlet_containers :: "handler \<Rightarrow> string list" where
  "storlet_containers h = [storlet_container h, storlet_dependency h]"

definition is_storlet_object_update :: "handler \<Rightarrow> bool" where
  "is_storlet_object_update h = (h_container h \<in> set (storlet_containers h) \<and> has_obj h \<and>
     rq_method (h_request h) \<in> {''PUT'', ''POST''})"

definition is_storlet_acl_update :: "handler \<Rightarrow> bool" where
  "is_storlet_acl_update h = (rq_method (h_request h) = ''POST'' \<and> \<not> has_obj h \<and> dict_has (hdr h) ''X-Storlet-Container-Read'')"

definition is_storlet_request :: "handler \<Rightarrow> bool" where
  "is_storlet_request h = (is_storlet_execution h \<or> is_storlet_object_update h \<or> is_storlet_acl_update h)"

definition is_put_copy_request :: "handler \<Rightarrow> bool" where
  "is_put_copy_request h = dict_has (hdr h) ''X-Copy-From''"

definition is_symlink_response :: "wsgi_resp \<Rightarrow> bool" where
  "is_symlink_response r = dict_has (wr_headers r) ''X-Symlink-Target''"

definition is_proxy_runnable :: "'w swift \<Rightarrow> handler \<Rightarrow> wsgi_resp option \<Rightarrow> bool res" where
  "is_proxy_runnable sw h resp =
     rbind (execute_on_proxy h) (\<lambda>a. rbind (execute_range_on_proxy sw h) (\<lambda>b.
       Inr (a \<or> b \<or> (case resp of None \<Rightarrow> False | Some r \<Rightarrow> is_slo_response r \<or> is_symlink_response r))))"

definition should_block :: "wsgi_req \<Rightarrow> unit res" where
  "should_block req =
     (case dict_get (rq_headers req) ''Referer'' of
        None \<Rightarrow> Inr ()
      | Some r \<Rightarrow> if r \<noteq> [] \<and> contains REFERER_PREFIX r
          then Inl (HTTPException 403 (''Referrer containing '' @ REFERER_PREFIX @ '' is not allowed'')) else Inr ())"

section \<open>Registration and ACLs\<close>

definition parse_storlet_params :: "string dict \<Rightarrow> string dict" where
  "parse_storlet_params hs = foldl (\<lambda>d (k, v). if startswith k ''X-Object-Meta-Storlet-'' then dict_set (drop 22 k) v d else d) [] hs"

definition validate_registration :: "('r, 'w) env \<Rightarrow> handler \<Rightarrow> unit res" where
  "validate_registration en h =
     (let ps = parse_storlet_params (hdr h); name = (case h_obj h of None \<Rightarrow> [] | Some s \<Rightarrow> s) in
      case (if h_container h = storlet_container h then gc_validate_storlet (en_gateway en) ps name
            else gc_validate_dependency (en_gateway en) ps name) of
        Inl (ValueError m) \<Rightarrow> Inl (HTTPException 400 m)
      | r \<Rightarrow> r)"

definition build_acl_string :: "string \<Rightarrow> string \<Rightarrow> string" where
  "build_acl_string user storlet = REFERER_PREFIX @ ''.'' @ user @ ''_'' @ storlet"

definition validate_acl_update :: "'w swift \<Rightarrow> handler \<Rightarrow> string res" where
  "validate_acl_update sw h =
     (if h_container h \<in> set (storlet_containers h) then Inl (HTTPException 400 ''storlet ACL update cannot be a storlet container'')
      else (let user_name = conf_get (hdr h) ''X-Storlet-Container-Read'' []; storlet_name = conf_get (hdr h) ''X-Storlet-Name'' [] in
        if user_name = [] \<or> storlet_name = []
        then Inl (HTTPException 400 ''storlet ACL update request is missing a mandatory header'')
        else (let acl = ''.r:'' @ build_acl_string user_name storlet_name in
          case sw_clean_acl sw ''X-Container-Read'' acl of
            Inl (ValueError m) \<Rightarrow> Inl (HTTPException 400 (''storlet ACL update request has invalid values '' @ m))
          | Inl e \<Rightarrow> Inl e
          | Inr _ \<Rightarrow> if CHR '','' \<in> set acl then Inl (HTTPException 400 ''storlet ACL update request has mulformed storlet or user name'')
                    else Inr acl)))"

section \<open>The constructor\<close>

definition extra_resource_path :: "'w swift \<Rightarrow> handler \<Rightarrow> string \<Rightarrow> string res" where
  "extra_resource_path sw h resource = rbind (sw_split_path sw resource 2 2 True) (\<lambda>segs.
     Inr (join_with ''/'' ([[], h_version h, h_account h] @ map (\<lambda>s. case s of None \<Rightarrow> [] | Some x \<Rightarrow> x) segs)))"

definition parse_extra_resources :: "'w swift \<Rightarrow> handler \<Rightarrow> string list res" where
  "parse_extra_resources sw h =
     (case dict_get (hdr h) ''X-Storlet-Extra-Resources'' of
        None \<Rightarrow> Inr []
      | Some v \<Rightarrow>
          let resources = sw_csv sw v in
          if resources = [] then Inr []
          else if max_extra_resources h > 0 \<and> int (length resources) > max_extra_resources h
          then Inl (HTTPException 400 (''Too many extra resources. '' @ nat_str (length resources) @ '' was requested but only ''
                 @ int_str (max_extra_resources h) @ '' is allowed,''))
          else if max_extra_resources h = 0 then Inl (HTTPException 403 ''Usage of extra resources is not allowed'')
          else (case mapM (extra_resource_path sw h) resources of
                  Inl (ValueError _) \<Rightarrow> Inl (HTTPException 400 ''X-Storlet-Extra-Resource must be a csv with/container/object format'')
                | r \<Rightarrow> r))"

definition StorletProxyHandler :: "('r, 'w) env \<Rightarrow> wsgi_req \<Rightarrow> 'w \<Rightarrow> handler res \<times> 'w" where
  "StorletProxyHandler en req w =
     (case rbind (StorletBaseHandler en (proxy_parse_vaco (en_swift en)) req) (\<lambda>h0.
             rbind (py_int (conf_get (en_conf en) ''max_extra_resources'' ''-1'')) (\<lambda>mx.
             rbind (should_block req) (\<lambda>_. Inr (h0\<lparr>max_extra_resources := mx\<rparr>)))) of
        Inl e \<Rightarrow> (Inl e, w)
      | Inr h \<Rightarrow>
          if \<not> is_storlet_request h then (Inl NotStorletRequest, w)
          else (case sw_account_meta (en_swift en) req w of
             (Inl e, w') \<Rightarrow> (Inl e, w')
           | (Inr meta, w') \<Rightarrow>
               (if \<not> sw_true (en_swift en) (Some (conf_get meta ''storlet-enabled'' ''False''))
                then Inl (HTTPException 400 ''Account disabled for storlets'')
                else if is_storlet_acl_update h then rbind (validate_acl_update (en_swift en) h) (\<lambda>a. Inr (h\<lparr>acl_string := Some a\<rparr>))
                else if is_storlet_object_update h then rbind (validate_registration en h) (\<lambda>_. Inl NotStorletExecution)
                else if is_storlet_execution h then rbind (setup_gateway en h) (\<lambda>h1.
                       rbind (parse_extra_resources (en_swift en) h1) (\<lambda>xs. Inr (h1\<lparr>extra_resources := xs\<rparr>)))
                else Inl NotStorletExecution, w')))"

section \<open>Running a storlet\<close>

definition drop_headers :: "string list \<Rightarrow> string dict \<Rightarrow> string dict" where
  "drop_headers ks hs = foldl (\<lambda>d k. dict_pop k d) hs ks"

definition storlet_path :: "handler \<Rightarrow> string" where
  "storlet_path h = join_with ''/'' [[], h_version h, h_account h, storlet_container h, conf_get (hdr h) ''X-Run-Storlet'' []]"

definition verify_request :: "'w swift \<Rightarrow> handler \<Rightarrow> wsgi_req" where
  "verify_request sw h =
     (let req = h_request h;
          req' = req\<lparr>rq_headers := drop_headers (''Transfer-Encoding'' # CONDITIONAL_KEYS) (rq_headers req)\<rparr>
      in sw_subrequest sw req' ''HEAD'' (storlet_path h) [(''X-Auth-Token'', dict_get (hdr h) ''X-Auth-Token'')])"

definition require_headers :: "string list \<Rightarrow> string dict \<Rightarrow> string dict \<Rightarrow> string dict res" where
  "require_headers ks hs ps = foldl (\<lambda>r k. rbind r (\<lambda>d. case dict_get hs k of
     None \<Rightarrow> Inl (KeyError k) | Some v \<Rightarrow> Inr (dict_set k v d))) (Inr ps) ks"

definition verify_access_to_storlet :: "('r, 'w) env \<Rightarrow> ('w, string dict) h_eff" where
  "verify_access_to_storlet en =
     ebind (eget (verify_request (en_swift en))) (\<lambda>sreq.
     ebind (eworld (sw_app (en_swift en) sreq)) (\<lambda>resp.
       if \<not> is_success resp then eraise (HTTPException 401 ''Failed to verify access to the storlet. Either the storlet does not exist or you are not authorized to run the storlet.'')
       else eres (require_headers [''Content-Length'', ''X-Timestamp''] (wr_headers resp) (parse_storlet_params (wr_headers resp)))))"

definition set_headers :: "(string dict \<Rightarrow> string dict) \<Rightarrow> handler \<Rightarrow> handler" where
  "set_headers f h = h\<lparr>h_request := (h_request h)\<lparr>rq_headers := f (rq_headers (h_request h))\<rparr>\<rparr>"

definition augmented :: "string dict \<Rightarrow> string dict \<Rightarrow> string dict" where
  "augmented ps hs = foldl (\<lambda>hs (k, v). dict_set (''X-Storlet-'' @ k) v hs) hs ps"

definition augment_storlet_request :: "string dict \<Rightarrow> ('w, unit) h_eff" where
  "augment_storlet_request ps = emodify (set_headers (augmented ps))"

definition proxy_options :: "'w swift \<Rightarrow> handler \<Rightarrow> json dict res" where
  "proxy_options sw h = Inr (get_storlet_invocation_options sw h)"

definition add_resource :: "('r, 'w) env \<Rightarrow> 'r \<Rightarrow> string \<Rightarrow> ('w, 'r) h_eff" where
  "add_resource en sreq resource =
     ebind (eget h_request) (\<lambda>req.
     ebind (eworld (sw_app (en_swift en) (sw_subrequest (en_swift en) req ''GET'' resource []))) (\<lambda>sub_resp.
     ebind (eres (storlet_data_of (get_user_metadata (wr_headers sub_resp)) (wr_body sub_resp) None)) (\<lambda>d.
       ereturn (gc_append (en_gateway en) d sreq))))"

fun add_resources :: "('r, 'w) env \<Rightarrow> 'r \<Rightarrow> string list \<Rightarrow> ('w, 'r) h_eff" where
  "add_resources en sreq [] = ereturn sreq"
| "add_resources en sreq (x # xs) = ebind (add_resource en sreq x) (\<lambda>r. add_resources en r xs)"

definition proxy_build_storlet_request ::
  "('r, 'w) env \<Rightarrow> string dict \<Rightarrow> data_source \<Rightarrow> int option \<Rightarrow> ('w, 'r) h_eff" where
  "proxy_build_storlet_request en sheaders body fp =
     ebind (eget id) (\<lambda>h.
     ebind (eres (build_storlet_request en (proxy_options (en_swift en)) h sheaders body fp)) (\<lambda>sreq.
       add_resources en sreq (extra_resources h)))"

definition proxy_call_gateway :: "('r, 'w) env \<Rightarrow> wsgi_resp \<Rightarrow> ('w, storlet_data) h_eff" where
  "proxy_call_gateway en resp =
     ebind (proxy_build_storlet_request en (wr_headers resp) (wr_body resp) (wr_fp resp)) (h_flow en)"

section \<open>GET\<close>

definition set_header :: "string \<Rightarrow> string \<Rightarrow> ('w, unit) h_eff" where
  "set_header k v = emodify (set_headers (dict_set k v))"

definition retry_with_referer :: "('r, 'w) env \<Rightarrow> wsgi_resp \<Rightarrow> ('w, wsgi_resp) h_eff" where
  "retry_with_referer en original_resp =
     (if wr_status original_resp \<noteq> 403 then ereturn original_resp
      else ebind (eget hdr) (\<lambda>hs. case dict_get hs ''X-User-Name'' of
             None \<Rightarrow> eraise (KeyError ''HTTP_X_USER_NAME'')
           | Some user_name \<Rightarrow>
               if user_name = [] then eraise (HTTPException 401 ''User is not authorized'')
               else ebind (set_header ''Referer'' (''//'' @ build_acl_string user_name (conf_get hs ''X-Run-Storlet'' []))) (\<lambda>_.
                      h_app en)))"

definition range_to_proxy :: "('r, 'w) env \<Rightarrow> ('w, unit) h_eff" where
  "range_to_proxy en =
     ebind (eget id) (\<lambda>h.
     ebind (eres (execute_range_on_proxy (en_swift en) h)) (\<lambda>b.
       if b then (case dict_get (hdr h) ''X-Storlet-Range'' of
                    None \<Rightarrow> eraise (KeyError ''X-Storlet-Range'') | Some r \<Rightarrow> set_header ''Range'' r)
       else ereturn ()))"

definition proxy_GET :: "('r, 'w) env \<Rightarrow> ('w, wsgi_resp) h_eff" where
  "proxy_GET en =
     ebind (eget is_range_request) (\<lambda>rng.
       if rng then eraise (HTTPException 400 ''Storlet execution with range header is not supported'')
       else
     ebind (verify_access_to_storlet en) (\<lambda>ps.
     ebind (augment_storlet_request ps) (\<lambda>_.
     ebind (range_to_proxy en) (\<lambda>_.
     ebind (h_app en) (\<lambda>resp0.
     ebind (retry_with_referer en resp0) (\<lambda>resp.
       if is_success resp then
         ebind (eget id) (\<lambda>h.
         ebind (eres (is_proxy_runnable (en_swift en) h (Some resp))) (\<lambda>run.
           if run then apply_storlet (en_swift en) (proxy_call_gateway en resp) resp
           else ereturn (resp\<lparr>wr_headers := dict_pop ''Content-Length'' (dict_pop ''Transfer-Encoding'' (wr_headers resp))\<rparr>)))
       else ereturn resp))))))"

section \<open>PUT and COPY\<close>

fun validate_copy_headers :: "string list \<Rightarrow> string dict \<Rightarrow> unit res" where
  "validate_copy_headers [] hs = Inr ()"
| "validate_copy_headers (k # ks) hs = (if dict_has hs k
     then Inl (HTTPException 400 (''Storlet on copy with '' @ k @ '' is not supported'')) else validate_copy_headers ks hs)"

definition validate_copy_request :: "handler \<Rightarrow> unit res" where
  "validate_copy_request h = validate_copy_headers [''X-Copy-From-Account'', ''Destination-Account'', ''X-Fresh-Metadata''] (hdr h)"

definition is_storlet_header :: "string \<Rightarrow> bool" where
  "is_storlet_header k = (startswith k ''X-Storlet-'' \<or> startswith k ''X-Object-Meta-Storlet-'' \<or> k = ''X-Run-Storlet'')"

definition remove_storlet_headers :: "string dict \<Rightarrow> string dict" where
  "remove_storlet_headers hs = filter (\<lambda>(k, v). \<not> is_storlet_header k) hs"

definition handle_put_copy_response :: "('r, 'w) env \<Rightarrow> data_source \<Rightarrow> ('w, wsgi_resp) h_eff" where
  "handle_put_copy_response en body =
     ebind (emodify (\<lambda>h. let h1 = set_headers (\<lambda>hs. dict_set ''Transfer-Encoding'' ''chunked''
                (dict_pop ''Content-Length'' (remove_storlet_headers hs))) h
              in h1\<lparr>h_request := (h_request h1)\<lparr>rq_body := body\<rparr>\<rparr>)) (\<lambda>_. h_app en)"

definition run_put_storlet :: "('r, 'w) env \<Rightarrow> string dict \<Rightarrow> data_source \<Rightarrow> int option \<Rightarrow> ('w, data_source) h_eff" where
  "run_put_storlet en sheaders body fp =
     ebind (proxy_build_storlet_request en sheaders body fp) (\<lambda>sreq.
     ebind (h_flow en sreq) (\<lambda>sdata.
     ebind (eres (data_iter sdata)) (\<lambda>out.
     ebind (emodify (set_headers (set_metadata_in_headers (md_items (user_metadata sdata))))) (\<lambda>_. ereturn out))))"

text \<open>\<open>acct, path = PATH_INFO.split('/', 3)[2:4]\<close>.\<close>

definition generated_from :: "string \<Rightarrow> (string \<times> string) res" where
  "generated_from p = (case split_on CHR ''/'' p of
     _ # _ # acct # x # xs \<Rightarrow> Inr (acct, join_with ''/'' (x # xs)) | _ \<Rightarrow> Inl (ValueError ''not enough values to unpack''))"

text \<open>The GET of the source, without the header that runs the storlet when the proxy does that itself.\<close>

definition source_request :: "'w swift \<Rightarrow> handler \<Rightarrow> bool \<Rightarrow> string \<Rightarrow> string \<Rightarrow> wsgi_req" where
  "source_request sw h run src_container src_obj =
     (let req0 = sw_copy_get sw (h_request h);
          hs = dict_pop ''X-Backend-Storage-Policy-Index'' (rq_headers req0)
      in req0\<lparr>rq_headers := (if run then dict_pop ''X-Run-Storlet'' hs else hs),
              rq_path := ''/'' @ h_version h @ ''/'' @ h_account h @ ''/'' @ src_container @ ''/'' @ src_obj\<rparr>)"

text \<open>The headers that name the source in the response.\<close>

definition name_source :: "string \<Rightarrow> string \<Rightarrow> string dict \<Rightarrow> string dict \<Rightarrow> string dict" where
  "name_source acct path src_headers hs =
     (let hs1 = dict_set ''X-Storlet-Generated-From'' (quote path) (dict_set ''X-Storlet-Generated-From-Account'' (quote acct) hs)
      in case dict_get src_headers ''Last-Modified'' of None \<Rightarrow> hs1
         | Some t \<Rightarrow> dict_set ''X-Storlet-Generated-From-Last-Modified'' t hs1)"

definition base_handle_copy_request :: "('r, 'w) env \<Rightarrow> string \<Rightarrow> string \<Rightarrow> ('w, wsgi_resp) h_eff" where
  "base_handle_copy_request en src_container src_obj =
     ebind (eget id) (\<lambda>h.
     ebind (eres (is_proxy_runnable (en_swift en) h None)) (\<lambda>run.
     ebind (eworld (sw_app (en_swift en) (source_request (en_swift en) h run src_container src_obj))) (\<lambda>src_resp.
     ebind (emodify (set_headers (\<lambda>hs. sw_copy_headers (en_swift en) (wr_headers src_resp) hs))) (\<lambda>_.
     ebind (eget id) (\<lambda>h1.
     ebind (eres (is_proxy_runnable (en_swift en) h1 (Some src_resp))) (\<lambda>run1.
     ebind (if run1 then run_put_storlet en (wr_headers src_resp) (wr_body src_resp) (wr_fp src_resp)
            else ereturn (wr_body src_resp)) (\<lambda>body.
     ebind (handle_put_copy_response en body) (\<lambda>resp.
     ebind (eres (generated_from (wr_path src_resp))) (\<lambda>(acct, path).
       ereturn (resp\<lparr>wr_headers := name_source acct path (wr_headers src_resp) (wr_headers resp)\<rparr>))))))))))"

fun chunks_of :: "nat \<Rightarrow> string \<Rightarrow> string list" where
  "chunks_of n s = (if s = [] \<or> n = 0 then [] else take n s # chunks_of n (drop n s))"

declare chunks_of.simps [simp del]

text \<open>\<open>iter(lambda: reader(65536), b'')\<close> over the body of the request.\<close>

definition body_iter :: "data_source \<Rightarrow> data_source" where
  "body_iter b = (case b of Chunks cs \<Rightarrow> Chunks (chunks_of 65536 (concat cs)) | FromFd fd \<Rightarrow> FromFd fd)"

definition proxy_PUT :: "('r, 'w) env \<Rightarrow> ('w, wsgi_resp) h_eff" where
  "proxy_PUT en =
     ebind (verify_access_to_storlet en) (\<lambda>ps.
     ebind (augment_storlet_request ps) (\<lambda>_.
     ebind (eget id) (\<lambda>h.
       if is_put_copy_request h then
         ebind (eres (validate_copy_request h)) (\<lambda>_.
         ebind (eres (sw_copy_from (en_swift en) (h_request h))) (\<lambda>(src_container, src_obj).
         ebind (emodify (set_headers (dict_pop ''X-Copy-From''))) (\<lambda>_.
           base_handle_copy_request en src_container src_obj)))
       else
         ebind (run_put_storlet en (hdr h) (body_iter (rq_body (h_request h))) None) (handle_put_copy_response en))))"

definition rewrite_as_put :: "string \<Rightarrow> string \<Rightarrow> handler \<Rightarrow> handler" where
  "rewrite_as_put dest_container dest_object h = h\<lparr>h_request := (h_request h)\<lparr>rq_method := ''PUT'',
     rq_path := ''/v1/'' @ h_account h @ ''/'' @ dest_container @ ''/'' @ dest_object,
     rq_headers := dict_pop ''Destination'' (dict_set ''Content-Length'' ''0'' (hdr h))\<rparr>\<rparr>"

definition proxy_COPY :: "('r, 'w) env \<Rightarrow> ('w, wsgi_resp) h_eff" where
  "proxy_COPY en =
     ebind (eget hdr) (\<lambda>hs.
       if conf_get hs ''Destination'' [] = [] then ereturn (sw_http_error (en_swift en) 412 ''Destination header required'')
       else
     ebind (verify_access_to_storlet en) (\<lambda>ps.
     ebind (augment_storlet_request ps) (\<lambda>_.
     ebind (eget id) (\<lambda>h.
     ebind (eres (validate_copy_request h)) (\<lambda>_.
     ebind (eres (sw_destination (en_swift en) (h_request h))) (\<lambda>(dest_container, dest_object).
     ebind (emodify (rewrite_as_put dest_container dest_object)) (\<lambda>_.
       base_handle_copy_request en (h_container h) (case h_obj h of None \<Rightarrow> [] | Some x \<Rightarrow> x))))))))"

section \<open>POST\<close>

definition proxy_POST :: "('r, 'w) env \<Rightarrow> ('w, wsgi_resp) h_eff" where
  "proxy_POST en =
     ebind (eget id) (\<lambda>h.
     ebind (eworld (sw_app (en_swift en) (sw_subrequest (en_swift en) (h_request h) ''HEAD'' (rq_path (h_request h)) []))) (\<lambda>sub_resp.
       if wr_status sub_resp \<noteq> 204 then ereturn (sw_http_error (en_swift en) 401 ''Unauthorized to get or modify the container ACL'')
       else (case acl_string h of
          None \<Rightarrow> eraise (AttributeError ''acl_string'')
        | Some acl \<Rightarrow>
            let read_acl = conf_get (wr_headers sub_resp) ''X-Container-Read'' [];
                new_read_acl = (if read_acl \<noteq> [] then join_with '','' [read_acl, acl] else acl)
            in ebind (set_header ''X-Container-Read'' new_read_acl) (\<lambda>_. h_app en))))"

definition proxy_handle_request :: "('r, 'w) env \<Rightarrow> ('w, wsgi_resp) h_eff" where
  "proxy_handle_request en =
     ebind (eget (\<lambda>h. rq_method (h_request h))) (\<lambda>m.
       if m = ''GET'' then proxy_GET en else if m = ''PUT'' then proxy_PUT en
       else if m = ''COPY'' then proxy_COPY en else if m = ''POST'' then proxy_POST en
       else eraise (HTTPException 405 ''Method Not Allowed''))"

text \<open>An example environment for the witnesses: \<open>split_path\<close> on clean paths, the other helpers of Swift answering plainly,
  the application given as an argument and \<open>tick\<close> what a call does to the world.\<close>

definition sample_split :: "string \<Rightarrow> nat \<Rightarrow> nat \<Rightarrow> bool \<Rightarrow> string option list res" where
  "sample_split p mn mx rest = (case split_on CHR ''/'' p of
     [] # segs \<Rightarrow> if length segs < mn then Inl (ValueError ''Invalid path'')
       else Inr (map Some (take (mx - 1) segs) @ (if drop (mx - 1) segs = [] then [] else [Some (join_with ''/'' (drop (mx - 1) segs))])
              @ replicate (mx - length segs) None)
   | _ \<Rightarrow> Inl (ValueError ''Invalid path''))"

definition sample_swift :: "('w \<Rightarrow> 'w) \<Rightarrow> (wsgi_req \<Rightarrow> wsgi_resp) \<Rightarrow> 'w swift" where
  "sample_swift tick app =
     \<lparr>sw_app = (\<lambda>r n. (Inr (app r), tick n)), sw_account_meta = (\<lambda>_ n. (Inr [(''storlet-enabled'', ''true'')], tick n)),
      sw_split_path = sample_split, sw_ranges = (\<lambda>s. if s = ''bytes=0-3'' then Inr [(Some 0, Some 3)] else Inl (ValueError ''Invalid Range'')),
      sw_true = (\<lambda>v. v = Some ''true''), sw_csv = (\<lambda>s. filter (\<lambda>x. x \<noteq> []) (map strip (split_on CHR '','' s))),
      sw_clean_acl = (\<lambda>_ _. Inr ()), sw_copy_from = (\<lambda>_. Inr (''c'', ''o'')), sw_destination = (\<lambda>_. Inr (''c'', ''o'')),
      sw_copy_headers = (\<lambda>a b. b), sw_subrequest = (\<lambda>r m p hs. r\<lparr>rq_method := m, rq_path := p\<rparr>),
      sw_copy_get = (\<lambda>r. r\<lparr>rq_method := ''GET''\<rparr>), sw_sysmeta = ''X-Object-Sysmeta-'',
      sw_http_error = (\<lambda>c m. \<lparr>wr_status = c, wr_headers = [], wr_body = Chunks [m], wr_fp = None, wr_path = []\<rparr>)\<rparr>"

definition sample_response :: "int \<Rightarrow> string dict \<Rightarrow> wsgi_resp" where
  "sample_response st hs = \<lparr>wr_status = st, wr_headers = hs, wr_body = Chunks [''data''], wr_fp = None, wr_path = ''/v1/a/c/o''\<rparr>"

definition stub_env :: "(wsgi_req \<Rightarrow> wsgi_resp) \<Rightarrow> (storlet_request, nat) env" where
  "stub_env app = \<lparr>en_swift = sample_swift Suc app, en_gateway = stub_gateway, en_conf = [], en_gateway_conf = []\<rparr>"

definition container_env :: "(container_request, fs \<times> string) env" where
  "container_env = \<lparr>en_swift = sample_swift (\<lambda>w. w) (\<lambda>_. sample_response 200 []), en_gateway = container_gateway flow_sample,
     en_conf = [], en_gateway_conf = []\<rparr>"

definition sample_req :: "string \<Rightarrow> string \<Rightarrow> string dict \<Rightarrow> wsgi_req" where
  "sample_req m p hs = \<lparr>rq_method = m, rq_path = p, rq_headers = hs, rq_params = [], rq_body = Chunks []\<rparr>"

definition sample_handler :: "wsgi_req \<Rightarrow> handler" where
  "sample_handler r = \<lparr>h_request = r, h_version = ''v1'', h_account = ''AUTH_a'', h_container = ''c'', h_obj = Some ''o'',
     reseller_prefix = ''AUTH'', storlet_execute_on_proxy = False, storlet_container = ''storlet'', storlet_dependency = ''dependency'',
     log_container = ''storletlog'', max_extra_resources = -1, acl_string = None, extra_resources = []\<rparr>"

text \<open>What a resource is to a run: the data of the response to its GET, when the application's answer depends on the request
  only.\<close>

definition resource_data :: "(wsgi_req \<Rightarrow> wsgi_resp res) \<Rightarrow> 'w swift \<Rightarrow> handler \<Rightarrow> string \<Rightarrow> storlet_data res" where
  "resource_data ans sw h x = rbind (ans (sw_subrequest sw (h_request h) ''GET'' x [])) (\<lambda>s.
     storlet_data_of (get_user_metadata (wr_headers s)) (wr_body s) None)"

section \<open>Lemmas\<close>

lemma fold_set_other:
  "(\<And>k v. (k, v) \<in> set hs \<Longrightarrow> P k \<Longrightarrow> f k \<noteq> x) \<Longrightarrow>
   dict_get (foldl (\<lambda>d (k, v). if P k then dict_set (f k) (g v) d else d) d0 hs) x = dict_get d0 x"
  by (induction hs arbitrary: d0) (auto, force+)

lemma fold_set_get:
  assumes "dict_ok hs" "(k, v) \<in> set hs" "P k" "inj_on f {x \<in> fst ` set hs. P x}"
  shows "dict_get (foldl (\<lambda>d (k, v). if P k then dict_set (f k) (g v) d else d) d0 hs) (f k) = Some (g v)"
  using assms
proof (induction hs arbitrary: d0)
  case (Cons kv hs)
  obtain k0 v0 where kv: "kv = (k0, v0)" by (cases kv)
  show ?case
  proof (cases "k = k0")
    case True
    have "k \<notin> fst ` set hs" using Cons.prems(1) True kv by (auto simp: dict_ok_def)
    then have "v = v0" using Cons.prems(2) True kv by force
    moreover have "f k' \<noteq> f k" if "(k', v') \<in> set hs" "P k'" for k' v'
    proof
      assume "f k' = f k"
      moreover have "k' \<in> fst ` set hs" using that(1) by force
      ultimately have "k' = k" using Cons.prems(3,4) that(2) True kv by (auto intro: inj_onD)
      with \<open>k' \<in> fst ` set hs\<close> \<open>k \<notin> fst ` set hs\<close> show False by simp
    qed
    ultimately show ?thesis using Cons.prems(3) True kv by (simp add: fold_set_other)
  next
    case False
    then have "(k, v) \<in> set hs" "dict_ok hs" using Cons.prems(1,2) kv by (auto simp: dict_ok_def)
    moreover have "inj_on f {x \<in> fst ` set hs. P x}" by (rule inj_on_subset [OF Cons.prems(4)]) (auto simp: kv)
    ultimately show ?thesis using Cons.IH Cons.prems(3) kv by simp
  qed
qed simp

lemma dict_ok_augmented: "dict_ok hs \<Longrightarrow> dict_ok (augmented ps hs)"
  unfolding augmented_def by (induction ps arbitrary: hs) auto

lemma dict_get_mem: "dict_get d k = Some v \<Longrightarrow> (k, v) \<in> set d"
  by (simp add: dict_get_def map_of_SomeD)

lemma augmented_get:
  assumes "dict_ok ps" "dict_get ps k = Some v"
  shows "dict_get (augmented ps hs) (''X-Storlet-'' @ k) = Some v"
  using fold_set_get [OF assms(1) dict_get_mem [OF assms(2)], where P = "\<lambda>_. True" and f = "\<lambda>k. ''X-Storlet-'' @ k" and g = "\<lambda>v. v"]
  by (simp add: augmented_def inj_on_def)

lemma split_on_snoc: "c \<notin> set a \<Longrightarrow> split_on c (old @ c # a) = split_on c old @ [a]"
  by (induction old) (auto simp: split_on_no_sep split: list.splits)

lemma option_key_prefix: "\<exists>s. option_key k = ''storlet_'' @ s"
  unfolding option_key_def by blast

lemma options_get:
  assumes "dict_ok (hdr h)" "dict_get (hdr h) k = Some v" "is_option_header k" "inj_on option_key {k \<in> fst ` set (hdr h). is_option_header k}"
  shows "dict_get (get_storlet_invocation_options sw h) (option_key k) = Some (JStr v)"
proof -
  have "option_key k \<notin> {''scope'', ''generate_log'', ''file_manager''}"
    using option_key_prefix [of k] by auto
  then show ?thesis
    using fold_set_get [where P = is_option_header and f = option_key and g = JStr and ?d0.0 = "[]",
        OF assms(1) dict_get_mem [OF assms(2)] assms(3,4)]
    by (simp add: get_storlet_invocation_options_def Let_def)
qed

section \<open>What the handlers rely on in a gateway's request class\<close>

text \<open>A new request carries no extra data and \<open>append\<close> adds one at the end; \<open>extra\<close> reads the list.\<close>

locale gateway_requests =
  fixes gc :: "('r, 'w) gateway_class" and extra :: "'r \<Rightarrow> storlet_data list"
  assumes request_fresh: "gc_request gc sid ps d o1 = Inr r \<Longrightarrow> extra r = []"
    and append_last: "extra (gc_append gc d r) = extra r @ [d]"
begin

lemma add_resources_in_order:
  assumes "en_gateway en = gc" "\<And>q v. fst (sw_app (en_swift en) q v) = ans q" "add_resources en r xs (h, w) = (Inr r', (h', w'))"
  shows "map Inr (extra r') = map Inr (extra r) @ map (\<lambda>x. resource_data ans (en_swift en) h x) xs"
  using assms(3)
proof (induction xs arbitrary: r w)
  case (Cons x xs)
  obtain a w1 where a: "sw_app (en_swift en) (sw_subrequest (en_swift en) (h_request h) ''GET'' x []) w = (a, w1)" by fastforce
  then have "a = ans (sw_subrequest (en_swift en) (h_request h) ''GET'' x [])" using assms(2) by (metis fst_conv)
  with Cons.prems a obtain d where d: "resource_data ans (en_swift en) h x = Inr d"
    "add_resources en (gc_append gc d r) xs (h, w1) = (Inr r', (h', w'))"
    by (auto simp: add_resource_def ebind_def eget_def eworld_def eres_def ereturn_def resource_data_def assms(1)
        split: sum.splits prod.splits)
  from Cons.IH [OF d(2)] d(1) show ?case by (simp add: append_last)
qed (simp add: ereturn_def)

lemma request_has_resources:
  assumes "en_gateway en = gc" "\<And>q v. fst (sw_app (en_swift en) q v) = ans q"
    "proxy_build_storlet_request en sheaders body fp (h, w) = (Inr r, (h', w'))"
  shows "map Inr (extra r) = map (\<lambda>x. resource_data ans (en_swift en) h x) (extra_resources h)"
proof -
  obtain r0 where r0: "build_storlet_request en (proxy_options (en_swift en)) h sheaders body fp = Inr r0"
    "add_resources en r0 (extra_resources h) (h, w) = (Inr r, (h', w'))"
    using assms(3) by (auto simp: proxy_build_storlet_request_def ebind_def eget_def eres_def split: sum.splits prod.splits)
  have "extra r0 = []" using r0(1) assms(1) request_fresh by (auto simp: build_storlet_request_def rbind_Inr_iff Let_def)
  then show ?thesis using add_resources_in_order [OF assms(1,2) r0(2)] by simp
qed

end

interpretation container_requests: gateway_requests "container_gateway ops" "\<lambda>r. extra_data_list (cr_request r)" for ops
  by unfold_locales (auto simp: container_gateway_def ContainerStorletRequest_def StorletRequest_def rbind_Inr_iff Let_def)

interpretation stub_requests: gateway_requests stub_gateway extra_data_list
  by unfold_locales (auto simp: stub_gateway_def StorletRequest_def rbind_Inr_iff Let_def)

section \<open>Properties\<close>

text \<open>C15: The class a storlet was registered with is the class that runs: after the access check has put the parameters of
  the stored object into the request, the container gateway's request names the registered main class and language,
  whatever headers the client sent.\<close>

theorem registered_main_is_run:
  assumes "en_gateway en = container_gateway ops" "hdr h = augmented ps hs" "dict_ok hs" "dict_ok ps"
    "inj_on option_key {k \<in> fst ` set (augmented ps hs). is_option_header k}"
    "dict_get ps ''Main'' = Some main" "dict_get ps ''Language'' = Some lang"
    "build_storlet_request en (proxy_options (en_swift en)) h sheaders body fp = Inr r"
  shows "storlet_main r = main \<and> storlet_language r = lang"
proof -
  have o: "dict_get (get_storlet_invocation_options (en_swift en) h) (option_key (''X-Storlet-'' @ k)) = Some (JStr v)"
    if "dict_get ps k = Some v" "is_option_header (''X-Storlet-'' @ k)" for k v
  proof (rule options_get)
    show "dict_ok (hdr h)" unfolding assms(2) by (rule dict_ok_augmented) (rule assms(3))
    show "dict_get (hdr h) (''X-Storlet-'' @ k) = Some v" unfolding assms(2) by (rule augmented_get) (rule assms(4), rule that(1))
    show "inj_on option_key {k \<in> fst ` set (hdr h). is_option_header k}" unfolding assms(2) by (rule assms(5))
  qed (rule that(2))
  have k: "option_key (''X-Storlet-'' @ ''Main'') = ''storlet_main''" "option_key (''X-Storlet-'' @ ''Language'') = ''storlet_language''"
    "is_option_header (''X-Storlet-'' @ ''Main'')" "is_option_header (''X-Storlet-'' @ ''Language'')" by code_simp+
  obtain d where "ContainerStorletRequest (case dict_get (hdr h) ''X-Run-Storlet'' of None \<Rightarrow> [] | Some s \<Rightarrow> s)
      (map (\<lambda>(k, v). (k, JStr v)) (rq_params (h_request h))) d (Some (get_storlet_invocation_options (en_swift en) h)) None = Inr r"
    using assms(1,8) by (auto simp: build_storlet_request_def proxy_options_def container_gateway_def rbind_Inr_iff)
  moreover note o [OF assms(6) k(3), unfolded k(1)] o [OF assms(7) k(4), unfolded k(2)]
  ultimately show ?thesis
    by (auto simp: ContainerStorletRequest_def StorletRequest_def rbind_Inr_iff Let_def jopt_def)
qed

lemma option_keys_inj:
  "distinct (map option_key (filter is_option_header (map fst hs))) \<Longrightarrow>
   inj_on option_key {k \<in> fst ` set hs. is_option_header k}"
  by (simp add: distinct_map)

theorem registered_main_is_run_witness:
  "\<exists>r. build_storlet_request container_env (proxy_options (en_swift container_env))
      (sample_handler (sample_req ''GET'' ''/v1/AUTH_a/c/o''
        (augmented [(''Main'', ''m.Good''), (''Language'', ''Python'')] [(''X-Run-Storlet'', ''m.py''), (''X-Storlet-Main'', ''m.Evil'')])))
      [] (Chunks [''x'']) None = Inr r \<and> storlet_main r = ''m.Good'' \<and> storlet_language r = ''Python''"
proof -
  let ?hs = "[(''X-Run-Storlet'', ''m.py''), (''X-Storlet-Main'', ''m.Evil'')]"
  let ?ps = "[(''Main'', ''m.Good''), (''Language'', ''Python'')]"
  let ?h = "sample_handler (sample_req ''GET'' ''/v1/AUTH_a/c/o'' (augmented ?ps ?hs))"
  have "case build_storlet_request container_env (proxy_options (en_swift container_env)) ?h [] (Chunks [''x'']) None of Inr _ \<Rightarrow> True | Inl _ \<Rightarrow> False" by code_simp
  then obtain r where r: "build_storlet_request container_env (proxy_options (en_swift container_env)) ?h [] (Chunks [''x'']) None = Inr r"
    by (auto split: sum.splits)
  have "hdr ?h = augmented ?ps ?hs" by (simp add: sample_handler_def sample_req_def)
  moreover have "inj_on option_key {k \<in> fst ` set (augmented ?ps ?hs). is_option_header k}"
    by (rule option_keys_inj) code_simp
  moreover have "dict_ok ?hs" "dict_ok ?ps" by (simp_all add: dict_ok_def)
  moreover have "dict_get ?ps ''Main'' = Some ''m.Good''" "dict_get ?ps ''Language'' = Some ''Python''" by code_simp+
  ultimately have "storlet_main r = ''m.Good'' \<and> storlet_language r = ''Python''"
    using registered_main_is_run [of container_env flow_sample ?h ?ps ?hs "''m.Good''" "''Python''" "[]" "Chunks [''x'']" None r] r
    by (simp add: container_env_def)
  then show ?thesis using r by blast
qed

text \<open>C33: An ACL update adds one entry and touches no other: when the caller may read the container's metadata, the request
  goes on with the old read ACL followed by exactly the entry of this user and storlet.\<close>

theorem acl_update_adds_one:
  assumes "validate_acl_update (en_swift en) h = Inr a" "acl_string h = Some a"
    "sw_app (en_swift en) (sw_subrequest (en_swift en) (h_request h) ''HEAD'' (rq_path (h_request h)) []) w = (Inr sub, w1)"
    "wr_status sub = 204"
  shows "\<exists>acl. proxy_POST en (h, w) = h_app en (set_headers (dict_set ''X-Container-Read'' acl) h, w1) \<and>
    split_on CHR '','' acl = (case dict_get (wr_headers sub) ''X-Container-Read'' of
        None \<Rightarrow> [a] | Some old \<Rightarrow> if old = [] then [a] else split_on CHR '','' old @ [a])"
proof -
  have "CHR '','' \<notin> set a"
    using assms(1) by (auto simp: validate_acl_update_def Let_def split: if_splits sum.splits py_exc.splits)
  then show ?thesis using assms(2-4)
    by (auto simp: proxy_POST_def ebind_def eget_def eworld_def set_header_def emodify_def conf_get_def Let_def
        split_on_no_sep split_on_snoc split: option.splits)
qed

theorem acl_update_adds_one_witness:
  "\<exists>acl. proxy_POST (stub_env (\<lambda>_. sample_response 204 [(''X-Container-Read'', ''.r:*,ann'')]))
      ((sample_handler (sample_req ''POST'' ''/v1/AUTH_a/c'' [(''X-Storlet-Container-Read'', ''bob''), (''X-Storlet-Name'', ''m.py'')]))
        \<lparr>acl_string := Some ''.r:storlets.bob_m.py''\<rparr>, 0) =
     h_app (stub_env (\<lambda>_. sample_response 204 [(''X-Container-Read'', ''.r:*,ann'')]))
      (set_headers (dict_set ''X-Container-Read'' acl)
        ((sample_handler (sample_req ''POST'' ''/v1/AUTH_a/c'' [(''X-Storlet-Container-Read'', ''bob''), (''X-Storlet-Name'', ''m.py'')]))
        \<lparr>acl_string := Some ''.r:storlets.bob_m.py''\<rparr>), 1) \<and> split_on CHR '','' acl = [''.r:*'', ''ann'', ''.r:storlets.bob_m.py'']"
proof -
  let ?h = "(sample_handler (sample_req ''POST'' ''/v1/AUTH_a/c'' [(''X-Storlet-Container-Read'', ''bob''), (''X-Storlet-Name'', ''m.py'')]))
        \<lparr>acl_string := Some ''.r:storlets.bob_m.py''\<rparr>"
  let ?en = "stub_env (\<lambda>_. sample_response 204 [(''X-Container-Read'', ''.r:*,ann'')])"
  have "validate_acl_update (en_swift ?en) ?h = Inr ''.r:storlets.bob_m.py''" by code_simp
  moreover have "acl_string ?h = Some ''.r:storlets.bob_m.py''" by simp
  moreover have "sw_app (en_swift ?en) (sw_subrequest (en_swift ?en) (h_request ?h) ''HEAD'' (rq_path (h_request ?h)) []) 0 =
    (Inr (sample_response 204 [(''X-Container-Read'', ''.r:*,ann'')]), 1)" by (simp add: stub_env_def sample_swift_def)
  moreover have "wr_status (sample_response 204 [(''X-Container-Read'', ''.r:*,ann'')]) = 204" by (simp add: sample_response_def)
  ultimately have "\<exists>acl. proxy_POST ?en (?h, 0) = h_app ?en (set_headers (dict_set ''X-Container-Read'' acl) ?h, 1) \<and>
    split_on CHR '','' acl = (case dict_get (wr_headers (sample_response 204 [(''X-Container-Read'', ''.r:*,ann'')])) ''X-Container-Read'' of
        None \<Rightarrow> [''.r:storlets.bob_m.py''] | Some old \<Rightarrow> if old = [] then [''.r:storlets.bob_m.py''] else split_on CHR '','' old @ [''.r:storlets.bob_m.py''])"
    by (rule acl_update_adds_one)
  then show ?thesis by (simp add: sample_response_def dict_get_def)
qed

text \<open>C34: The extra inputs of a run are the requested resources in the requested order: the request that the proxy builds for
  the container gateway carries, for each of them, the metadata and data of its GET, and nothing else.\<close>

theorem extra_resources_in_order:
  assumes "en_gateway en = container_gateway ops" "\<And>q v. fst (sw_app (en_swift en) q v) = ans q"
    "proxy_build_storlet_request en sheaders body fp (h, w) = (Inr r, (h', w'))"
  shows "map Inr (extra_data_list (cr_request r)) = map (resource_data ans (en_swift en) h) (extra_resources h)"
  by (rule container_requests.request_has_resources [OF assms])

theorem extra_resources_in_order_witness:
  "\<exists>r s. proxy_build_storlet_request container_env [] (Chunks [''x'']) None
      ((sample_handler (sample_req ''GET'' ''/v1/AUTH_a/c/o'' [(''X-Storlet-Main'', ''m.M''), (''X-Storlet-Language'', ''Python'')]))
        \<lparr>extra_resources := [''/v1/AUTH_a/c/1'', ''/v1/AUTH_a/c/2'']\<rparr>, (sample_fs, [])) = (Inr r, s) \<and>
     length (extra_data_list (cr_request r)) = 2"
proof -
  let ?h = "(sample_handler (sample_req ''GET'' ''/v1/AUTH_a/c/o'' [(''X-Storlet-Main'', ''m.M''), (''X-Storlet-Language'', ''Python'')]))
        \<lparr>extra_resources := [''/v1/AUTH_a/c/1'', ''/v1/AUTH_a/c/2'']\<rparr>"
  have "case proxy_build_storlet_request container_env [] (Chunks [''x'']) None (?h, (sample_fs, [])) of (r, _) \<Rightarrow>
      (case r of Inr _ \<Rightarrow> True | Inl _ \<Rightarrow> False)" by code_simp
  then obtain r s where r: "proxy_build_storlet_request container_env [] (Chunks [''x'']) None (?h, (sample_fs, [])) = (Inr r, s)"
    by (cases "proxy_build_storlet_request container_env [] (Chunks [''x'']) None (?h, (sample_fs, []))") (auto split: sum.splits)
  obtain h' w' where s: "s = (h', w')" by (cases s)
  have "map Inr (extra_data_list (cr_request r)) = map (resource_data (\<lambda>_. Inr (sample_response 200 [])) (en_swift container_env) ?h) (extra_resources ?h)"
    by (rule extra_resources_in_order [OF _ _ r [unfolded s]]) (auto simp: container_env_def sample_swift_def)
  then have "length (extra_data_list (cr_request r)) = 2" by (auto simp: map_eq_Cons_conv)
  then show ?thesis using r by blast
qed

end
