(* ===== verification/ObjectServer.thy ===== *)
theory ObjectServer
  imports Proxy
begin

text \<open>
  The Swift middleware, part three: the handler of the object server
  (\<open>storlets/swift_middleware/handlers/obj.py\<close>) and the middleware object that calls the handlers
  (\<open>storlets/swift_middleware/storlet_handler.py\<close>).
\<close>

section \<open>The object server's handler\<close>

definition object_parse_vaco :: "'w swift \<Rightarrow> wsgi_req \<Rightarrow> (string \<times> string \<times> string \<times> string option) res" where
  "object_parse_vaco sw req = rbind (sw_split_path sw (rq_path req) 5 5 True) (\<lambda>segs. case segs of
     [_, _, Some a, Some c, ob] \<Rightarrow> Inr (''0'', a, c, ob) | _ \<Rightarrow> Inl (ValueError ''Invalid path''))"

definition StorletObjectHandler :: "('r, 'w) env \<Rightarrow> wsgi_req \<Rightarrow> 'w \<Rightarrow> handler res \<times> 'w" where
  "StorletObjectHandler en req w =
     (rbind (StorletBaseHandler en (object_parse_vaco (en_swift en)) req) (\<lambda>h.
        if is_storlet_execution h then setup_gateway en h else Inl NotStorletRequest), w)"

definition is_slo_get_request :: "handler \<Rightarrow> bool" where
  "is_slo_get_request h = (dict_get (rq_params (h_request h)) ''multipart-manifest'' = Some ''get'')"

definition obj_is_symlink_response :: "'w swift \<Rightarrow> wsgi_resp \<Rightarrow> bool" where
  "obj_is_symlink_response sw r = dict_has (wr_headers r) (sw_sysmeta sw @ ''Symlink-Target'')"

definition is_ec_response :: "'w swift \<Rightarrow> wsgi_resp \<Rightarrow> bool" where
  "is_ec_response sw r = dict_has (wr_headers r) (sw_sysmeta sw @ ''Ec-Frag-Index'')"

text \<open>The end of the first range, plus one: an open range has no end, and \<open>None + 1\<close> is a \<open>TypeError\<close>.\<close>

definition add_range :: "'w swift \<Rightarrow> handler \<Rightarrow> json dict \<Rightarrow> json dict res" where
  "add_range sw h options =
     (case dict_get (hdr h) ''X-Storlet-Range'' of
        None \<Rightarrow> Inr options
      | Some v \<Rightarrow> rbind (sw_ranges sw v) (\<lambda>rs.
          if length rs > 1 then Inr options
          else (case rs of
             [] \<Rightarrow> Inl IndexError
           | (a, b) # _ \<Rightarrow>
               let o1 = dict_set ''range_start'' (case a of None \<Rightarrow> JNull | Some x \<Rightarrow> JInt x) options in
               (case b of None \<Rightarrow> Inl (TypeError ''unsupported operand type(s) for +'')
                | Some y \<Rightarrow> Inr (dict_set ''range_end'' (JInt (y + 1)) o1)))))"

definition object_options :: "'w swift \<Rightarrow> handler \<Rightarrow> json dict res" where
  "object_options sw h = add_range sw h (get_storlet_invocation_options sw h)"

definition object_call_gateway :: "('r, 'w) env \<Rightarrow> wsgi_resp \<Rightarrow> ('w, storlet_data) h_eff" where
  "object_call_gateway en resp =
     ebind (eget id) (\<lambda>h.
     ebind (eres (build_storlet_request en (object_options (en_swift en)) h (wr_headers resp) (wr_body resp) (wr_fp resp)))
       (h_flow en))"

definition not_runnable :: "'w swift \<Rightarrow> handler \<Rightarrow> wsgi_resp \<Rightarrow> bool res" where
  "not_runnable sw h resp =
     rbind (execute_on_proxy h) (\<lambda>a. rbind (execute_range_on_proxy sw h) (\<lambda>b.
       Inr (a \<or> b \<or> is_slo_get_request h \<or> is_slo_response resp \<or> obj_is_symlink_response sw resp \<or> is_ec_response sw resp)))"

definition object_GET :: "('r, 'w) env \<Rightarrow> ('w, wsgi_resp) h_eff" where
  "object_GET en =
     ebind (eget id) (\<lambda>h.
       if is_range_request h \<and> \<not> is_storlet_range_request h
       then eraise (HTTPException 416 ''Storlet execution with range header is not supported'')
       else
     ebind (h_app en) (\<lambda>orig_resp.
       if \<not> is_success orig_resp then ereturn orig_resp
       else
     ebind (eres (not_runnable (en_swift en) h orig_resp)) (\<lambda>b.
       if b then ereturn orig_resp else apply_storlet (en_swift en) (object_call_gateway en orig_resp) orig_resp)))"

definition object_handle_request :: "('r, 'w) env \<Rightarrow> ('w, wsgi_resp) h_eff" where
  "object_handle_request en =
     ebind (eget (\<lambda>h. rq_method (h_request h))) (\<lambda>m.
       if m = ''GET'' then object_GET en else eraise (HTTPException 405 ''Method Not Allowed''))"

section \<open>The middleware\<close>

datatype exec_server = ExecProxy | ExecObject

definition get_exec_server :: "string \<Rightarrow> exec_server res" where
  "get_exec_server s = (if s = ''proxy'' then Inr ExecProxy else if s = ''object'' then Inr ExecObject
     else Inl (ValueError (''configuration error: execution_server must be either proxy or object but is '' @ s)))"

definition make_handler :: "exec_server \<Rightarrow> ('r, 'w) env \<Rightarrow> wsgi_req \<Rightarrow> 'w \<Rightarrow> handler res \<times> 'w" where
  "make_handler srv en req w = (case srv of ExecProxy \<Rightarrow> StorletProxyHandler en req w
     | ExecObject \<Rightarrow> StorletObjectHandler en req w)"

definition handle_request :: "exec_server \<Rightarrow> ('r, 'w) env \<Rightarrow> ('w, wsgi_resp) h_eff" where
  "handle_request srv en = (case srv of ExecProxy \<Rightarrow> proxy_handle_request en | ExecObject \<Rightarrow> object_handle_request en)"

text \<open>The \<open>except\<close> clauses around \<open>handle_request\<close>.\<close>

definition map_error :: "py_exc \<Rightarrow> py_exc" where
  "map_error e =
     (if e = StorletTimeout then HTTPException 500 ''Storlet execution timed out''
      else if is_StorletRuntimeException e then HTTPException 500 ''Storlet execution failed''
      else if e = EventletTimeout then HTTPException 500 ''Internal request timed out''
      else case e of HTTPException c m \<Rightarrow> e
        | _ \<Rightarrow> if is_Exception e then HTTPException 500 ''Internal server error'' else e)"

text \<open>\<open>__call__\<close> under \<open>wsgify\<close>, which turns an \<open>HTTPException\<close> into the response it is.\<close>

definition wsgify :: "'w swift \<Rightarrow> wsgi_resp res \<Rightarrow> wsgi_resp res" where
  "wsgify sw r = (case r of
     Inl (HTTPException c m) \<Rightarrow> Inr (sw_http_error sw c m)
   | _ \<Rightarrow> r)"

definition middleware_call :: "exec_server \<Rightarrow> ('r, 'w) env \<Rightarrow> wsgi_req \<Rightarrow> 'w \<Rightarrow> wsgi_resp res \<times> 'w" where
  "middleware_call srv en req w =
     (let (r, w') = (case make_handler srv en req w of
        (Inl e, w1) \<Rightarrow> if e = NotStorletRequest \<or> e = NotStorletExecution then sw_app (en_swift en) req w1 else (Inl e, w1)
      | (Inr h, w1) \<Rightarrow> (case handle_request srv en (h, w1) of
           (Inl e, _, w2) \<Rightarrow> (Inl (map_error e), w2) | (Inr resp, _, w2) \<Rightarrow> (Inr resp, w2)))
      in (wsgify (en_swift en) r, w'))"

section \<open>Loading the gateway and building the middleware\<close>

text \<open>\<open>s.rpartition('.')\<close>: the parts before and after the last dot.\<close>

definition rpartition_dot :: "string \<Rightarrow> string \<times> string" where
  "rpartition_dot s = (if CHR ''.'' \<in> set s
     then (rev (tl (dropWhile (\<lambda>x. x \<noteq> CHR ''.'') (rev s))), rev (takeWhile (\<lambda>x. x \<noteq> CHR ''.'') (rev s))) else ([], s))"

text \<open>\<open>driver\<close> is stevedore's look-up of an entry point, \<open>imports\<close> is \<open>__import__\<close> followed by the look-up in
  \<open>sys.modules\<close>; a module gives its attributes. A class comes with its \<open>__name__\<close>.\<close>

definition load_gateway :: "(string \<Rightarrow> 'g res) \<Rightarrow> (string \<Rightarrow> (string \<Rightarrow> 'g res) res) \<Rightarrow> string \<Rightarrow> 'g res" where
  "load_gateway driver imports name =
     (case driver name of
        Inl (RuntimeError _) \<Rightarrow>
          (case rpartition_dot name of (mod_str, class_str) \<Rightarrow>
             if mod_str = [] then Inl (StorletGatewayLoadError (''Invalid class path is given for gateway class name '' @ name))
             else (case rbind (imports mod_str) (\<lambda>getattr. getattr class_str) of
                     Inl ImportError \<Rightarrow> Inl (StorletGatewayLoadError (''Failed to load gateway '' @ name))
                   | Inl (AttributeError _) \<Rightarrow> Inl (StorletGatewayLoadError (''Failed to load gateway '' @ name))
                   | r \<Rightarrow> r))
      | r \<Rightarrow> r)"

definition StorletHandlerMiddleware :: "string dict \<Rightarrow> string dict \<Rightarrow> ('r, 'w) gateway_class \<Rightarrow> 'w swift \<Rightarrow> (exec_server \<times> ('r, 'w) env) res" where
  "StorletHandlerMiddleware conf gateway_conf gc sw =
     rbind (get_exec_server (conf_get conf ''execution_server'' ''None'')) (\<lambda>srv.
       Inr (srv, \<lparr>en_swift = sw, en_gateway = gc, en_conf = conf, en_gateway_conf = gateway_conf\<rparr>))"

text \<open>\<open>read_conf\<close> reads the \<open>DEFAULT\<close> section of a file. The class in \<open>conf['gateway_module']\<close> is the field
  \<open>en_gateway\<close>. The result is what is registered with Swift and the function that wraps an application.\<close>

definition filter_factory ::
  "(string \<Rightarrow> (string \<times> ('r, 'w) gateway_class) res) \<Rightarrow> (string \<Rightarrow> (string \<Rightarrow> (string \<times> ('r, 'w) gateway_class) res) res) \<Rightarrow>
   (string \<Rightarrow> string dict) \<Rightarrow> string dict \<Rightarrow> string dict \<Rightarrow> (string dict \<times> ('w swift \<Rightarrow> (exec_server \<times> ('r, 'w) env) res)) res" where
  "filter_factory driver imports read_conf global_conf local_conf =
     (let conf = dict_update global_conf local_conf in
      rbind (load_gateway driver imports (conf_get conf ''storlet_gateway_module'' ''stub'')) (\<lambda>(cls_name, gc).
        let gateway_conf = read_conf (conf_get conf ''storlet_gateway_conf'' ''/etc/swift/storlet_stub_gateway.conf'');
            (st, dep, lg) = container_names conf
        in Inr ([(''storlet_container'', st), (''storlet_dependency'', dep), (''storlet_gateway_class'', cls_name)],
                StorletHandlerMiddleware conf gateway_conf gc)))"

section \<open>Lemmas\<close>

text \<open>A gateway is loaded or the error says so, whatever the name is, when the look-ups fail only in the documented ways.\<close>

lemma load_gateway_result:
  assumes "\<And>n e. driver n = Inl e \<Longrightarrow> \<exists>m. e = RuntimeError m"
    "\<And>md e. imports md = Inl e \<Longrightarrow> e = ImportError" "\<And>md g c e. imports md = Inr g \<Longrightarrow> g c = Inl e \<Longrightarrow> \<exists>m. e = AttributeError m"
  shows "(\<exists>g. load_gateway driver imports name = Inr g) \<or> (\<exists>m. load_gateway driver imports name = Inl (StorletGatewayLoadError m))"
proof (cases "driver name")
  case (Inl e)
  then obtain m where e: "driver name = Inl (RuntimeError m)" using assms(1) by blast
  obtain md c where p: "rpartition_dot name = (md, c)" by fastforce
  show ?thesis
  proof (cases "imports md")
    case (Inl e')
    then have "imports md = Inl ImportError" using assms(2) by blast
    then show ?thesis using e p by (simp add: load_gateway_def rbind_def)
  next
    case (Inr g)
    show ?thesis
    proof (cases "g c")
      case (Inl e')
      then obtain x where "g c = Inl (AttributeError x)" using assms(3) [OF Inr] by blast
      then show ?thesis using e p Inr by (simp add: load_gateway_def rbind_def)
    qed (use e p Inr in \<open>simp add: load_gateway_def rbind_def\<close>)
  qed
qed (simp add: load_gateway_def)

text \<open>A class path is taken apart at its last dot.\<close>

lemma rpartition_dot_path: "CHR ''.'' \<notin> set c \<Longrightarrow> rpartition_dot (m @ ''.'' @ c) = (m, c)"
proof -
  assume "CHR ''.'' \<notin> set c"
  then have "x \<in> set (rev c) \<Longrightarrow> x \<noteq> CHR ''.''" for x by auto
  then have "dropWhile (\<lambda>x. x \<noteq> CHR ''.'') (rev c @ CHR ''.'' # rev m) = CHR ''.'' # rev m"
    "takeWhile (\<lambda>x. x \<noteq> CHR ''.'') (rev c @ CHR ''.'' # rev m) = rev c"
    by (subst dropWhile_append2 takeWhile_append2, blast, simp)+
  then show ?thesis by (simp add: rpartition_dot_def)
qed

lemma contains_append: "p \<noteq> [] \<Longrightarrow> contains p (a @ p @ b)"
proof (induction a)
  case Nil
  then show ?case using startswith_append [of p b] by (cases "p @ b") auto
qed auto

lemma same_decision:
  assumes "hdr hp = hdr ho" "storlet_execute_on_proxy hp = storlet_execute_on_proxy ho"
  shows "execute_on_proxy hp = execute_on_proxy ho" "execute_range_on_proxy sw hp = execute_range_on_proxy sw ho"
proof -
  show e: "execute_on_proxy hp = execute_on_proxy ho"
    using assms by (simp add: execute_on_proxy_def has_run_on_proxy_header_def has_extra_resources_header_def)
  show "execute_range_on_proxy sw hp = execute_range_on_proxy sw ho"
    unfolding execute_range_on_proxy_def is_storlet_multiple_range_request_def is_storlet_range_request_def e assms(1) ..
qed

section \<open>Properties\<close>

text \<open>C35: Once its handler exists the middleware always answers: whatever the run of a storlet, Swift or a malformed
  header raises, the caller gets a response. Only what is no \<open>Exception\<close> of Python passes.\<close>

theorem handled_request_is_answered:
  assumes "make_handler srv en req w = (Inr h, w1)" "handle_request srv en (h, w1) = (r, h', w2)"
    "\<And>e. r = Inl e \<Longrightarrow> is_Exception e \<or> e = EventletTimeout" "\<And>c m. wr_status (sw_http_error (en_swift en) c m) = c"
  shows "\<exists>resp. middleware_call srv en req w = (Inr resp, w2) \<and> (\<forall>x. r = Inr x \<longrightarrow> resp = x) \<and>
    (\<forall>e. r = Inl e \<longrightarrow> (case e of HTTPException c m \<Rightarrow> wr_status resp = c | _ \<Rightarrow> wr_status resp = 500))"
proof (cases r)
  case (Inr x)
  then show ?thesis using assms by (auto simp: middleware_call_def wsgify_def)
next
  case (Inl e)
  have "\<exists>c m. map_error e = HTTPException c m \<and> (case e of HTTPException c' m' \<Rightarrow> c = c' | _ \<Rightarrow> c = 500)"
    using assms(3) [OF Inl] by (cases e) (auto simp: map_error_def is_Exception_def is_StorletRuntimeException_def)
  then obtain c m where m: "map_error e = HTTPException c m" "case e of HTTPException c' m' \<Rightarrow> c = c' | _ \<Rightarrow> c = 500" by blast
  then show ?thesis using assms(1,2,4) Inl
    by (cases e) (auto simp: middleware_call_def wsgify_def)
qed

theorem handled_request_is_answered_witness:
  "\<exists>resp w. middleware_call ExecObject (stub_env (\<lambda>_. sample_response 200 []))
      (sample_req ''PUT'' ''/sda/0/AUTH_a/c/o'' [(''X-Run-Storlet'', ''m.py'')]) 0 = (Inr resp, w) \<and> wr_status resp = 405"
proof -
  let ?en = "stub_env (\<lambda>_. sample_response 200 [])"
  let ?req = "sample_req ''PUT'' ''/sda/0/AUTH_a/c/o'' [(''X-Run-Storlet'', ''m.py'')]"
  have "case make_handler ExecObject ?en ?req 0 of (Inr h, w1) \<Rightarrow>
     (case handle_request ExecObject ?en (h, w1) of (r, _, _) \<Rightarrow> (case r of Inl e \<Rightarrow> e = HTTPException 405 ''Method Not Allowed'' | Inr _ \<Rightarrow> False))
     | _ \<Rightarrow> False" by code_simp
  then obtain h w1 where m: "make_handler ExecObject ?en ?req 0 = (Inr h, w1)"
    and "case handle_request ExecObject ?en (h, w1) of (r, _, _) \<Rightarrow>
      (case r of Inl e \<Rightarrow> e = HTTPException 405 ''Method Not Allowed'' | Inr _ \<Rightarrow> False)"
    by (cases "make_handler ExecObject ?en ?req 0"; cases "fst (make_handler ExecObject ?en ?req 0)") auto
  then obtain h' w2 where r: "handle_request ExecObject ?en (h, w1) = (Inl (HTTPException 405 ''Method Not Allowed''), h', w2)"
    by (cases "handle_request ExecObject ?en (h, w1)") (auto split: sum.splits)
  show ?thesis using handled_request_is_answered [OF m r] by (auto simp: is_Exception_def stub_env_def sample_swift_def)
qed

text \<open>Requests that are not about storlets pass untouched: without the run header, outside the storlet containers and
  with no ACL header, the proxy middleware hands exactly the incoming request to the application and returns its answer.\<close>

theorem other_requests_untouched:
  assumes "StorletBaseHandler en (proxy_parse_vaco (en_swift en)) req = Inr h0" "should_block req = Inr ()"
    "py_int (conf_get (en_conf en) ''max_extra_resources'' ''-1'') = Inr mx"
    "\<not> dict_has (rq_headers req) ''X-Run-Storlet''" "\<not> dict_has (rq_headers req) ''X-Storlet-Container-Read''"
    "h_container h0 \<notin> {storlet_container h0, storlet_dependency h0}"
  shows "middleware_call ExecProxy en req w = (case sw_app (en_swift en) req w of (r, w') \<Rightarrow> (wsgify (en_swift en) r, w'))"
proof -
  have "h_request h0 = req"
    using assms(1) by (auto simp: StorletBaseHandler_def set_request_def Let_def container_names_def split: sum.splits)
  then have "\<not> is_storlet_request (h0\<lparr>max_extra_resources := mx\<rparr>)" using assms(4-6)
    by (auto simp: is_storlet_request_def is_storlet_execution_def is_storlet_object_update_def is_storlet_acl_update_def storlet_containers_def)
  then show ?thesis using assms(1-3)
    by (simp add: middleware_call_def make_handler_def StorletProxyHandler_def)
qed

theorem other_requests_untouched_witness:
  "middleware_call ExecProxy (stub_env (\<lambda>r. sample_response 200 (rq_headers r))) (sample_req ''GET'' ''/v1/AUTH_a/c/o'' [(''Accept'', ''*'')]) 0 =
     (Inr (sample_response 200 [(''Accept'', ''*'')]), 1)"
proof -
  let ?en = "stub_env (\<lambda>r. sample_response 200 (rq_headers r))"
  let ?req = "sample_req ''GET'' ''/v1/AUTH_a/c/o'' [(''Accept'', ''*'')]"
  have "case StorletBaseHandler ?en (proxy_parse_vaco (en_swift ?en)) ?req of Inr h \<Rightarrow>
      h_container h \<notin> {storlet_container h, storlet_dependency h} | Inl _ \<Rightarrow> False" by code_simp
  then obtain h where h: "StorletBaseHandler ?en (proxy_parse_vaco (en_swift ?en)) ?req = Inr h"
    "h_container h \<notin> {storlet_container h, storlet_dependency h}" by (auto split: sum.splits)
  have "should_block ?req = Inr ()" "py_int (conf_get (en_conf ?en) ''max_extra_resources'' ''-1'') = Inr (-1)"
    "\<not> dict_has (rq_headers ?req) ''X-Run-Storlet''" "\<not> dict_has (rq_headers ?req) ''X-Storlet-Container-Read''" by code_simp+
  from other_requests_untouched [OF h(1) this h(2), of 0] show ?thesis
    by (simp add: stub_env_def sample_swift_def sample_req_def wsgify_def)
qed

text \<open>C10: No storlet runs and no object is read or written for a caller who may not read the storlet: when the check of the
  storlet object fails, GET, PUT and COPY end with 401 right after that one request to Swift.\<close>

theorem run_requires_access:
  assumes "sw_app (en_swift en) (verify_request (en_swift en) h) w = (Inr resp, w1)" "\<not> is_success resp"
    "rq_method (h_request h) = ''GET'' \<and> \<not> is_range_request h \<or> rq_method (h_request h) = ''PUT'' \<or>
     rq_method (h_request h) = ''COPY'' \<and> conf_get (hdr h) ''Destination'' [] \<noteq> []"
  shows "\<exists>m. proxy_handle_request en (h, w) = (Inl (HTTPException 401 m), (h, w1))"
proof -
  have "\<exists>m. verify_access_to_storlet en (h, w) = (Inl (HTTPException 401 m), (h, w1))"
    using assms(1,2) by (simp add: verify_access_to_storlet_def ebind_def eget_def eworld_def eraise_def)
  then show ?thesis using assms(3)
    by (auto simp: proxy_handle_request_def proxy_GET_def proxy_PUT_def proxy_COPY_def ebind_def [of "eget _"] eget_def)
      (auto simp: ebind_def)
qed

theorem run_requires_access_witness:
  "\<exists>m. proxy_handle_request (stub_env (\<lambda>_. sample_response 404 []))
      (sample_handler (sample_req ''GET'' ''/v1/AUTH_a/c/o'' [(''X-Run-Storlet'', ''m.py'')]), 0) =
     (Inl (HTTPException 401 m), (sample_handler (sample_req ''GET'' ''/v1/AUTH_a/c/o'' [(''X-Run-Storlet'', ''m.py'')]), 1))"
  by (rule run_requires_access [where resp = "sample_response 404 []"])
    (simp_all add: stub_env_def sample_swift_def is_success_def sample_response_def sample_handler_def sample_req_def
      is_range_request_def dict_has_def dict_get_def)

text \<open>C36: The internal referer, which opens a container to one storlet, cannot come from outside: a request whose referer
  contains the prefix is refused with 403 and never reaches Swift.\<close>

theorem internal_referer_refused:
  assumes "StorletBaseHandler en (proxy_parse_vaco (en_swift en)) req = Inr h0"
    "py_int (conf_get (en_conf en) ''max_extra_resources'' ''-1'') = Inr mx"
    "dict_get (rq_headers req) ''Referer'' = Some (a @ REFERER_PREFIX @ b)"
    "\<And>c m. wr_status (sw_http_error (en_swift en) c m) = c"
  shows "\<exists>resp. middleware_call ExecProxy en req w = (Inr resp, w) \<and> wr_status resp = 403"
proof -
  have "REFERER_PREFIX \<noteq> []" by (simp add: REFERER_PREFIX_def)
  then have "should_block req = Inl (HTTPException 403 (''Referrer containing '' @ REFERER_PREFIX @ '' is not allowed''))"
    using assms(3) by (simp add: should_block_def contains_append)
  then show ?thesis using assms(1,2,4)
    by (simp add: middleware_call_def make_handler_def StorletProxyHandler_def wsgify_def)
qed

theorem internal_referer_refused_witness:
  "\<exists>resp. middleware_call ExecProxy (stub_env (\<lambda>_. sample_response 200 []))
      (sample_req ''GET'' ''/v1/AUTH_a/c/o'' [(''X-Run-Storlet'', ''m.py''), (''Referer'', ''//storlets.bob_m.py'')]) 0 = (Inr resp, 0) \<and>
     wr_status resp = 403"
proof -
  let ?en = "stub_env (\<lambda>_. sample_response 200 [])"
  let ?req = "sample_req ''GET'' ''/v1/AUTH_a/c/o'' [(''X-Run-Storlet'', ''m.py''), (''Referer'', ''//storlets.bob_m.py'')]"
  have "case StorletBaseHandler ?en (proxy_parse_vaco (en_swift ?en)) ?req of Inr h \<Rightarrow> True | Inl _ \<Rightarrow> False" by code_simp
  then obtain h where h: "StorletBaseHandler ?en (proxy_parse_vaco (en_swift ?en)) ?req = Inr h" by (auto split: sum.splits)
  have "py_int (conf_get (en_conf ?en) ''max_extra_resources'' ''-1'') = Inr (-1)"
    "dict_get (rq_headers ?req) ''Referer'' = Some (''//'' @ REFERER_PREFIX @ ''.bob_m.py'')" by code_simp+
  from internal_referer_refused [OF h this] show ?thesis by (simp add: stub_env_def sample_swift_def)
qed



text \<open>The data of an erasure-coded object reaches the client without the storlet, unless the execution on the proxy is
  asked for: the object server declines because it only has a fragment, and the proxy does not look for that.\<close>

theorem ec_object_runs_nowhere:
  assumes "is_ec_response sw ro" "execute_on_proxy ho = Inr False" "is_storlet_multiple_range_request sw ho = Inr False"
    "hdr hp = hdr ho" "storlet_execute_on_proxy hp = storlet_execute_on_proxy ho" "\<not> is_slo_response rp" "\<not> is_symlink_response rp"
  shows "not_runnable sw ho ro = Inr True \<and> is_proxy_runnable sw hp (Some rp) = Inr False"
proof -
  have "execute_range_on_proxy sw ho = Inr False" using assms(2,3) by (simp add: execute_range_on_proxy_def)
  moreover note same_decision(1) [OF assms(4,5)] same_decision(2) [OF assms(4,5), of sw]
  ultimately show ?thesis using assms by (simp add: not_runnable_def is_proxy_runnable_def)
qed

theorem ec_object_runs_nowhere_witness:
  "not_runnable (sample_swift Suc (\<lambda>_. sample_response 200 []))
      (sample_handler (sample_req ''GET'' ''/sda/0/AUTH_a/c/o'' [(''X-Run-Storlet'', ''m.py'')]))
      (sample_response 200 [(''X-Object-Sysmeta-Ec-Frag-Index'', ''0'')]) = Inr True \<and>
   is_proxy_runnable (sample_swift Suc (\<lambda>_. sample_response 200 []))
      (sample_handler (sample_req ''GET'' ''/v1/AUTH_a/c/o'' [(''X-Run-Storlet'', ''m.py'')])) (Some (sample_response 200 [])) = Inr False"
  by (rule ec_object_runs_nowhere) code_simp+

text \<open>A parameter header without a colon is not answered at all: the constructor of the handler raises
  \<open>ValueError\<close> before the clauses that turn errors into responses.\<close>

theorem bad_parameter_escapes:
  assumes "StorletBaseHandler en (object_parse_vaco (en_swift en)) req = Inr h" "is_storlet_execution h"
    "gc_init (en_gateway en) (en_gateway_conf en) (scope h) = Inr ()"
    "parameter_headers (rq_headers req) = (k, v) # rest" "CHR '':'' \<notin> set (unquote v)"
  shows "\<exists>m. middleware_call ExecObject en req w = (Inl (ValueError m), w)"
proof -
  have "h_request h = req"
    using assms(1) by (auto simp: StorletBaseHandler_def set_request_def Let_def container_names_def split: sum.splits)
  then have "\<exists>m. setup_gateway en h = Inl (ValueError m)" using assms(3-5)
    by (auto simp: setup_gateway_def update_storlet_parameters_from_headers_def parse_parameters_def split_once_def)
  then show ?thesis using assms(1,2)
    by (auto simp: middleware_call_def make_handler_def StorletObjectHandler_def wsgify_def)
qed

theorem bad_parameter_escapes_witness:
  "\<exists>m. middleware_call ExecObject (stub_env (\<lambda>_. sample_response 200 []))
      (sample_req ''GET'' ''/sda/0/AUTH_a/c/o'' [(''X-Run-Storlet'', ''m.py''), (''X-Storlet-Parameter-1'', ''flag'')]) 0 = (Inl (ValueError m), 0)"
proof -
  let ?en = "stub_env (\<lambda>_. sample_response 200 [])"
  let ?req = "sample_req ''GET'' ''/sda/0/AUTH_a/c/o'' [(''X-Run-Storlet'', ''m.py''), (''X-Storlet-Parameter-1'', ''flag'')]"
  have "case StorletBaseHandler ?en (object_parse_vaco (en_swift ?en)) ?req of Inr h \<Rightarrow> is_storlet_execution h | Inl _ \<Rightarrow> False" by code_simp
  then obtain h where h: "StorletBaseHandler ?en (object_parse_vaco (en_swift ?en)) ?req = Inr h" "is_storlet_execution h"
    by (auto split: sum.splits)
  have "gc_init (en_gateway ?en) (en_gateway_conf ?en) (scope h) = Inr ()" by (simp add: stub_env_def stub_gateway_def)
  moreover have "parameter_headers (rq_headers ?req) = [(''X-Storlet-Parameter-1'', ''flag'')]" "CHR '':'' \<notin> set (unquote ''flag'')"
    by code_simp+
  ultimately show ?thesis by (rule bad_parameter_escapes [OF h])
qed

end
