(* ===== verification/Tools.thy ===== *)
theory Tools
  imports ObjectServer
begin

text \<open>
  The deployment tools (\<open>storlets/tools/\<close>): the cluster configuration (\<open>cluster_config_parser.py\<close>), the uploads
  (\<open>utils.py\<close>) and the dialogue (\<open>deploy_storlet.py\<close>). The console is the list of the lines still to be read and of the lines
  printed; \<open>swiftclient\<close>, the local files and \<open>zipfile\<close> are parameters. A failed \<open>assert\<close> is \<open>PlainException\<close>.
\<close>

section \<open>Configuration\<close>

record cluster_config =
  cc_conf :: "string dict"
  cc_auth_version :: string

text \<open>\<open>options\<close> are the options of the section \<open>general\<close> and \<open>value\<close> is \<open>config.get('general', option)\<close>.\<close>

definition ClusterConfig :: "string list \<Rightarrow> (string \<Rightarrow> string) \<Rightarrow> cluster_config" where
  "ClusterConfig options val = \<lparr>cc_conf = foldl (\<lambda>d k. dict_set k (val k) d) [] options, cc_auth_version = ''3''\<rparr>"

definition cc_item :: "string \<Rightarrow> cluster_config \<Rightarrow> string res" where
  "cc_item k c = (case dict_get (cc_conf c) k of None \<Rightarrow> Inl (KeyError k) | Some v \<Rightarrow> Inr v)"

definition domain_name :: "cluster_config \<Rightarrow> string res" where "domain_name = cc_item ''keystone_default_domain''"
definition auth_uri :: "cluster_config \<Rightarrow> string res" where "auth_uri = cc_item ''keystone_public_url''"
definition project_name :: "cluster_config \<Rightarrow> string res" where "project_name = cc_item ''storlets_default_project_name''"
definition admin_user :: "cluster_config \<Rightarrow> string res" where "admin_user = cc_item ''storlets_default_project_user_name''"
definition admin_password :: "cluster_config \<Rightarrow> string res" where "admin_password = cc_item ''storlets_default_project_user_password''"
definition member_user :: "cluster_config \<Rightarrow> string res" where "member_user = cc_item ''storlets_default_project_member_user''"
definition member_password :: "cluster_config \<Rightarrow> string res" where
  "member_password = cc_item ''storlets_default_project_member_password''"
definition cc_region :: "cluster_config \<Rightarrow> string" where "cc_region c = conf_get (cc_conf c) ''region'' []"
definition dependency_container :: "cluster_config \<Rightarrow> string res" where "dependency_container = cc_item ''storlet_dependency''"
definition cc_storlet_container :: "cluster_config \<Rightarrow> string res" where "cc_storlet_container = cc_item ''storlet_container''"
definition gateway_module :: "cluster_config \<Rightarrow> string res" where "gateway_module = cc_item ''storlets_gateway_module''"

section \<open>Uploads\<close>

record console =
  co_in :: "string list"
  co_out :: "string list"

text \<open>\<open>dp_put\<close> uploads content under headers and answers with the status that swiftclient stores, if any; \<open>dp_auth\<close> is
  \<open>client.get_auth\<close> with the user, password, options and version; \<open>dp_zip\<close> lists the names in an archive.\<close>

record 'w deploy_ops =
  dp_open :: "string \<Rightarrow> string res"
  dp_put :: "string \<Rightarrow> string \<Rightarrow> string \<Rightarrow> string \<Rightarrow> string \<Rightarrow> string dict \<Rightarrow> 'w \<Rightarrow> int option res \<times> 'w"
  dp_auth :: "string \<Rightarrow> string \<Rightarrow> string \<Rightarrow> string dict \<Rightarrow> string \<Rightarrow> 'w \<Rightarrow> (string \<times> string) res \<times> 'w"
  dp_zip :: "string \<Rightarrow> string list res"

type_synonym ('w, 'a) dp_eff = "(console \<times> 'w, 'a) eff"

definition path_basename :: "string \<Rightarrow> string" where
  "path_basename p = rev (takeWhile (\<lambda>c. c \<noteq> CHR ''/'') (rev p))"

definition put_local_file :: "'w deploy_ops \<Rightarrow> string \<Rightarrow> string \<Rightarrow> string \<Rightarrow> string \<Rightarrow> string \<Rightarrow> string dict \<Rightarrow> ('w, unit) dp_eff" where
  "put_local_file ops url token container local_dir local_file headers =
     ebind (eres (dp_open ops (path_join local_dir local_file))) (\<lambda>f.
     ebind (eworld (dp_put ops url token container local_file f headers)) (\<lambda>st.
       if (case st of None \<Rightarrow> 0 | Some c \<Rightarrow> c) div 100 = 2 then ereturn () else eraise (PlainException ''AssertionError'')))"

definition storlet_headers :: "string \<Rightarrow> string \<Rightarrow> string \<Rightarrow> string option \<Rightarrow> string dict" where
  "storlet_headers deps main_class language version =
     (let h0 = [(''X-Object-Meta-Storlet-Language'', language), (''X-Object-Meta-Storlet-Interface-Version'', ''1.0''),
                (''X-Object-Meta-Storlet-Object-Metadata'', ''no''), (''X-Object-Meta-Storlet-Main'', main_class)];
          h1 = (if deps \<noteq> [] then dict_set ''X-Object-Meta-Storlet-Dependency'' deps h0 else h0)
      in case version of None \<Rightarrow> h1
         | Some v \<Rightarrow> if v \<noteq> [] \<and> lower language = ''python'' then dict_set ''X-Object-Meta-Storlet-Language-Version'' v h1 else h1)"

definition put_storlet_object ::
  "'w deploy_ops \<Rightarrow> string \<Rightarrow> string \<Rightarrow> string \<Rightarrow> string \<Rightarrow> string \<Rightarrow> string \<Rightarrow> string option \<Rightarrow> ('w, unit) dp_eff" where
  "put_storlet_object ops url token storlet deps main_class language version =
     put_local_file ops url token ''storlet'' (path_dirname storlet) (path_basename storlet)
       (storlet_headers deps main_class language version)"

definition dependency_headers :: "string dict" where
  "dependency_headers = [(''X-Object-Meta-Storlet-Dependency-Version'', ''1''), (''X-Object-Meta-Storlet-Dependency-Permissions'', ''0755'')]"

definition put_storlet_executable_dependencies :: "'w deploy_ops \<Rightarrow> string \<Rightarrow> string \<Rightarrow> string list \<Rightarrow> ('w, unit) dp_eff" where
  "put_storlet_executable_dependencies ops url token deps =
     eiter (\<lambda>dep. put_local_file ops url token ''dependency'' (path_dirname dep) (path_basename dep) dependency_headers) deps"

definition deploy_storlet ::
  "'w deploy_ops \<Rightarrow> string \<Rightarrow> string \<Rightarrow> string \<Rightarrow> string \<Rightarrow> string list \<Rightarrow> string \<Rightarrow> string option \<Rightarrow> ('w, unit) dp_eff" where
  "deploy_storlet ops url token storlet main_class deps language version =
     ebind (put_storlet_object ops url token storlet (join_with '','' (map path_basename deps)) main_class language version) (\<lambda>_.
       put_storlet_executable_dependencies ops url token deps)"

definition get_auth :: "'w deploy_ops \<Rightarrow> cluster_config \<Rightarrow> string \<Rightarrow> string \<Rightarrow> ('w, string \<times> string) dp_eff" where
  "get_auth ops conf user passwd =
     ebind (eres (auth_uri conf)) (\<lambda>uri.
     ebind (eres (project_name conf)) (\<lambda>project.
     ebind (eres (domain_name conf)) (\<lambda>domain.
       eworld (dp_auth ops uri (project @ '':'' @ user) passwd
         [(''user_domain_name'', domain), (''project_name'', project), (''region_name'', cc_region conf)] (cc_auth_version conf)))))"

definition get_admin_auth :: "'w deploy_ops \<Rightarrow> cluster_config \<Rightarrow> ('w, string \<times> string) dp_eff" where
  "get_admin_auth ops conf = ebind (eres (admin_user conf)) (\<lambda>u. ebind (eres (admin_password conf)) (\<lambda>p. get_auth ops conf u p))"

definition get_member_auth :: "'w deploy_ops \<Rightarrow> cluster_config \<Rightarrow> ('w, string \<times> string) dp_eff" where
  "get_member_auth ops conf = ebind (eres (member_user conf)) (\<lambda>u. ebind (eres (member_password conf)) (\<lambda>p. get_auth ops conf u p))"

section \<open>The dialogue\<close>

definition dp_print :: "string \<Rightarrow> ('w, unit) dp_eff" where
  "dp_print m = emodify (\<lambda>c. c\<lparr>co_out := co_out c @ [m]\<rparr>)"

text \<open>\<open>sys.stdin.readline().rstrip()\<close>; at the end of the input a line is empty.\<close>

definition read_line :: "('w, string) dp_eff" where
  "read_line s = (case co_in (fst s) of [] \<Rightarrow> (Inr [], s)
     | x # xs \<Rightarrow> (Inr (rstrip x), ((fst s)\<lparr>co_in := xs\<rparr>, snd s)))"

definition until_blank :: "string list \<Rightarrow> string list" where
  "until_blank ls = takeWhile (\<lambda>x. x \<noteq> []) (map rstrip ls)"

definition read_lines :: "('w, string list) dp_eff" where
  "read_lines s = (let v = until_blank (co_in (fst s)) in
     (Inr v, ((fst s)\<lparr>co_in := drop (length v + 1) (co_in (fst s))\<rparr>, snd s)))"

definition CLS_SUFFIX :: string where "CLS_SUFFIX = ''.class''"

definition list_classes :: "'w deploy_ops \<Rightarrow> string \<Rightarrow> ('w, unit) dp_eff" where
  "list_classes ops storlet_file =
     ebind (dp_print ''Your jar file contains the following classes:'') (\<lambda>_.
     ebind (eres (dp_zip ops storlet_file)) (\<lambda>names.
       eiter (\<lambda>n. if endswith n CLS_SUFFIX
         then dp_print ([CHR 0x09] @ ''* '' @ replace_char CHR ''/'' CHR ''.'' (take (length n - length CLS_SUFFIX) n)) else ereturn ()) names))"

text \<open>\<open>s.title()\<close>: the first letter of each run of letters in upper case, the others in lower case.\<close>

definition is_letter :: "char \<Rightarrow> bool" where
  "is_letter c = (let n = (of_char c :: nat) in 65 \<le> n \<and> n \<le> 90 \<or> 97 \<le> n \<and> n \<le> 122)"

definition upper_char :: "char \<Rightarrow> char" where
  "upper_char c = (let n = (of_char c :: nat) in if 97 \<le> n \<and> n \<le> 122 then char_of (n - 32) else c)"

fun title_aux :: "bool \<Rightarrow> string \<Rightarrow> string" where
  "title_aux inside [] = []"
| "title_aux inside (c # cs) = (if inside then lower_char c else upper_char c) # title_aux (is_letter c) cs"

definition title :: "string \<Rightarrow> string" where "title s = title_aux False s"

text \<open>\<open>StdinReader\<close> and the messages of the dialogue for each language. Only readers of one line have a callback.\<close>

datatype answer = OneLine string | Lines "string list"

record 'w stdin_reader =
  rd_key :: string
  run_once :: bool
  callback :: "(string \<Rightarrow> ('w, unit) dp_eff) option"

definition StdinReader :: "string \<Rightarrow> bool \<Rightarrow> (string \<Rightarrow> ('w, unit) dp_eff) option \<Rightarrow> 'w stdin_reader" where
  "StdinReader key once cb = \<lparr>rd_key = key, run_once = once, callback = cb\<rparr>"

definition reader_call :: "'w stdin_reader \<Rightarrow> ('w, answer) dp_eff" where
  "reader_call rd =
     (if run_once rd then
        ebind read_line (\<lambda>l. ebind (case callback rd of None \<Rightarrow> ereturn () | Some cb \<Rightarrow> cb l) (\<lambda>_. ereturn (OneLine l)))
      else ebind read_lines (\<lambda>ls. ereturn (Lines ls)))"

definition MESSAGES :: "'w deploy_ops \<Rightarrow> (string \<times> (string \<times> 'w stdin_reader) list) list" where
  "MESSAGES ops =
     [(''Java'',
        [(''Enter absolute path to storlet jar file: '', StdinReader ''storlet'' True (Some (list_classes ops))),
         (''Please enter fully qualified storlet main class (choose from the list above): '', StdinReader ''storlet_main_class'' True None),
         (''Please enter dependency files (leave a blank line when you are done):'', StdinReader ''dependencies'' False None)]),
      (''Python'',
        [(''Enter absolute path to storlet file: '', StdinReader ''storlet'' True None),
         (''Please enter fully qualified storlet main class <filename.ClassName>: '', StdinReader ''storlet_main_class'' True None),
         (''Please enter dependency files (leave a blank line when you are done): '', StdinReader ''dependencies'' False None)])]"

fun dialogue :: "(string \<times> 'w stdin_reader) list \<Rightarrow> answer dict \<Rightarrow> ('w, answer dict) dp_eff" where
  "dialogue [] options = ereturn options"
| "dialogue ((m, rd) # ms) options =
     ebind (dp_print m) (\<lambda>_. ebind (reader_call rd) (\<lambda>v. dialogue ms (dict_set (rd_key rd) v options)))"

definition usage :: "('w, unit) dp_eff" where
  "usage = dp_print ''Usage: deploy_storlet.py <path to conf>''"

definition deploy_main :: "'w deploy_ops \<Rightarrow> (string \<Rightarrow> cluster_config res) \<Rightarrow> string list \<Rightarrow> ('w, int) dp_eff" where
  "deploy_main ops load argv =
     (case argv of
        [path] \<Rightarrow>
          ebind (eres (load path)) (\<lambda>conf.
          ebind (eres (admin_user conf)) (\<lambda>u.
          ebind (eres (admin_password conf)) (\<lambda>pw.
          ebind (get_auth ops conf u pw) (\<lambda>(url, token).
          ebind (dp_print ''Enter storlet language (java or python): '') (\<lambda>_.
          ebind read_line (\<lambda>lang.
            let language = title lang in
            (case map_of (MESSAGES ops) language of
               None \<Rightarrow> ebind (dp_print ''The language you specified is not supported'') (\<lambda>_. ereturn 1)
             | Some messages \<Rightarrow>
                 ebind (dialogue messages [(''language'', OneLine language)]) (\<lambda>options.
                   (case (dict_get options ''storlet'', dict_get options ''storlet_main_class'', dict_get options ''dependencies'') of
                      (Some (OneLine storlet), Some (OneLine main_class), Some (Lines deps)) \<Rightarrow>
                        ebind (deploy_storlet ops url token storlet main_class deps language None) (\<lambda>_.
                        ebind (dp_print ''Storlet deployment complete'') (\<lambda>_. ereturn 0))
                    | _ \<Rightarrow> eraise (TypeError ''missing argument''))))))))))
      | _ \<Rightarrow> ebind usage (\<lambda>_. ereturn 1))"

section \<open>Lemmas\<close>

text \<open>The reading loop as it is written: a line is taken until one is blank.\<close>

lemma read_lines_step:
  "read_lines (c, w) = (case co_in c of [] \<Rightarrow> (Inr [], (c, w))
     | x # xs \<Rightarrow> if rstrip x = [] then (Inr [], (c\<lparr>co_in := xs\<rparr>, w))
       else (case read_lines (c\<lparr>co_in := xs\<rparr>, w) of (r, s) \<Rightarrow> (rbind r (\<lambda>v. Inr (rstrip x # v)), s)))"
  by (cases "co_in c") (auto simp: read_lines_def until_blank_def Let_def)

lemma storlet_params:
  "dict_get (parse_storlet_params (storlet_headers deps mc lang None)) k =
     map_of ([(''Language'', lang), (''Interface-Version'', ''1.0''), (''Object-Metadata'', ''no''), (''Main'', mc)] @
       (if deps = [] then [] else [(''Dependency'', deps)])) k"
  by (simp add: parse_storlet_params_def storlet_headers_def startswith_def dict_get_def dict_set_def)

text \<open>What the container gateway asks of a Python storlet.\<close>

lemma check_python_accepts:
  assumes "conf_get ps ''Main'' [] = m @ ''.'' @ c" "CHR ''.'' \<notin> set m" "CHR ''.'' \<notin> set c" "dict_get ps ''Language-Version'' = None"
  shows "check_python ps (m @ ''.py'') = Inr ()"
proof -
  have v: "py_float ''3'' = Inr (3 * nano)" by code_simp
  have "endswith (m @ ''.py'') ''.py''" by (simp add: endswith_def)
  moreover have "take (length (m @ ''.py'') - 3) (m @ ''.py'') = m" by simp
  moreover have "startswith (m @ ''.'' @ c) (m @ ''.'')" using startswith_append [of "m @ ''.''" c] by simp
  moreover have "split_on CHR ''.'' (m @ ''.'' @ c) = [m, c]" using assms(2,3) by (simp add: split_on_append_sep split_on_no_sep)
  moreover have "conf_get ps ''Language-Version'' ''3'' = ''3''" using assms(4) by (simp add: conf_get_def)
  moreover have "trunc_nano (3 * nano) = 3" by code_simp
  ultimately show ?thesis using v unfolding check_python_def assms(1) Let_def by simp
qed

lemma check_dependencies_accepts:
  assumes "conf_get ps ''Dependency'' [] = join_with '','' ds" "distinct ds" "\<And>d. d \<in> set ds \<Longrightarrow> CHR '','' \<notin> set d" "n \<notin> set ds"
  shows "check_dependencies ps n = Inr ()"
proof (cases "ds = []")
  case False
  then have "split_on CHR '','' (join_with '','' ds) = ds" using split_join_on [of ds "CHR '',''"] assms(3) by blast
  then show ?thesis using assms(1,2,4) by (simp add: check_dependencies_def Let_def)
qed (use assms(1) in \<open>simp add: check_dependencies_def\<close>)

section \<open>Properties\<close>

text \<open>C40: What the deployment tool uploads is accepted: for a Python storlet file whose main class is in it, with dependency files
  of different names, the proxy's registration check passes for the headers of the storlet and for those of each
  dependency.\<close>

theorem deployed_storlet_registers:
  assumes "path_basename storlet = m @ ''.py''" "CHR ''.'' \<notin> set m" "CHR ''.'' \<notin> set c" "distinct (map path_basename deps)"
    "\<And>d. d \<in> set deps \<Longrightarrow> CHR '','' \<notin> set (path_basename d) \<and> path_basename d \<noteq> m @ ''.py''" "lower lang = ''python''"
  shows "gc_validate_storlet (container_gateway ops)
      (parse_storlet_params (storlet_headers (join_with '','' (map path_basename deps)) (m @ ''.'' @ c) lang None)) (path_basename storlet) = Inr () \<and>
    gc_validate_dependency (container_gateway ops) (parse_storlet_params dependency_headers) n = Inr ()"
proof
  define mc where "mc = m @ ''.'' @ c"
  let ?ps = "parse_storlet_params (storlet_headers (join_with '','' (map path_basename deps)) mc lang None)"
  have "check_mandatory_params ?ps [''Language'', ''Interface-Version'', ''Object-Metadata'', ''Main''] = Inr ()"
    by (simp add: dict_has_iff storlet_params)
  moreover have "check_python ?ps (m @ ''.py'') = Inr ()"
    by (rule check_python_accepts [OF _ assms(2,3)]) (simp_all add: conf_get_def storlet_params mc_def)
  moreover have "check_dependencies ?ps (m @ ''.py'') = Inr ()"
  proof (rule check_dependencies_accepts [OF _ assms(4)])
    show "conf_get ?ps ''Dependency'' [] = join_with '','' (map path_basename deps)" by (simp add: conf_get_def storlet_params)
    show "CHR '','' \<notin> set d" if "d \<in> set (map path_basename deps)" for d using that assms(5) by auto
    show "m @ ''.py'' \<notin> set (map path_basename deps)" using assms(5) by fastforce
  qed
  moreover have "lower (conf_get ?ps ''Language'' []) = ''python''" using assms(6) by (simp add: conf_get_def storlet_params)
  ultimately show "gc_validate_storlet (container_gateway ops)
      (parse_storlet_params (storlet_headers (join_with '','' (map path_basename deps)) (m @ ''.'' @ c) lang None)) (path_basename storlet) = Inr ()"
    unfolding mc_def [symmetric] by (simp add: container_gateway_def validate_storlet_registration_def assms(1))
  have "validate_dependency_registration (parse_storlet_params dependency_headers) = Inr ()" by code_simp
  then show "gc_validate_dependency (container_gateway ops) (parse_storlet_params dependency_headers) n = Inr ()"
    by (simp add: container_gateway_def)
qed

theorem deployed_storlet_registers_witness:
  "gc_validate_storlet (container_gateway flow_sample)
     (parse_storlet_params (storlet_headers (join_with '','' (map path_basename [''/tmp/get42.sh''])) (''exec_dep'' @ ''.'' @ ''ExecDepStorlet'') ''Python'' None))
     (path_basename ''/tmp/exec_dep.py'') = Inr () \<and>
   gc_validate_dependency (container_gateway flow_sample) (parse_storlet_params dependency_headers) ''get42.sh'' = Inr ()"
proof (rule deployed_storlet_registers)
  show "path_basename ''/tmp/exec_dep.py'' = ''exec_dep'' @ ''.py''" "lower ''Python'' = ''python''"
    "distinct (map path_basename [''/tmp/get42.sh''])" by code_simp+
  have "path_basename ''/tmp/get42.sh'' = ''get42.sh''" by code_simp
  then show "CHR '','' \<notin> set (path_basename d) \<and> path_basename d \<noteq> ''exec_dep'' @ ''.py''" if "d \<in> set [''/tmp/get42.sh'']" for d
    using that by simp
qed simp_all

end
