(* ===== verification/Responses.thy ===== *)
theory Responses
  imports Tools
begin

text \<open>
  What a client gets back from a storlet run: the headers that \<open>apply_storlet\<close>, \<open>_set_metadata_in_headers\<close> and
  \<open>_get_user_metadata\<close> of \<open>storlets/swift_middleware/handlers/base.py\<close> make of the object's response and of the metadata the
  storlet set, and the response of a GET on the object server. The definitions are those of \<open>Middleware\<close> and
  \<open>ObjectServer\<close>.
\<close>

section \<open>Metadata in headers\<close>

lemma startswith_drop: "startswith k p \<Longrightarrow> p @ drop (length p) k = k"
  unfolding startswith_def by (metis append_take_drop_id)

lemma dict_get_Cons: "dict_get ((k, v) # d) x = (if x = k then Some v else dict_get d x)"
  by (simp add: dict_get_def)

abbreviation meta :: "string \<Rightarrow> string" where "meta k \<equiv> ''X-Object-Meta-'' @ k"

lemma meta_storlet: "startswith (meta k) ''X-Object-Meta-Storlet-'' \<longleftrightarrow> startswith k ''Storlet-''"
  by (simp add: startswith_def)

lemma meta_drop: "startswith x ''X-Object-Meta-'' \<Longrightarrow> meta (drop 14 x) = x"
  using startswith_drop [of x "''X-Object-Meta-''"] by (simp add: eval_nat_numeral)

lemma user_metadata_fold:
  assumes "dict_ok hs" "\<not> startswith k ''Storlet-''"
  shows "dict_get (foldl (\<lambda>md (k, v). if startswith k ''X-Object-Meta-Storlet-'' then md
     else if startswith k ''X-Object-Meta-'' then dict_set (drop 14 k) v md else md) acc hs) k =
    (case dict_get hs (meta k) of Some v \<Rightarrow> Some v | None \<Rightarrow> dict_get acc k)"
  using assms(1)
proof (induction hs arbitrary: acc)
  case (Cons x hs)
  obtain k0 v0 where x: "x = (k0, v0)" by (cases x)
  have ok: "dict_ok hs" "dict_get hs k0 = None"
    using Cons.prems x by (auto simp: dict_ok_def dict_get_def map_of_eq_None_iff)
  show ?case
  proof (cases "meta k = k0")
    case True
    have "\<not> startswith k0 ''X-Object-Meta-Storlet-''" "startswith k0 ''X-Object-Meta-''" "drop 14 k0 = k"
      unfolding True [symmetric] meta_storlet using assms(2) by (simp_all add: startswith_def)
    then show ?thesis using Cons.IH [OF ok(1)] ok(2) True x by (simp add: dict_get_Cons del: append_Cons append_Nil)
  next
    case False
    then have "drop 14 k0 \<noteq> k" if "startswith k0 ''X-Object-Meta-''" using meta_drop [OF that] by blast
    then show ?thesis using Cons.IH [OF ok(1)] False x by (auto simp: dict_get_Cons split: option.split simp del: append_Cons append_Nil)
  qed
qed simp

lemma user_metadata_get:
  "dict_ok hs \<Longrightarrow> \<not> startswith k ''Storlet-'' \<Longrightarrow> dict_get (get_user_metadata hs) k = dict_get hs (meta k)"
  unfolding get_user_metadata_def by (simp add: user_metadata_fold split: option.split)

lemma content_type_key: "lower k = ''content-type'' \<Longrightarrow> k \<noteq> meta k'"
proof
  assume "lower k = ''content-type''" "k = meta k'"
  moreover have "length (lower k) = length k" by (simp add: lower_def)
  ultimately show False by simp
qed

lemma set_metadata_ok: "dict_ok hs \<Longrightarrow> dict_ok (set_metadata_in_headers md hs)"
  unfolding set_metadata_in_headers_def by (induction md arbitrary: hs) auto

lemma set_metadata_other:
  "(\<And>k. x \<noteq> meta k) \<Longrightarrow> lower x \<noteq> ''content-type'' \<Longrightarrow> dict_get (set_metadata_in_headers md hs) x = dict_get hs x"
  unfolding set_metadata_in_headers_def by (induction md arbitrary: hs) (auto simp del: append_Cons append_Nil)

lemma set_metadata_meta:
  "dict_ok md \<Longrightarrow> dict_get (set_metadata_in_headers md hs) (meta k) =
    (case dict_get md k of Some v \<Rightarrow> if lower k = ''content-type'' then dict_get hs (meta k) else Some v | None \<Rightarrow> dict_get hs (meta k))"
  unfolding set_metadata_in_headers_def
proof (induction md arbitrary: hs)
  case (Cons x md)
  obtain k0 v0 where x: "x = (k0, v0)" by (cases x)
  have "dict_ok md" "dict_get md k0 = None" using Cons.prems x by (auto simp: dict_ok_def dict_get_def map_of_eq_None_iff)
  then show ?case using Cons.IH x content_type_key [of k0 k]
    by (auto simp: dict_get_Cons split: option.split simp del: append_Cons append_Nil)
qed simp

lemma md_items_ok: "md = JObj d \<Longrightarrow> dict_ok d \<Longrightarrow> dict_ok (md_items md)"
  by (simp add: md_items_def dict_ok_def comp_def case_prod_beta)

text \<open>The headers of the result: sizes and ranges of the object are gone, its metadata is overlaid with that of the storlet.\<close>

definition stripped_headers :: "string dict \<Rightarrow> string dict" where
  "stripped_headers hs = (let h1 = dict_pop ''Transfer-Encoding'' (dict_pop ''Content-Length'' hs) in
     case dict_get hs ''Content-Range'' of None \<Rightarrow> h1
     | Some r \<Rightarrow> dict_pop ''Content-Range'' (dict_set ''Storlet-Input-Range'' r h1))"

lemma result_headers_eq: "result_headers hs md = set_metadata_in_headers (md_items md) (stripped_headers hs)"
  by (simp add: result_headers_def stripped_headers_def Let_def)

lemma stripped_headers_meta: "dict_get (stripped_headers hs) (meta k) = dict_get hs (meta k)"
  by (simp add: stripped_headers_def Let_def split: option.split)

lemma stripped_headers_ok: "dict_ok hs \<Longrightarrow> dict_ok (stripped_headers hs)"
  by (simp add: stripped_headers_def Let_def split: option.split)

lemma stripped_headers_gone:
  "x \<in> {''Content-Length'', ''Transfer-Encoding'', ''Content-Range''} \<Longrightarrow> dict_get (stripped_headers hs) x = None"
  by (auto simp: stripped_headers_def Let_def split: option.split)

lemma result_headers_gone:
  assumes "x \<in> {''Content-Length'', ''Transfer-Encoding'', ''Content-Range''}"
  shows "dict_get (result_headers hs md) x = None"
proof -
  have "x \<noteq> meta k" for k using assms by auto
  moreover have "lower x \<noteq> ''content-type''" using assms by (auto simp: lower_def lower_char_def char_of_def bit_0)
  ultimately show ?thesis unfolding result_headers_eq using stripped_headers_gone [OF assms] by (simp add: set_metadata_other)
qed

lemma result_headers_metadata:
  assumes "dict_ok hs" "dict_ok (md_items md)" "\<not> startswith k ''Storlet-''"
  shows "dict_get (get_user_metadata (result_headers hs md)) k =
    (case dict_get (md_items md) k of Some v \<Rightarrow> if lower k = ''content-type'' then dict_get (get_user_metadata hs) k else Some v
     | None \<Rightarrow> dict_get (get_user_metadata hs) k)"
  unfolding result_headers_eq
  using user_metadata_get [OF set_metadata_ok [OF stripped_headers_ok [OF assms(1)]] assms(3)] user_metadata_get [OF assms(1,3)]
    set_metadata_meta [OF assms(2)]
  by (simp add: stripped_headers_meta split: option.split del: append_Cons append_Nil)

section \<open>Properties\<close>

text \<open>C12: A GET on the object server answers with the storlet's result. When the request may run here and the gateway returned
  data, the response is a 200 whose body is that data; it announces neither the length nor the range of the object; and its user
  metadata is that of the object, overlaid with what the storlet set (names in the spelling of header dictionaries, which
  \<open>str.title\<close> leaves as it is; metadata whose name begins with \<open>Storlet-\<close> is the system's).\<close>

theorem get_answers_with_result:
  assumes "is_range_request h \<longrightarrow> is_storlet_range_request h" "sw_app (en_swift en) (h_request h) w = (Inr orig, w1)"
    "is_success orig" "not_runnable (en_swift en) h orig = Inr False" "object_call_gateway en orig (h, w1) = (Inr sd, (h2, w2))"
    "data_iter sd = Inr body" "user_metadata sd = JObj d" "dict_ok d" "list_all (\<lambda>(k, _). title k = k) d" "dict_ok (wr_headers orig)"
  shows "\<exists>resp. object_GET en (h, w) = (Inr resp, (h2, w2)) \<and> wr_status resp = 200 \<and> wr_body resp = body \<and>
    \<not> dict_has (wr_headers resp) ''Content-Length'' \<and> \<not> dict_has (wr_headers resp) ''Content-Range'' \<and>
    (\<forall>k. title k = k \<and> lower k \<noteq> ''content-type'' \<and> \<not> startswith k ''Storlet-'' \<longrightarrow>
      dict_get (get_user_metadata (wr_headers resp)) k =
        (case dict_get d k of Some v \<Rightarrow> Some (str_of_json v) | None \<Rightarrow> dict_get (get_user_metadata (wr_headers orig)) k))"
proof -
  let ?r = "\<lparr>wr_status = 200, wr_headers = result_headers (wr_headers orig) (user_metadata sd), wr_body = body, wr_fp = None, wr_path = wr_path orig\<rparr>"
  have "object_GET en (h, w) = (Inr ?r, (h2, w2))"
    using assms(1-6) by (auto simp: object_GET_def h_app_def apply_storlet_def eff_defs)
  moreover have "\<not> dict_has (wr_headers ?r) ''Content-Length''" "\<not> dict_has (wr_headers ?r) ''Content-Range''"
    by (simp_all add: dict_has_iff result_headers_gone)
  moreover have "dict_get (get_user_metadata (wr_headers ?r)) k =
      (case dict_get d k of Some v \<Rightarrow> Some (str_of_json v) | None \<Rightarrow> dict_get (get_user_metadata (wr_headers orig)) k)"
    if "lower k \<noteq> ''content-type''" "\<not> startswith k ''Storlet-''" for k
  proof -
    have "dict_get (md_items (user_metadata sd)) k = map_option str_of_json (dict_get d k)"
      by (simp add: md_items_def assms(7) dict_get_def map_of_map)
    then show ?thesis using result_headers_metadata [OF assms(10) md_items_ok [OF assms(7,8)] that(2)] that(1)
      by (simp split: option.split)
  qed
  ultimately show ?thesis by (intro exI [of _ ?r]) simp
qed

definition get_env :: "(storlet_request, nat) env" where
  "get_env = stub_env (\<lambda>_. sample_response 200 [(''Content-Length'', ''4''), (''X-Object-Meta-Color'', ''red'')])"

definition get_handler_sample :: handler where
  "get_handler_sample = sample_handler (sample_req ''GET'' ''/sda/0/AUTH_a/c/o'' [(''X-Run-Storlet'', ''m.py'')])"

theorem get_answers_with_result_witness:
  "\<exists>resp w2. object_GET get_env (get_handler_sample, 0) = (Inr resp, (get_handler_sample, w2)) \<and> wr_status resp = 200 \<and>
     wr_body resp = Chunks [''data''] \<and> \<not> dict_has (wr_headers resp) ''Content-Length'' \<and>
     dict_get (get_user_metadata (wr_headers resp)) ''Color'' = Some ''red''"
proof -
  let ?hs = "[(''Content-Length'', ''4''), (''X-Object-Meta-Color'', ''red'')]"
  let ?orig = "sample_response 200 ?hs"
  let ?sd = "\<lparr>user_metadata = JObj [(''Color'', JStr ''red'')], data_fd = None, sd_data_iter = Some [''data''], sd_timeout = 10, sd_cancel = False\<rparr>"
  have app: "sw_app (en_swift get_env) (h_request get_handler_sample) 0 = (Inr ?orig, 1)"
    by (simp add: get_env_def stub_env_def sample_swift_def)
  have md: "get_user_metadata ?hs = [(''Color'', ''red'')]" by code_simp
  have call: "object_call_gateway get_env ?orig (get_handler_sample, 1) = (Inr ?sd, (get_handler_sample, 1))"
    by (simp add: object_call_gateway_def build_storlet_request_def h_flow_def eff_defs get_env_def stub_env_def stub_gateway_def
        sample_response_def md storlet_data_of_def StorletData_def StorletRequest_def indentity_invocation_def data_iter_def
        object_options_def add_range_def get_handler_sample_def sample_handler_def sample_req_def dict_get_def)
  have run: "not_runnable (en_swift get_env) get_handler_sample ?orig = Inr False" by code_simp
  have "\<not> is_range_request get_handler_sample" "is_success ?orig" by code_simp+
  moreover have "title ''Color'' = ''Color''" by (simp add: title_def is_letter_def lower_char_def upper_char_def char_of_def bit_0)
  then have "list_all (\<lambda>(k, _). title k = k) [(''Color'', JStr ''red'')]" "title ''Color'' = ''Color''" by simp_all
  moreover have "lower ''Color'' \<noteq> ''content-type''" "\<not> startswith ''Color'' ''Storlet-''" by (simp_all add: lower_def startswith_def)
  moreover have "data_iter ?sd = Inr (Chunks [''data''])" "user_metadata ?sd = JObj [(''Color'', JStr ''red'')]" "dict_ok [(''Color'', JStr ''red'')]"
    "dict_ok (wr_headers ?orig)" by (simp_all add: data_iter_def dict_ok_def sample_response_def)
  ultimately obtain resp where resp: "object_GET get_env (get_handler_sample, 0) = (Inr resp, (get_handler_sample, 1))" "wr_status resp = 200"
      "wr_body resp = Chunks [''data'']" "\<not> dict_has (wr_headers resp) ''Content-Length''"
    and md: "dict_get (get_user_metadata (wr_headers resp)) ''Color'' = (case dict_get [(''Color'', JStr ''red'')] ''Color'' of
      Some v \<Rightarrow> Some (str_of_json v) | None \<Rightarrow> dict_get (get_user_metadata (wr_headers ?orig)) ''Color'')"
    using get_answers_with_result [OF _ app _ run call] by blast
  have "dict_get (get_user_metadata (wr_headers resp)) ''Color'' = Some ''red''" unfolding md by (simp add: dict_get_def)
  then show ?thesis using resp by blast
qed

end
