(* ===== verification/Stored.thy ===== *)
theory Stored
  imports Responses
begin

text \<open>
  What PUT and COPY of \<open>storlets/swift_middleware/handlers/proxy.py\<close> store: the data that a storlet gets from the
  request or from the source object, and the request that goes on to the object servers with the result. The definitions are those of
  \<open>Proxy\<close>.
\<close>

section \<open>The input of a run\<close>

text \<open>The request of a gateway also holds the data to be processed, and appending extra data leaves it alone.\<close>

locale gateway_inputs = gateway_requests gc extra
  for gc :: "('r, 'w) gateway_class" and extra :: "'r \<Rightarrow> storlet_data list" +
  fixes main_data :: "'r \<Rightarrow> storlet_data"
  assumes request_data: "gc_request gc sid ps d o1 = Inr r \<Longrightarrow> main_data r = d"
    and append_data: "main_data (gc_append gc d r) = main_data r"
begin

lemma add_resources_keep:
  "en_gateway en = gc \<Longrightarrow> add_resources en r xs (h, w) = (Inr r', (h', w')) \<Longrightarrow> h' = h \<and> main_data r' = main_data r"
proof (induction xs arbitrary: r w)
  case (Cons x xs)
  note keep = append_data [folded Cons.prems(1)]
  from Cons show ?case
    by (auto simp: add_resource_def ebind_def eget_def eworld_def eres_def ereturn_def keep split: sum.splits prod.splits)
qed (simp add: ereturn_def)

lemma built_data:
  assumes "en_gateway en = gc" "proxy_build_storlet_request en sheaders body fp (h, w) = (Inr r, (h', w'))"
  shows "h' = h \<and> storlet_data_of (get_user_metadata sheaders) body fp = Inr (main_data r)"
proof -
  obtain r0 where r0: "build_storlet_request en (proxy_options (en_swift en)) h sheaders body fp = Inr r0"
    "add_resources en r0 (extra_resources h) (h, w) = (Inr r, (h', w'))"
    using assms(2) by (auto simp: proxy_build_storlet_request_def ebind_def eget_def eres_def split: sum.splits prod.splits)
  then show ?thesis using add_resources_keep [OF assms(1) r0(2)]
    by (auto simp: build_storlet_request_def rbind_Inr_iff Let_def dest: request_data [folded assms(1)])
qed

end

interpretation container_inputs: gateway_inputs "container_gateway ops" "\<lambda>r. extra_data_list (cr_request r)" "\<lambda>r. sr_data (cr_request r)" for ops
  by unfold_locales (auto simp: container_gateway_def ContainerStorletRequest_def StorletRequest_def rbind_Inr_iff Let_def)

interpretation stub_inputs: gateway_inputs stub_gateway extra_data_list sr_data
  by unfold_locales (auto simp: stub_gateway_def StorletRequest_def rbind_Inr_iff Let_def)

lemma chunks_of_all: "0 < n \<Longrightarrow> concat (chunks_of n s) = s \<and> [] \<notin> set (chunks_of n s)"
  by (induction n s rule: chunks_of.induct) (subst chunks_of.simps, subst (2) chunks_of.simps, auto)

lemma put_input: "storlet_data_of md (body_iter (Chunks cs)) None = Inr sd \<Longrightarrow> sd_data_iter sd = Some (chunks_of 65536 (concat cs))"
  by (auto simp: body_iter_def storlet_data_of_def StorletData_def Let_def)

section \<open>The headers of the stored object\<close>

definition stored_headers :: "(string \<times> string) list \<Rightarrow> string dict \<Rightarrow> string dict" where
  "stored_headers md hs = dict_set ''Transfer-Encoding'' ''chunked''
     (dict_pop ''Content-Length'' (remove_storlet_headers (set_metadata_in_headers md hs)))"

lemma remove_storlet_get: "dict_get (remove_storlet_headers hs) x = (if is_storlet_header x then None else dict_get hs x)"
  by (induction hs) (auto simp: remove_storlet_headers_def dict_get_def)

lemma remove_storlet_ok: "dict_ok hs \<Longrightarrow> dict_ok (remove_storlet_headers hs)"
  by (simp add: remove_storlet_headers_def dict_ok_def distinct_map_filter)

lemma augmented_other: "\<not> startswith x ''X-Storlet-'' \<Longrightarrow> dict_get (augmented ps hs) x = dict_get hs x"
  unfolding augmented_def by (induction ps arbitrary: hs) (auto simp del: append_Cons append_Nil)

lemma meta_no_storlet_header: "\<not> startswith k ''Storlet-'' \<Longrightarrow> \<not> is_storlet_header (meta k)"
  unfolding is_storlet_header_def meta_storlet by (simp add: startswith_def)

lemma stored_headers_clean: "is_storlet_header x \<Longrightarrow> \<not> dict_has (stored_headers md hs) x"
  by (auto simp: stored_headers_def dict_has_iff remove_storlet_get is_storlet_header_def startswith_def)

lemma stored_headers_length: "\<not> dict_has (stored_headers md hs) ''Content-Length''"
  "dict_get (stored_headers md hs) ''Transfer-Encoding'' = Some ''chunked''"
  by (simp_all add: stored_headers_def dict_has_iff)

lemma stored_headers_metadata:
  assumes "dict_ok hs" "dict_ok (md_items md)" "\<not> startswith k ''Storlet-''" "lower k \<noteq> ''content-type''"
  shows "dict_get (get_user_metadata (stored_headers (md_items md) hs)) k =
    (case dict_get (md_items md) k of Some v \<Rightarrow> Some v | None \<Rightarrow> dict_get (get_user_metadata hs) k)"
proof -
  have "dict_ok (stored_headers (md_items md) hs)" unfolding stored_headers_def by (simp add: remove_storlet_ok set_metadata_ok assms(1))
  then have "dict_get (get_user_metadata (stored_headers (md_items md) hs)) k = dict_get (set_metadata_in_headers (md_items md) hs) (meta k)"
    using user_metadata_get [OF _ assms(3)] meta_no_storlet_header [OF assms(3)]
    by (simp add: stored_headers_def remove_storlet_get)
  then show ?thesis using set_metadata_meta [OF assms(2)] user_metadata_get [OF assms(1,3)] assms(4) by (simp split: option.split)
qed

lemma user_metadata_augmented:
  assumes "dict_ok hs" "\<not> startswith k ''Storlet-''"
  shows "dict_get (get_user_metadata (augmented ps hs)) k = dict_get (get_user_metadata hs) k"
proof -
  have "\<not> startswith (meta k) ''X-Storlet-''" by (simp add: startswith_def)
  then show ?thesis using user_metadata_get [OF _ assms(2)] assms(1) by (simp add: dict_ok_augmented augmented_other)
qed

lemma md_items_get: "dict_get (md_items (JObj d)) k = map_option str_of_json (dict_get d k)"
  by (simp add: md_items_def dict_get_def map_of_map)

section \<open>The request that goes on\<close>

definition stored_request :: "(string \<times> string) list \<Rightarrow> data_source \<Rightarrow> wsgi_req \<Rightarrow> wsgi_req" where
  "stored_request md b req = req\<lparr>rq_headers := stored_headers md (rq_headers req), rq_body := b\<rparr>"

lemma stored_request_simps [simp]:
  "rq_method (stored_request md b q) = rq_method q" "rq_path (stored_request md b q) = rq_path q"
  "rq_body (stored_request md b q) = b" "rq_headers (stored_request md b q) = stored_headers md (rq_headers q)"
  by (simp_all add: stored_request_def)

lemma set_headers_simps [simp]:
  "h_request (set_headers f h) = (h_request h)\<lparr>rq_headers := f (hdr h)\<rparr>" "scope (set_headers f h) = scope h"
  by (simp_all add: set_headers_def scope_def)

lemma set_metadata_none [simp]: "set_metadata_in_headers [] hs = hs"
  by (simp add: set_metadata_in_headers_def)

lemma forwarded:
  "handle_put_copy_response en b (set_headers (set_metadata_in_headers md) h, w) =
    (case sw_app (en_swift en) (stored_request md b (h_request h)) w of (a, w') \<Rightarrow>
      (a, (h\<lparr>h_request := stored_request md b (h_request h)\<rparr>, w')))"
  by (simp add: handle_put_copy_response_def h_app_def eff_defs stored_request_def stored_headers_def set_headers_def Let_def split: prod.split)

lemma run_put_result:
  assumes "gateway_inputs (en_gateway en) extra main_data" "proxy_build_storlet_request en sh b fp (h, w) = (Inr r, (h', w1))"
    "gc_flow (en_gateway en) (en_gateway_conf en) (scope h) r w1 = (Inr sd, w2)" "data_iter sd = Inr out"
  shows "run_put_storlet en sh b fp (h, w) = (Inr out, (set_headers (set_metadata_in_headers (md_items (user_metadata sd))) h, w2))"
  using gateway_inputs.built_data [OF assms(1) refl assms(2)] assms(2-4)
  by (simp add: run_put_storlet_def h_flow_def eff_defs)

section \<open>Where a copied object is processed\<close>

text \<open>Both servers decide by the headers of storlets only.\<close>

lemma decision_headers:
  assumes "\<And>x. startswith x ''X-Storlet-'' \<Longrightarrow> dict_get (hdr h') x = dict_get (hdr h) x"
    "storlet_execute_on_proxy h' = storlet_execute_on_proxy h"
  shows "execute_on_proxy h' = execute_on_proxy h" "execute_range_on_proxy sw h' = execute_range_on_proxy sw h"
proof -
  have x: "dict_get (hdr h') x = dict_get (hdr h) x"
    if "x \<in> {''X-Storlet-Run-On-Proxy'', ''X-Storlet-Extra-Resources'', ''X-Storlet-Range''}" for x
    using that by (auto simp: startswith_def intro: assms(1))
  show e: "execute_on_proxy h' = execute_on_proxy h"
    using x assms(2) by (simp add: execute_on_proxy_def has_run_on_proxy_header_def has_extra_resources_header_def dict_has_iff)
  show "execute_range_on_proxy sw h' = execute_range_on_proxy sw h"
    unfolding execute_range_on_proxy_def e using x by (simp add: is_storlet_multiple_range_request_def is_storlet_range_request_def dict_has_iff)
qed

lemma runnable_decisions:
  "is_proxy_runnable sw h None = Inr run \<longleftrightarrow> (\<exists>a b. execute_on_proxy h = Inr a \<and> execute_range_on_proxy sw h = Inr b \<and> run = (a \<or> b))"
  by (auto simp: is_proxy_runnable_def rbind_Inr_iff)

lemma source_request_headers:
  "dict_get (rq_headers (source_request sw h run c ob)) x =
    (if x = ''X-Backend-Storage-Policy-Index'' \<or> run \<and> x = ''X-Run-Storlet'' then None else dict_get (rq_headers (sw_copy_get sw (h_request h))) x)"
  by (simp add: source_request_def Let_def)

section \<open>Naming the source\<close>

lemma generated_from_path:
  assumes "CHR ''/'' \<notin> set v" "CHR ''/'' \<notin> set a"
  shows "generated_from (''/'' @ v @ ''/'' @ a @ ''/'' @ p) = Inr (a, p)"
proof -
  have "split_on CHR ''/'' (''/'' @ v @ ''/'' @ a @ ''/'' @ p) = [] # v # a # split_on CHR ''/'' p"
    using assms by (simp add: split_on_append_sep)
  moreover obtain x xs where "split_on CHR ''/'' p = x # xs" using split_on_not_Nil by (cases "split_on CHR ''/'' p") auto
  moreover have "join_with ''/'' (split_on CHR ''/'' p) = p" by (rule join_split_on)
  ultimately show ?thesis by (simp add: generated_from_def)
qed

lemma name_source_get:
  "dict_get (name_source acct path sh hs) ''X-Storlet-Generated-From'' = Some (quote path)"
  "dict_get (name_source acct path sh hs) ''X-Storlet-Generated-From-Account'' = Some (quote acct)"
  "dict_get sh ''Last-Modified'' = Some t \<Longrightarrow> dict_get (name_source acct path sh hs) ''X-Storlet-Generated-From-Last-Modified'' = Some t"
  by (simp_all add: name_source_def Let_def split: option.split)

section \<open>Properties\<close>

text \<open>C6: A PUT stores the result of the storlet. With access to the storlet, when the gateway returned data, exactly one request
  goes on to the object servers, with the method and the path of the client. The input of the run was the whole body of the
  client's request, cut into chunks of which none is empty (an empty one would end the input). The request that goes on has
  the data of the run as its body, no header that concerns storlets, no length but a chunked encoding, and as user metadata that of the
  client's request overlaid with what the storlet set; its answer is the answer to the client.\<close>

theorem put_stores_result:
  assumes "gateway_inputs (en_gateway en) extra main_data" "verify_access_to_storlet en (h, w) = (Inr ps, (h, w1))"
    "\<not> is_put_copy_request h" "rq_body (h_request h) = Chunks cs"
    "proxy_build_storlet_request en (augmented ps (hdr h)) (body_iter (Chunks cs)) None (set_headers (augmented ps) h, w1) = (Inr r, (h', w2))"
    "gc_flow (en_gateway en) (en_gateway_conf en) (scope h) r w2 = (Inr sd, w3)" "data_iter sd = Inr out"
    "user_metadata sd = JObj d" "dict_ok d" "list_all (\<lambda>(k, _). title k = k) d" "dict_ok (hdr h)"
  shows "\<exists>q h2. proxy_PUT en (h, w) = (case sw_app (en_swift en) q w3 of (a, w4) \<Rightarrow> (a, (h2, w4))) \<and>
    (\<exists>bs. sd_data_iter (main_data r) = Some bs \<and> concat bs = concat cs \<and> [] \<notin> set bs) \<and>
    rq_method q = rq_method (h_request h) \<and> rq_path q = rq_path (h_request h) \<and> rq_body q = out \<and>
    (\<forall>x. is_storlet_header x \<longrightarrow> \<not> dict_has (rq_headers q) x) \<and> \<not> dict_has (rq_headers q) ''Content-Length'' \<and>
    dict_get (rq_headers q) ''Transfer-Encoding'' = Some ''chunked'' \<and>
    (\<forall>k. title k = k \<and> lower k \<noteq> ''content-type'' \<and> \<not> startswith k ''Storlet-'' \<longrightarrow>
      dict_get (get_user_metadata (rq_headers q)) k =
        (case dict_get d k of Some v \<Rightarrow> Some (str_of_json v) | None \<Rightarrow> dict_get (get_user_metadata (hdr h)) k))"
proof -
  let ?h = "set_headers (augmented ps) h" and ?md = "md_items (user_metadata sd)"
  let ?q = "stored_request ?md out (h_request ?h)"
  have "\<not> is_put_copy_request ?h"
    using assms(3) by (simp add: is_put_copy_request_def dict_has_iff augmented_other startswith_def)
  moreover have "run_put_storlet en (hdr ?h) (body_iter (rq_body (h_request ?h))) None (?h, w1) =
      (Inr out, (set_headers (set_metadata_in_headers ?md) ?h, w3))"
    using run_put_result [OF assms(1,5)] assms(4,6,7) by simp
  ultimately have "proxy_PUT en (h, w) = handle_put_copy_response en out (set_headers (set_metadata_in_headers ?md) ?h, w3)"
    using assms(2) by (simp add: proxy_PUT_def augment_storlet_request_def ebind_def emodify_def eget_def)
  then have "proxy_PUT en (h, w) = (case sw_app (en_swift en) ?q w3 of (a, w4) \<Rightarrow> (a, (?h\<lparr>h_request := ?q\<rparr>, w4)))"
    unfolding forwarded .
  moreover have "sd_data_iter (main_data r) = Some (chunks_of 65536 (concat cs))"
    using gateway_inputs.built_data [OF assms(1) refl assms(5)] put_input by blast
  then have "\<exists>bs. sd_data_iter (main_data r) = Some bs \<and> concat bs = concat cs \<and> [] \<notin> set bs"
    using chunks_of_all [of 65536 "concat cs"] by simp
  moreover have "dict_get (get_user_metadata (rq_headers ?q)) k =
      (case dict_get d k of Some v \<Rightarrow> Some (str_of_json v) | None \<Rightarrow> dict_get (get_user_metadata (hdr h)) k)"
    if "lower k \<noteq> ''content-type''" "\<not> startswith k ''Storlet-''" for k
    using stored_headers_metadata [OF dict_ok_augmented [OF assms(11)] md_items_ok [OF assms(8,9)] that(2,1)]
      user_metadata_augmented [OF assms(11) that(2)] assms(8)
    by (simp add: md_items_get split: option.split)
  ultimately show ?thesis
    by (intro exI [of _ ?q] exI [of _ "?h\<lparr>h_request := ?q\<rparr>"] conjI allI impI)
      (use stored_headers_clean [of _ ?md "hdr ?h"] stored_headers_length [of ?md "hdr ?h"] in simp_all)
qed

definition put_env :: "(storlet_request, nat) env" where
  "put_env = stub_env (\<lambda>r. sample_response 200 [(''Content-Length'', ''4''), (''X-Timestamp'', ''1.0'')])"

definition put_handler_sample :: handler where
  "put_handler_sample = sample_handler ((sample_req ''PUT'' ''/v1/AUTH_a/c/o'' [(''X-Run-Storlet'', ''m.py''), (''Content-Length'', ''5'')])
     \<lparr>rq_body := Chunks [''hel'', ''lo'']\<rparr>)"

lemma put_access: "verify_access_to_storlet put_env (put_handler_sample, 0) =
    (Inr [(''Content-Length'', ''4''), (''X-Timestamp'', ''1.0'')], (put_handler_sample, 1))"
  by code_simp

lemma put_chunks: "body_iter (Chunks [''hel'', ''lo'']) = Chunks [''hello'']"
  by (simp add: body_iter_def chunks_of.simps)

lemma handled_result: "(case x of (Inr r, _, w) \<Rightarrow> P r w | _ \<Rightarrow> False) \<Longrightarrow> \<exists>r h w. x = (Inr r, (h, w)) \<and> P r w"
  by (cases x) (auto split: sum.splits prod.splits)

lemma result_cases: "(case x of (Inr r, w) \<Rightarrow> P r w | _ \<Rightarrow> False) \<Longrightarrow> \<exists>r w. x = (Inr r, w) \<and> P r w"
  by (cases x) (auto split: sum.splits)

lemma put_run:
  "case proxy_build_storlet_request put_env (augmented [(''Content-Length'', ''4''), (''X-Timestamp'', ''1.0'')] (hdr put_handler_sample))
      (Chunks [''hello'']) None (set_headers (augmented [(''Content-Length'', ''4''), (''X-Timestamp'', ''1.0'')]) put_handler_sample, 1) of
    (Inr r, _, w2) \<Rightarrow> w2 = 1 \<and> (case gc_flow (en_gateway put_env) (en_gateway_conf put_env) (scope put_handler_sample) r 1 of
        (Inr sd, w3) \<Rightarrow> w3 = 1 \<and> data_iter sd = Inr (Chunks [''hello'']) \<and> user_metadata sd = JObj [] | _ \<Rightarrow> False)
  | _ \<Rightarrow> False"
  by code_simp

theorem put_stores_result_witness:
  "\<exists>q h2. proxy_PUT put_env (put_handler_sample, 0) = (case sw_app (en_swift put_env) q 1 of (a, w4) \<Rightarrow> (a, (h2, w4))) \<and>
     rq_method q = ''PUT'' \<and> rq_path q = ''/v1/AUTH_a/c/o'' \<and> rq_body q = Chunks [''hello''] \<and>
     \<not> dict_has (rq_headers q) ''X-Run-Storlet'' \<and> \<not> dict_has (rq_headers q) ''Content-Length''"
proof -
  let ?ps = "[(''Content-Length'', ''4''), (''X-Timestamp'', ''1.0'')]"
  obtain r h' where r: "proxy_build_storlet_request put_env (augmented ?ps (hdr put_handler_sample)) (body_iter (Chunks [''hel'', ''lo''])) None
        (set_headers (augmented ?ps) put_handler_sample, 1) = (Inr r, (h', 1))"
    and f: "case gc_flow (en_gateway put_env) (en_gateway_conf put_env) (scope put_handler_sample) r 1 of
        (Inr sd, w3) \<Rightarrow> w3 = 1 \<and> data_iter sd = Inr (Chunks [''hello'']) \<and> user_metadata sd = JObj [] | _ \<Rightarrow> False"
    using handled_result [OF put_run] unfolding put_chunks by (elim exE conjE) (hypsubst, iprover)
  from result_cases [OF f] obtain sd where sd: "gc_flow (en_gateway put_env) (en_gateway_conf put_env) (scope put_handler_sample) r 1 = (Inr sd, 1)"
    "data_iter sd = Inr (Chunks [''hello''])" "user_metadata sd = JObj []" by blast
  have "gateway_inputs (en_gateway put_env) extra_data_list sr_data"
    by (simp add: put_env_def stub_env_def stub_inputs.gateway_inputs_axioms)
  moreover have "\<not> is_put_copy_request put_handler_sample" "rq_body (h_request put_handler_sample) = Chunks [''hel'', ''lo'']"
    "dict_ok (hdr put_handler_sample)" "rq_method (h_request put_handler_sample) = ''PUT''" "rq_path (h_request put_handler_sample) = ''/v1/AUTH_a/c/o''"
    by (simp_all add: is_put_copy_request_def put_handler_sample_def sample_handler_def sample_req_def dict_has_def dict_get_def dict_ok_def)
  moreover have "is_storlet_header ''X-Run-Storlet''" by (simp add: is_storlet_header_def)
  ultimately show ?thesis
    using put_stores_result [OF _ put_access _ _ r sd, of extra_data_list sr_data] by auto
qed



text \<open>C14: What a COPY stores. With access to the storlet and a destination, the request becomes a PUT of the destination. Its body is the
  result of the storlet on the body of the source, when the proxy runs the storlet, and otherwise what the object server answered; it has
  no header that concerns storlets. The response names the source: its account and its path as the client wrote them, quoted. Nothing
  depends on the status of the source's answer: also the text of an error, of a missing source for example, is stored as the object.\<close>

theorem copy_stores_result:
  assumes "gateway_inputs (en_gateway en) extra main_data" "conf_get (hdr h) ''Destination'' [] \<noteq> []"
    "verify_access_to_storlet en (h, w) = (Inr ps, (h, w1))" "validate_copy_request (set_headers (augmented ps) h) = Inr ()"
    "sw_destination (en_swift en) (h_request (set_headers (augmented ps) h)) = Inr (dest_c, dest_o)" "h_obj h = Some ob"
    "h1 = rewrite_as_put dest_c dest_o (set_headers (augmented ps) h)" "is_proxy_runnable (en_swift en) h1 None = Inr run"
    "sw_app (en_swift en) (source_request (en_swift en) h1 run (h_container h) ob) w1 = (Inr src, w2)"
    "wr_path src = rq_path (source_request (en_swift en) h1 run (h_container h) ob)" "CHR ''/'' \<notin> set (h_version h)" "CHR ''/'' \<notin> set (h_account h)"
    "h2 = set_headers (sw_copy_headers (en_swift en) (wr_headers src)) h1" "is_proxy_runnable (en_swift en) h2 (Some src) = Inr run1"
    "if run1 then proxy_build_storlet_request en (wr_headers src) (wr_body src) (wr_fp src) (h2, w2) = (Inr r, (h3, w3)) \<and>
         gc_flow (en_gateway en) (en_gateway_conf en) (scope h) r w3 = (Inr sd, w4) \<and> data_iter sd = Inr out
       else out = wr_body src \<and> w4 = w2"
  shows "\<exists>q h4 hs. proxy_COPY en (h, w) = (case sw_app (en_swift en) q w4 of (Inl e, w5) \<Rightarrow> (Inl e, (h4, w5))
        | (Inr resp, w5) \<Rightarrow> (Inr (resp\<lparr>wr_headers := hs (wr_headers resp)\<rparr>), (h4, w5))) \<and>
    rq_method q = ''PUT'' \<and> rq_path q = ''/v1/'' @ h_account h @ ''/'' @ dest_c @ ''/'' @ dest_o \<and> rq_body q = out \<and>
    (\<forall>x. is_storlet_header x \<longrightarrow> \<not> dict_has (rq_headers q) x) \<and>
    (\<forall>d. dict_get (hs d) ''X-Storlet-Generated-From-Account'' = Some (quote (h_account h)) \<and>
         dict_get (hs d) ''X-Storlet-Generated-From'' = Some (quote (h_container h @ ''/'' @ ob)))"
proof -
  define md where "md = (if run1 then md_items (user_metadata sd) else [])"
  let ?q = "stored_request md out (h_request h2)"
  have h1: "h_version h1 = h_version h" "h_account h1 = h_account h" "h_container h1 = h_container h" "scope h1 = scope h"
    "rq_method (h_request h1) = ''PUT''" "rq_path (h_request h1) = ''/v1/'' @ h_account h @ ''/'' @ dest_c @ ''/'' @ dest_o"
    by (simp_all add: assms(7) rewrite_as_put_def set_headers_def scope_def)
  have "(if run1 then run_put_storlet en (wr_headers src) (wr_body src) (wr_fp src) else ereturn (wr_body src)) (h2, w2) =
      (Inr out, (set_headers (set_metadata_in_headers md) h2, w4))"
  proof (cases run1)
    case True
    have "scope h2 = scope h" by (simp add: assms(13) h1(4))
    then show ?thesis using run_put_result [OF assms(1)] assms(15) True by (simp add: md_def)
  qed (use assms(15) in \<open>simp add: md_def ereturn_def set_headers_def\<close>)
  moreover have "generated_from (wr_path src) = Inr (h_account h, h_container h @ ''/'' @ ob)"
    using generated_from_path [OF assms(11,12)] by (simp add: assms(10) source_request_def Let_def h1 del: append_Cons append_Nil)
  ultimately have "base_handle_copy_request en (h_container h) ob (h1, w1) =
      (case handle_put_copy_response en out (set_headers (set_metadata_in_headers md) h2, w4) of
         (Inl e, s) \<Rightarrow> (Inl e, s)
       | (Inr resp, s) \<Rightarrow> (Inr (resp\<lparr>wr_headers := name_source (h_account h) (h_container h @ ''/'' @ ob) (wr_headers src) (wr_headers resp)\<rparr>), s))"
    using assms(8,9,13,14) by (simp add: base_handle_copy_request_def ebind_def eget_def eres_def eworld_def emodify_def ereturn_def split: prod.split sum.split)
  moreover have "proxy_COPY en (h, w) = base_handle_copy_request en (h_container h) ob (h1, w1)"
    using assms(2-7) by (simp add: proxy_COPY_def augment_storlet_request_def ebind_def eget_def emodify_def eres_def set_headers_def)
  ultimately have "proxy_COPY en (h, w) = (case sw_app (en_swift en) ?q w4 of (Inl e, w5) \<Rightarrow> (Inl e, (h2\<lparr>h_request := ?q\<rparr>, w5))
      | (Inr resp, w5) \<Rightarrow> (Inr (resp\<lparr>wr_headers := name_source (h_account h) (h_container h @ ''/'' @ ob) (wr_headers src) (wr_headers resp)\<rparr>),
          (h2\<lparr>h_request := ?q\<rparr>, w5)))"
    by (simp add: forwarded split: prod.split sum.split)
  then show ?thesis
    by (intro exI [of _ ?q] exI [of _ "h2\<lparr>h_request := ?q\<rparr>"] exI conjI allI impI)
      (assumption, simp_all add: stored_headers_clean name_source_get assms(13) h1 del: append_Cons append_Nil)
qed

definition missing_source :: wsgi_resp where
  "missing_source = \<lparr>wr_status = 404, wr_headers = [], wr_body = Chunks [''Not Found''], wr_fp = None, wr_path = ''/v1/AUTH_a/c/o''\<rparr>"

definition copy_env :: "(storlet_request, nat) env" where
  "copy_env = stub_env (\<lambda>r. if rq_method r = ''HEAD'' then sample_response 200 [(''Content-Length'', ''4''), (''X-Timestamp'', ''1.0'')]
     else missing_source)"

definition copy_handler_sample :: handler where
  "copy_handler_sample = sample_handler (sample_req ''COPY'' ''/v1/AUTH_a/c/o'' [(''X-Run-Storlet'', ''m.py''), (''Destination'', ''c/o'')])"

lemma copy_access: "verify_access_to_storlet copy_env (copy_handler_sample, 0) =
    (Inr [(''Content-Length'', ''4''), (''X-Timestamp'', ''1.0'')], (copy_handler_sample, 1))"
  by code_simp

theorem copy_stores_result_witness:
  "\<not> is_success missing_source \<and>
   (\<exists>q h4 hs. proxy_COPY copy_env (copy_handler_sample, 0) = (case sw_app (en_swift copy_env) q 2 of (Inl e, w5) \<Rightarrow> (Inl e, (h4, w5))
      | (Inr resp, w5) \<Rightarrow> (Inr (resp\<lparr>wr_headers := hs (wr_headers resp)\<rparr>), (h4, w5))) \<and>
    rq_method q = ''PUT'' \<and> rq_body q = Chunks [''Not Found''])"
proof -
  let ?ps = "[(''Content-Length'', ''4''), (''X-Timestamp'', ''1.0'')]" and ?sw = "en_swift copy_env"
  let ?h = "set_headers (augmented ?ps) copy_handler_sample"
  let ?h1 = "rewrite_as_put ''c'' ''o'' ?h"
  let ?h2 = "set_headers (sw_copy_headers ?sw (wr_headers missing_source)) ?h1"
  have "conf_get (hdr copy_handler_sample) ''Destination'' [] \<noteq> []" "validate_copy_request ?h = Inr ()"
    "sw_destination ?sw (h_request ?h) = Inr (''c'', ''o'')" "h_obj copy_handler_sample = Some ''o''"
    "is_proxy_runnable ?sw ?h1 None = Inr False" "is_proxy_runnable ?sw ?h2 (Some missing_source) = Inr False"
    by code_simp+
  moreover have "rq_method (source_request ?sw ?h1 False (h_container copy_handler_sample) ''o'') = ''GET''"
    "rq_path (source_request ?sw ?h1 False (h_container copy_handler_sample) ''o'') = wr_path missing_source"
    "CHR ''/'' \<notin> set (h_version copy_handler_sample)" "CHR ''/'' \<notin> set (h_account copy_handler_sample)" by code_simp+
  moreover have "sw_app ?sw (source_request ?sw ?h1 False (h_container copy_handler_sample) ''o'') 1 = (Inr missing_source, 2)"
    using calculation(7) by (simp add: copy_env_def stub_env_def sample_swift_def)
  moreover have "gateway_inputs (en_gateway copy_env) extra_data_list sr_data"
    by (simp add: copy_env_def stub_env_def stub_inputs.gateway_inputs_axioms)
  ultimately have "\<exists>q h4 hs. proxy_COPY copy_env (copy_handler_sample, 0) = (case sw_app ?sw q 2 of (Inl e, w5) \<Rightarrow> (Inl e, (h4, w5))
      | (Inr resp, w5) \<Rightarrow> (Inr (resp\<lparr>wr_headers := hs (wr_headers resp)\<rparr>), (h4, w5))) \<and> rq_method q = ''PUT'' \<and> rq_body q = wr_body missing_source"
    using copy_stores_result [where en = copy_env and h = copy_handler_sample and src = missing_source and ?run1.0 = False and ?w4.0 = 2
        and out = "wr_body missing_source", OF _ _ copy_access _ _ _ refl _ _ _ _ _ refl] by fastforce
  then show ?thesis by (simp add: missing_source_def is_success_def)
qed

end
