(* ===== verification/Cluster.thy ===== *)
theory Cluster
  imports Stored
begin

text \<open>
  Both handlers of the middleware together: the application behind the middleware of the proxy server is the middleware of an
  object server, and the application behind that is the store. An environment with a counter tells how often the gateway
  has run a storlet.
\<close>

section \<open>Counting the runs\<close>

definition counted_swift :: "'w swift \<Rightarrow> ('w \<times> nat) swift" where
  "counted_swift sw =
     \<lparr>sw_app = (\<lambda>q (w, n). case sw_app sw q w of (r, w') \<Rightarrow> (r, (w', n))),
      sw_account_meta = (\<lambda>q (w, n). case sw_account_meta sw q w of (r, w') \<Rightarrow> (r, (w', n))),
      sw_split_path = sw_split_path sw, sw_ranges = sw_ranges sw, sw_true = sw_true sw, sw_csv = sw_csv sw, sw_clean_acl = sw_clean_acl sw,
      sw_copy_from = sw_copy_from sw, sw_destination = sw_destination sw, sw_copy_headers = sw_copy_headers sw,
      sw_subrequest = sw_subrequest sw, sw_copy_get = sw_copy_get sw, sw_sysmeta = sw_sysmeta sw, sw_http_error = sw_http_error sw\<rparr>"

definition counted_gateway :: "('r, 'w) gateway_class \<Rightarrow> ('r, 'w \<times> nat) gateway_class" where
  "counted_gateway gc =
     \<lparr>gc_init = gc_init gc, gc_validate_storlet = gc_validate_storlet gc, gc_validate_dependency = gc_validate_dependency gc,
      gc_request = gc_request gc, gc_append = gc_append gc,
      gc_flow = (\<lambda>conf sc r (w, n). case gc_flow gc conf sc r w of (x, w') \<Rightarrow> (x, (w', Suc n)))\<rparr>"

definition counted :: "('r, 'w) env \<Rightarrow> ('r, 'w \<times> nat) env" where
  "counted en = \<lparr>en_swift = counted_swift (en_swift en), en_gateway = counted_gateway (en_gateway en), en_conf = en_conf en,
     en_gateway_conf = en_gateway_conf en\<rparr>"

text \<open>\<open>route\<close> is what the proxy server makes of a request for an object server.\<close>

definition proxy_side :: "(wsgi_req \<Rightarrow> wsgi_req) \<Rightarrow> ('r, 'w) env \<Rightarrow> ('r, 'w \<times> nat) env" where
  "proxy_side route en = (counted en)\<lparr>en_swift := (counted_swift (en_swift en))
     \<lparr>sw_app := (\<lambda>q. middleware_call ExecObject (counted en) (route q))\<rparr>\<rparr>"

text \<open>An object that is neither large nor a symlink nor erasure-coded.\<close>

definition plain :: "'w swift \<Rightarrow> wsgi_resp \<Rightarrow> bool" where
  "plain sw r \<longleftrightarrow> \<not> is_slo_response r \<and> \<not> is_symlink_response r \<and> \<not> obj_is_symlink_response sw r \<and> \<not> is_ec_response sw r"

lemma counted_simps [simp]:
  "en_swift (counted en) = counted_swift (en_swift en)" "en_gateway (counted en) = counted_gateway (en_gateway en)"
  "en_conf (counted en) = en_conf en" "en_gateway_conf (counted en) = en_gateway_conf en"
  "sw_true (counted_swift sw) = sw_true sw" "sw_ranges (counted_swift sw) = sw_ranges sw" "sw_subrequest (counted_swift sw) = sw_subrequest sw"
  "sw_http_error (counted_swift sw) = sw_http_error sw" "sw_split_path (counted_swift sw) = sw_split_path sw" "sw_sysmeta (counted_swift sw) = sw_sysmeta sw"
  "gc_init (counted_gateway gc) = gc_init gc" "gc_request (counted_gateway gc) = gc_request gc" "gc_append (counted_gateway gc) = gc_append gc"
  by (simp_all add: counted_def counted_swift_def counted_gateway_def)

lemma proxy_side_simps [simp]:
  "en_swift (proxy_side route en) = (counted_swift (en_swift en))\<lparr>sw_app := (\<lambda>q. middleware_call ExecObject (counted en) (route q))\<rparr>"
  "en_gateway (proxy_side route en) = counted_gateway (en_gateway en)" "en_conf (proxy_side route en) = en_conf en"
  by (simp_all add: proxy_side_def)

lemma store_keeps: "sw_app (counted_swift sw) q s = (x, s') \<Longrightarrow> \<exists>w'. sw_app sw q (fst s) = (x, w') \<and> s' = (w', snd s)"
  by (auto simp: counted_swift_def split: prod.splits)

lemma flow_counts: "gc_flow (counted_gateway gc) conf sc r s = (x, s') \<Longrightarrow> \<exists>w'. gc_flow gc conf sc r (fst s) = (x, w') \<and> s' = (w', Suc (snd s))"
  by (auto simp: counted_gateway_def split: prod.splits)

lemma ranges_same [simp]:
  "is_storlet_multiple_range_request (counted_swift sw) h = is_storlet_multiple_range_request sw h"
  "is_storlet_multiple_range_request (sw2\<lparr>sw_app := f\<rparr>) h = is_storlet_multiple_range_request sw2 h"
  by (simp_all add: is_storlet_multiple_range_request_def cong: option.case_cong)

lemma decision_same [simp]:
  "is_proxy_runnable (counted_swift sw) h r = is_proxy_runnable sw h r" "is_proxy_runnable (sw2\<lparr>sw_app := f\<rparr>) h r = is_proxy_runnable sw2 h r"
  "not_runnable (counted_swift sw) h q = not_runnable sw h q" "execute_range_on_proxy (sw2\<lparr>sw_app := f\<rparr>) h = execute_range_on_proxy sw2 h"
  by (simp_all add: is_proxy_runnable_def not_runnable_def execute_range_on_proxy_def obj_is_symlink_response_def is_ec_response_def)

lemma plain_decision:
  assumes "plain sw r" "\<not> is_slo_get_request h" "not_runnable sw h r = Inr run"
  shows "is_proxy_runnable sw h None = Inr run"
  using assms by (auto simp: plain_def not_runnable_def is_proxy_runnable_def rbind_Inr_iff)

lemma plain_runnable:
  "is_proxy_runnable sw h None = Inr run \<Longrightarrow> \<not> is_slo_response r \<Longrightarrow> \<not> is_symlink_response r \<Longrightarrow> is_proxy_runnable sw h (Some r) = Inr run"
  by (auto simp: is_proxy_runnable_def rbind_Inr_iff)

lemma result_headers_kind:
  assumes "x \<in> {''X-Static-Large-Object'', ''X-Symlink-Target''}"
  shows "dict_has (result_headers hs md) x = dict_has hs x"
proof -
  have "x \<noteq> meta k" for k using assms by auto
  moreover have "lower x \<noteq> ''content-type''" using assms by (auto simp: lower_def lower_char_def char_of_def bit_0)
  moreover have "dict_get (stripped_headers hs) x = dict_get hs x" using assms by (auto simp: stripped_headers_def Let_def split: option.split)
  ultimately show ?thesis unfolding result_headers_eq by (simp add: dict_has_iff set_metadata_other)
qed

section \<open>One server\<close>

definition run_count :: "'h \<times> 'w \<times> nat \<Rightarrow> nat" where "run_count s = snd (snd s)"

lemma run_count_simps [simp]: "run_count (h, w) = snd w"
  by (simp add: run_count_def)

definition forbidden :: "py_exc \<Rightarrow> bool" where "forbidden e \<longleftrightarrow> (\<exists>m. e = HTTPException 403 m)"

text \<open>What the environment promises: responses to errors have the status of an error, 403 only for this error; a gateway does not raise it;
  requests made by the middleware ask for no storlet; what the store has is plain; the exceptions by which the handlers decline a request
  are no errors of a gateway.\<close>

definition sound_env :: "('r, 'w) env \<Rightarrow> bool" where
  "sound_env en \<longleftrightarrow>
     (\<forall>c m. 400 \<le> wr_status (sw_http_error (en_swift en) c m) \<and> (wr_status (sw_http_error (en_swift en) c m) = 403 \<longrightarrow> c = 403)) \<and>
     (\<forall>conf sc r v e v'. gc_flow (en_gateway en) conf sc r v = (Inl e, v') \<longrightarrow> \<not> forbidden e) \<and>
     (\<forall>q m p hs. \<not> dict_has (rq_headers (sw_subrequest (en_swift en) q m p hs)) ''X-Run-Storlet'') \<and>
     (\<forall>q v r v'. sw_app (en_swift en) q v = (Inr r, v') \<and> is_success r \<longrightarrow> plain (en_swift en) r) \<and>
     (\<forall>conf sc e. gc_init (en_gateway en) conf sc = Inl e \<longrightarrow> e \<noteq> NotStorletRequest \<and> e \<noteq> NotStorletExecution)"

lemma sound_envD:
  assumes "sound_env en"
  shows "400 \<le> wr_status (sw_http_error (en_swift en) c m)" "wr_status (sw_http_error (en_swift en) c m) = 403 \<Longrightarrow> c = 403"
    "gc_flow (en_gateway en) conf sc r v = (Inl e, v') \<Longrightarrow> \<not> forbidden e"
    "\<not> dict_has (rq_headers (sw_subrequest (en_swift en) q m' p hs)) ''X-Run-Storlet''"
    "sw_app (en_swift en) q v = (Inr resp, v') \<Longrightarrow> is_success resp \<Longrightarrow> plain (en_swift en) resp"
    "\<not> is_success (sw_http_error (en_swift en) c m)"
    "gc_init (en_gateway en) conf sc = Inl e \<Longrightarrow> e \<noteq> NotStorletRequest \<and> e \<noteq> NotStorletExecution"
proof -
  show s: "400 \<le> wr_status (sw_http_error (en_swift en) c m)" for c m using assms by (simp add: sound_env_def)
  show "\<not> is_success (sw_http_error (en_swift en) c m)" using s [of c m] by (simp add: is_success_def)
qed (use assms in \<open>unfold sound_env_def, blast+\<close>)

lemma flow_triple:
  assumes "sound_env en" "en_gateway ce = counted_gateway (en_gateway en)"
  shows "triple (\<lambda>s. run_count s = n) (h_flow ce r) (\<lambda>_ s. run_count s = Suc n) (\<lambda>e s. run_count s = n \<or> run_count s = Suc n \<and> \<not> forbidden e)"
  unfolding h_flow_def
  by (rule triple_bind [OF triple_get], rule triple_world)
    (auto simp: assms(2) dest!: flow_counts dest: sound_envD(3) [OF assms(1)])

lemma data_iter_not_forbidden: "data_iter sd = Inl e \<Longrightarrow> \<not> forbidden e"
  by (auto simp: data_iter_def forbidden_def split: option.splits)

lemma apply_storlet_triple:
  assumes "sound_env en" "sw_http_error sw = sw_http_error (en_swift en)"
    and "triple P call (\<lambda>_ s. run_count s = Suc n) (\<lambda>e s. run_count s = n \<or> run_count s = Suc n \<and> \<not> forbidden e)"
  shows "triple P (apply_storlet sw call resp)
    (\<lambda>r s. (is_success r \<longrightarrow> run_count s = Suc n \<and> is_slo_response r = is_slo_response resp \<and> is_symlink_response r = is_symlink_response resp) \<and>
      (wr_status r = 403 \<longrightarrow> run_count s = n))
    (\<lambda>e s. forbidden e \<longrightarrow> run_count s = n)" (is "triple P _ ?Q ?E")
proof -
  have "triple (\<lambda>s. run_count s = n \<or> run_count s = Suc n \<and> \<not> forbidden e)
    (if is_StorletRuntimeException e then ereturn (sw_http_error sw 503 []) else eraise e) ?Q ?E" for e
    using sound_envD(2,6) [OF assms(1), of 503 "[]"] by (intro triple_if triple_return triple_raise) (auto simp: assms(2))
  moreover have "triple (\<lambda>s. run_count s = Suc n) (ebind (eres (data_iter sd)) (\<lambda>body. ereturn \<lparr>wr_status = 200,
      wr_headers = result_headers (wr_headers resp) (user_metadata sd), wr_body = body, wr_fp = None, wr_path = wr_path resp\<rparr>)) ?Q
    (\<lambda>e s. run_count s = n \<or> run_count s = Suc n \<and> \<not> forbidden e)" for sd
    by (cases "data_iter sd") (auto intro!: triple_return triple_raise dest: data_iter_not_forbidden simp: is_slo_response_def is_symlink_response_def
        result_headers_kind)
  ultimately show ?thesis unfolding apply_storlet_def by (intro triple_try [OF triple_bind [OF assms(3)]])
qed

lemma store_triple:
  assumes "sound_env en"
  shows "triple (\<lambda>s. fst s = h \<and> run_count s = n) (h_app (counted en))
    (\<lambda>r s. (fst s = h \<and> run_count s = n) \<and> (is_success r \<longrightarrow> plain (en_swift en) r)) (\<lambda>_ s. run_count s = n)"
  unfolding h_app_def
  by (rule triple_bind [OF triple_get], rule triple_world) (auto dest!: store_keeps dest: sound_envD(5) [OF assms])

lemma object_call_triple:
  assumes "sound_env en"
  shows "triple (\<lambda>s. run_count s = n) (object_call_gateway (counted en) orig) (\<lambda>_ s. run_count s = Suc n)
    (\<lambda>e s. run_count s = n \<or> run_count s = Suc n \<and> \<not> forbidden e)"
  unfolding object_call_gateway_def
proof (rule triple_bind [OF triple_get])
  fix h
  show "triple (\<lambda>s. run_count s = n \<and> h = id (fst s)) (ebind (eres (build_storlet_request (counted en) (object_options (en_swift (counted en))) h
      (wr_headers orig) (wr_body orig) (wr_fp orig))) (h_flow (counted en))) (\<lambda>_ s. run_count s = Suc n)
    (\<lambda>e s. run_count s = n \<or> run_count s = Suc n \<and> \<not> forbidden e)"
    by (rule triple_bind [where R = "\<lambda>_ s. run_count s = n"]) (auto intro: triple_res triple_pre [OF flow_triple [OF assms]])
qed

lemma object_get_triple:
  assumes "sound_env en" "\<not> is_slo_get_request ho"
  shows "triple (\<lambda>s. fst s = ho \<and> run_count s = n) (object_GET (counted en))
    (\<lambda>r s. (is_success r \<longrightarrow> (\<exists>run. is_proxy_runnable (en_swift en) ho None = Inr run \<and> run_count s = (if run then n else Suc n)) \<and>
        \<not> is_slo_response r \<and> \<not> is_symlink_response r) \<and> (wr_status r = 403 \<longrightarrow> run_count s = n))
    (\<lambda>e s. forbidden e \<longrightarrow> run_count s = n)" (is "triple ?P _ ?Q ?E")
proof -
  have answer: "triple (\<lambda>s. (fst s = ho \<and> run_count s = n) \<and> (is_success r \<longrightarrow> plain (en_swift en) r))
    (if \<not> is_success r then ereturn r else ebind (eres (not_runnable (en_swift (counted en)) ho r))
      (\<lambda>b. if b then ereturn r else apply_storlet (en_swift (counted en)) (object_call_gateway (counted en) r) r)) ?Q ?E" for r
  proof (cases "is_success r \<and> plain (en_swift en) r")
    case False
    then show ?thesis by (cases "is_success r") (auto simp: triple_def ereturn_def)
  next
    case True
    show ?thesis
    proof (cases "not_runnable (en_swift en) ho r")
      case (Inr b)
      note run = plain_decision [OF conjunct2 [OF True] assms(2) Inr]
      show ?thesis
      proof (cases b)
        case False
        show ?thesis using True Inr False
          by (simp, intro triple_weaken [OF apply_storlet_triple [OF assms(1) _ object_call_triple [OF assms(1)], where resp = r]])
            (auto simp: plain_def run)
      qed (use True Inr run in \<open>auto intro!: triple_return simp: plain_def\<close>)
    qed (use True in \<open>auto intro!: triple_raise\<close>)
  qed
  show ?thesis unfolding object_GET_def
  proof (rule triple_get_bind [where i = ho])
    show "triple ?P (if is_range_request (id ho) \<and> \<not> is_storlet_range_request (id ho) then eraise (HTTPException 416
        ''Storlet execution with range header is not supported'') else ebind (h_app (counted en)) (\<lambda>orig_resp. if \<not> is_success orig_resp
        then ereturn orig_resp else ebind (eres (not_runnable (en_swift (counted en)) (id ho) orig_resp)) (\<lambda>b. if b then ereturn orig_resp
        else apply_storlet (en_swift (counted en)) (object_call_gateway (counted en) orig_resp) orig_resp))) ?Q ?E"
      unfolding id_apply
      by (intro triple_if triple_raise triple_bind [OF triple_weaken [OF store_triple [OF assms(1)]] answer]) auto
  qed simp
qed

section \<open>The object server\<close>

lemma base_handler_fields:
  assumes "StorletBaseHandler en vaco q = Inr h"
  shows "h_request h = q" "storlet_execute_on_proxy h = sw_true (en_swift en) (Some (conf_get (en_conf en) ''storlet_execute_on_proxy'' ''false''))"
    "set_request vaco q = Inr (h_version h, h_account h, h_container h, h_obj h)"
  using assms by (auto simp: StorletBaseHandler_def Let_def container_names_def split: sum.splits)

lemma object_untouched:
  assumes "\<not> dict_has (rq_headers q) ''X-Run-Storlet''" "middleware_call ExecObject (counted en) q s = (x, s')"
  shows "snd s' = snd s"
proof -
  obtain e where "StorletObjectHandler (counted en) q s = (Inl e, s)"
    using assms(1) base_handler_fields(1) [of "counted en" _ q]
    by (cases "StorletBaseHandler (counted en) (object_parse_vaco (en_swift (counted en))) q")
      (auto simp: StorletObjectHandler_def is_storlet_execution_def)
  then show ?thesis using assms(2)
    by (auto simp: middleware_call_def make_handler_def split: if_splits prod.splits dest!: store_keeps)
qed

lemma setup_gateway_fields:
  assumes "setup_gateway en h = Inr h'"
  shows "hdr h' = hdr h" "rq_method (h_request h') = rq_method (h_request h)" "rq_path (h_request h') = rq_path (h_request h)"
    "storlet_execute_on_proxy h' = storlet_execute_on_proxy h" "h_obj h' = h_obj h"
  using assms by (auto simp: setup_gateway_def update_storlet_parameters_from_headers_def rbind_Inr_iff)

lemma parse_parameters_error: "parse_parameters hs = Inl e \<Longrightarrow> \<exists>m. e = ValueError m"
  by (auto simp: parse_parameters_def rbind_def split: sum.splits option.splits dest!: mapM_Inl)

lemma setup_gateway_error:
  "sound_env en \<Longrightarrow> setup_gateway (counted en) h = Inl e \<Longrightarrow> e \<noteq> NotStorletRequest \<and> e \<noteq> NotStorletExecution"
  by (cases "gc_init (en_gateway en) (en_gateway_conf en) (scope h)"; cases "parse_parameters (hdr h)")
    (auto simp: setup_gateway_def update_storlet_parameters_from_headers_def dest: sound_envD(7) parse_parameters_error)

lemma wsgify_same [simp]: "wsgify (counted_swift sw) x = wsgify sw x" "wsgify (sw2\<lparr>sw_app := f\<rparr>) x = wsgify sw2 x"
  by (auto simp: wsgify_def split: sum.split py_exc.split)

lemma map_error_forbidden: "map_error e = HTTPException 403 m \<Longrightarrow> forbidden e"
  by (auto simp: map_error_def forbidden_def split: if_splits py_exc.splits)

text \<open>Neither the query nor a header with a parameter asks for the manifest of a large object.\<close>

definition no_manifest :: "wsgi_req \<Rightarrow> bool" where
  "no_manifest q \<longleftrightarrow> dict_get (rq_params q) ''multipart-manifest'' \<noteq> Some ''get'' \<and>
     (\<forall>kv. parse_parameters (rq_headers q) = Inr kv \<longrightarrow> dict_get kv ''multipart-manifest'' \<noteq> Some ''get'')"

lemma dict_update_from: "dict_get (dict_update d kvs) k = Some v \<Longrightarrow> dict_get d k = Some v \<or> (k, v) \<in> set kvs"
  by (induction kvs arbitrary: d) (force simp: dict_update_def split: if_splits)+

lemma parse_parameters_ok: "parse_parameters hs = Inr kv \<Longrightarrow> dict_ok kv"
  by (auto simp: parse_parameters_def rbind_Inr_iff dict_ok_update)

lemma no_manifest_object:
  assumes "no_manifest (h_request h0)" "setup_gateway en h0 = Inr ho"
  shows "\<not> is_slo_get_request ho"
proof -
  obtain kv where kv: "parse_parameters (hdr h0) = Inr kv" "rq_params (h_request ho) = dict_update (rq_params (h_request h0)) kv"
    using assms(2) by (auto simp: setup_gateway_def update_storlet_parameters_from_headers_def rbind_Inr_iff)
  have "dict_get kv k = Some v" if "(k, v) \<in> set kv" for k v
    using that parse_parameters_ok [OF kv(1)] by (simp add: dict_ok_def dict_get_def)
  then show ?thesis using dict_update_from [of "rq_params (h_request h0)" kv] assms(1) kv by (auto simp: is_slo_get_request_def no_manifest_def)
qed

text \<open>Without this condition a storlet may not run at all: a parameter of this name in a header is taken for the query of the request.\<close>

lemma dict_update_get: "dict_ok kv \<Longrightarrow> dict_get kv k = Some v \<Longrightarrow> dict_get (dict_update d kv) k = Some v"
proof (induction kv arbitrary: d)
  case (Cons x kv)
  obtain a b where x: "x = (a, b)" by (cases x)
  have ok: "dict_ok kv" "dict_get kv a = None" using Cons.prems(1) x by (auto simp: dict_ok_def dict_get_def map_of_eq_None_iff)
  have "dict_get (dict_update d kvs) a = dict_get d a" if "dict_get kvs a = None" for kvs and d :: "'a dict"
    using that unfolding dict_update_def by (induction kvs arbitrary: d) (auto simp: dict_get_Cons split: if_splits)
  then show ?case using Cons.IH [OF ok(1)] Cons.prems(2) ok(2) x by (auto simp: dict_update_def dict_get_Cons split: if_splits)
qed simp

lemma manifest_parameter_declines:
  assumes "setup_gateway en h0 = Inr ho" "parse_parameters (hdr h0) = Inr kv" "dict_get kv ''multipart-manifest'' = Some ''get''"
    "not_runnable sw ho r = Inr b"
  shows b
proof -
  have "rq_params (h_request ho) = dict_update (rq_params (h_request h0)) kv"
    using assms(1,2) by (auto simp: setup_gateway_def update_storlet_parameters_from_headers_def rbind_Inr_iff)
  then have "is_slo_get_request ho" using dict_update_get [OF parse_parameters_ok [OF assms(2)] assms(3)] by (simp add: is_slo_get_request_def)
  then show ?thesis using assms(4) by (auto simp: not_runnable_def rbind_Inr_iff)
qed

text \<open>The answer of an object server to a GET with a storlet. A handler \<open>h\<close> of the proxy with the same headers comes to the same
  decision.\<close>

lemma object_answer:
  assumes "sound_env en" "dict_has (rq_headers q) ''X-Run-Storlet''" "rq_method q = ''GET''"
    "object_parse_vaco (en_swift en) q = Inr (v, a, c, Some ob)" "ob \<noteq> []"
    "no_manifest q"
    "hdr h = rq_headers q" "storlet_execute_on_proxy h = sw_true (en_swift en) (Some (conf_get (en_conf en) ''storlet_execute_on_proxy'' ''false''))"
    "middleware_call ExecObject (counted en) q s = (Inr r, s')"
  shows "(is_success r \<longrightarrow> (\<exists>run. is_proxy_runnable (en_swift en) h None = Inr run \<and> snd s' = (if run then snd s else Suc (snd s))) \<and>
      \<not> is_slo_response r \<and> \<not> is_symlink_response r) \<and> (wr_status r = 403 \<longrightarrow> snd s' = snd s)"
proof -
  obtain h0 where h0: "StorletBaseHandler (counted en) (object_parse_vaco (en_swift (counted en))) q = Inr h0" "h_obj h0 = Some ob"
    using assms(4) by (auto simp: StorletBaseHandler_def set_request_def object_parse_vaco_def container_names_def Let_def)
  note f = base_handler_fields(1,2) [OF h0(1)]
  have "is_storlet_execution h0" using assms(2,5) f(1) h0(2) by (simp add: is_storlet_execution_def has_obj_def)
  then have mk: "StorletObjectHandler (counted en) q s = (setup_gateway (counted en) h0, s)" using h0(1) by (simp add: StorletObjectHandler_def)
  show ?thesis
  proof (cases "setup_gateway (counted en) h0")
    case (Inl e)
    then show ?thesis using assms(9) mk setup_gateway_error [OF assms(1) Inl] sound_envD(6) [OF assms(1)]
      by (auto simp: middleware_call_def make_handler_def wsgify_def split: py_exc.splits)
  next
    case (Inr ho)
    note g = setup_gateway_fields [OF Inr]
    obtain x h' t where x: "object_GET (counted en) (ho, s) = (x, (h', t))" by (metis prod.exhaust)
    have ho: "\<not> is_slo_get_request ho" by (rule no_manifest_object [OF _ Inr]) (simp add: f(1) assms(6))
    have d: "is_proxy_runnable (en_swift en) ho None = is_proxy_runnable (en_swift en) h None"
      using same_decision(1) [of ho h] same_decision(2) [of ho h "en_swift en"] g f assms(7,8) by (simp add: is_proxy_runnable_def)
    have m: "middleware_call ExecObject (counted en) q s =
        (wsgify (en_swift en) (case x of Inl e \<Rightarrow> Inl (map_error e) | Inr y \<Rightarrow> Inr y), t)"
      using mk Inr x g(2) f(1) assms(3)
      by (simp add: middleware_call_def make_handler_def handle_request_def object_handle_request_def ebind_def eget_def split: sum.split)
    note tr = object_get_triple [OF assms(1) ho, of "snd s"]
    show ?thesis
    proof (cases x)
      case (Inr y)
      then show ?thesis using tripleD1 [OF tr _ x [unfolded Inr]] m assms(9) d by (simp add: wsgify_def)
    next
      case (Inl e)
      then show ?thesis using tripleD2 [OF tr _ x [unfolded Inl]] m assms(9) sound_envD(2,6) [OF assms(1)] map_error_forbidden [of e]
        by (auto simp: wsgify_def split: py_exc.splits)
    qed
  qed
qed

section \<open>The proxy server\<close>

text \<open>The proxy sends a request on with its headers, parameters and method, and the objects at \<open>p\<close> to an object server's path.\<close>

definition routes :: "(wsgi_req \<Rightarrow> wsgi_req) \<Rightarrow> ('r, 'w) env \<Rightarrow> string \<Rightarrow> bool" where
  "routes route en p \<longleftrightarrow>
     (\<forall>q. rq_headers (route q) = rq_headers q \<and> rq_params (route q) = rq_params q \<and> rq_method (route q) = rq_method q) \<and>
     (\<forall>q. rq_path q = p \<longrightarrow> (\<exists>v a c ob. object_parse_vaco (en_swift en) (route q) = Inr (v, a, c, Some ob) \<and> ob \<noteq> []))"

lemma routesD:
  assumes "routes route en p"
  shows "rq_headers (route q) = rq_headers q" "rq_params (route q) = rq_params q" "rq_method (route q) = rq_method q"
    "rq_path q = p \<Longrightarrow> \<exists>v a c ob. object_parse_vaco (en_swift en) (route q) = Inr (v, a, c, Some ob) \<and> ob \<noteq> []"
  using assms unfolding routes_def by blast+

text \<open>The handler during a GET.\<close>

definition executing :: "('r, 'w) env \<Rightarrow> string \<Rightarrow> handler \<Rightarrow> bool" where
  "executing en p h \<longleftrightarrow> rq_path (h_request h) = p \<and> rq_method (h_request h) = ''GET'' \<and> dict_has (hdr h) ''X-Run-Storlet'' \<and>
     storlet_execute_on_proxy h = sw_true (en_swift en) (Some (conf_get (en_conf en) ''storlet_execute_on_proxy'' ''false'')) \<and>
     no_manifest (h_request h)"

definition answered :: "'w swift \<Rightarrow> nat \<Rightarrow> wsgi_resp \<Rightarrow> handler \<times> 'v \<times> nat \<Rightarrow> bool" where
  "answered sw n r s \<longleftrightarrow>
     (is_success r \<longrightarrow> (\<exists>run. is_proxy_runnable sw (fst s) None = Inr run \<and> run_count s = (if run then n else Suc n)) \<and>
        \<not> is_slo_response r \<and> \<not> is_symlink_response r) \<and> (wr_status r = 403 \<longrightarrow> run_count s = n)"

lemma parameter_headers_set: "\<not> startswith (lower k) ''x-storlet-parameter'' \<Longrightarrow> parameter_headers (dict_set k v hs) = parameter_headers hs"
  unfolding parameter_headers_def dict_set_def by (induction hs) auto

lemma executing_set:
  assumes "executing en p h" "k \<in> {''Range'', ''Referer''}"
  shows "executing en p (set_headers (dict_set k v) h)"
proof -
  have "\<not> startswith (lower k) ''x-storlet-parameter''" using assms(2) by (auto simp: startswith_def lower_def lower_char_def char_of_def bit_0)
  then have "parse_parameters (dict_set k v (hdr h)) = parse_parameters (hdr h)" unfolding parse_parameters_def by (simp add: parameter_headers_set)
  then show ?thesis using assms by (auto simp: executing_def no_manifest_def dict_has_iff set_headers_def)
qed

lemma sub_triple:
  assumes "routes route en p" "\<not> dict_has (rq_headers q) ''X-Run-Storlet''"
  shows "triple (\<lambda>s. fst s = h \<and> run_count s = n) (eworld (sw_app (en_swift (proxy_side route en)) q)) (\<lambda>_ s. fst s = h \<and> run_count s = n) (\<lambda>_ s. run_count s = n)"
  using assms(2) routesD(1) [OF assms(1), of q] by (intro triple_world) (auto dest!: object_untouched [rotated])

lemma add_resources_triple:
  assumes "sound_env en" "routes route en p"
  shows "triple (\<lambda>s. fst s = h \<and> run_count s = n) (add_resources (proxy_side route en) r xs) (\<lambda>_ s. run_count s = n) (\<lambda>_ s. run_count s = n)"
proof (induction xs arbitrary: r)
  case (Cons x xs)
  let ?P = "\<lambda>s. fst s = h \<and> run_count s = n"
  have "triple ?P (add_resource (proxy_side route en) r x) (\<lambda>_. ?P) (\<lambda>_ s. run_count s = n)"
    unfolding add_resource_def
    by (rule triple_get_bind [where i = h], simp, rule triple_bind [OF sub_triple [OF assms(2)]], simp add: sound_envD(4) [OF assms(1)],
        rule triple_bind [OF triple_res [where Q = "\<lambda>_. ?P"]]) (auto intro: triple_return)
  then show ?case by (auto intro: triple_bind Cons.IH)
qed (auto intro: triple_return)

lemma proxy_call_triple:
  assumes "sound_env en" "routes route en p"
  shows "triple (\<lambda>s. fst s = h \<and> run_count s = n) (proxy_call_gateway (proxy_side route en) resp) (\<lambda>_ s. run_count s = Suc n)
    (\<lambda>e s. run_count s = n \<or> run_count s = Suc n \<and> \<not> forbidden e)"
proof -
  have "triple (\<lambda>s. fst s = h \<and> run_count s = n) (proxy_build_storlet_request (proxy_side route en) hs b fp) (\<lambda>_ s. run_count s = n) (\<lambda>_ s. run_count s = n)" for hs b fp
    unfolding proxy_build_storlet_request_def
    by (rule triple_get_bind [where i = h], simp, rule triple_bind [OF triple_res [where Q = "\<lambda>_ s. fst s = h \<and> run_count s = n"]])
      (auto intro: add_resources_triple [OF assms])
  from triple_weaken [OF this] show ?thesis unfolding proxy_call_gateway_def
    by (intro triple_bind [OF _ flow_triple [OF assms(1)]]) auto
qed

lemma app_triple:
  assumes "sound_env en" "routes route en p"
  shows "triple (\<lambda>s. executing en p (fst s) \<and> run_count s = n) (h_app (proxy_side route en))
    (\<lambda>r s. executing en p (fst s) \<and> answered (en_swift en) n r s) (\<lambda>_ _. True)"
  unfolding h_app_def
proof (rule triple_bind [OF triple_get], rule triple_world)
  fix q h s r s'
  assume a: "(executing en p (fst (h, s)) \<and> run_count (h, s) = n) \<and> q = h_request (fst (h, s))"
    and m: "sw_app (en_swift (proxy_side route en)) q s = (Inr r, s')"
  note d = routesD [OF assms(2), of q]
  have h: "executing en p h" "snd s = n" "q = h_request h" using a by simp_all
  then obtain v a c ob where ob: "object_parse_vaco (en_swift en) (route q) = Inr (v, a, c, Some ob)" "ob \<noteq> []"
    using d(4) by (auto simp: executing_def)
  have "middleware_call ExecObject (counted en) (route q) s = (Inr r, s')" using m by simp
  moreover have "dict_has (rq_headers (route q)) ''X-Run-Storlet''" "rq_method (route q) = ''GET''" "no_manifest (route q)" "hdr h = rq_headers (route q)"
    "storlet_execute_on_proxy h = sw_true (en_swift en) (Some (conf_get (en_conf en) ''storlet_execute_on_proxy'' ''false''))"
    using h(1) unfolding executing_def no_manifest_def d(1-3) unfolding h(3) by blast+
  ultimately show "executing en p (fst (h, s')) \<and> answered (en_swift en) n r (h, s')"
    using object_answer [OF assms(1) _ _ ob] h(1,2) unfolding answered_def run_count_simps fst_conv by blast
qed simp

lemma retry_triple:
  assumes "sound_env en" "routes route en p"
  shows "triple (\<lambda>s. executing en p (fst s) \<and> answered (en_swift en) n r s) (retry_with_referer (proxy_side route en) r)
    (\<lambda>r s. executing en p (fst s) \<and> answered (en_swift en) n r s) (\<lambda>_ _. True)"
proof (cases "wr_status r = 403")
  case True
  let ?again = "\<lambda>hs. case dict_get hs ''X-User-Name'' of
       None \<Rightarrow> eraise (KeyError ''HTTP_X_USER_NAME'')
     | Some user_name \<Rightarrow> if user_name = [] then eraise (HTTPException 401 ''User is not authorized'')
         else ebind (set_header ''Referer'' (''//'' @ build_acl_string user_name (conf_get hs ''X-Run-Storlet'' []))) (\<lambda>_. h_app (proxy_side route en))"
  have "triple (\<lambda>s. executing en p (fst s) \<and> run_count s = n) (?again hs) (\<lambda>r s. executing en p (fst s) \<and> answered (en_swift en) n r s) (\<lambda>_ _. True)" for hs
    unfolding set_header_def
    by (auto split: option.split intro!: triple_raise triple_bind [OF triple_modify app_triple [OF assms]] simp: executing_set)
  then have "triple (\<lambda>s. (executing en p (fst s) \<and> run_count s = n) \<and> hs = hdr (fst s)) (?again hs)
      (\<lambda>r s. executing en p (fst s) \<and> answered (en_swift en) n r s) (\<lambda>_ _. True)" for hs
    by (rule triple_pre) simp
  from triple_pre [OF triple_bind [OF triple_get this], of "\<lambda>s. executing en p (fst s) \<and> answered (en_swift en) n r s"]
  show ?thesis unfolding retry_with_referer_def using True by (simp add: answered_def [of _ _ r])
qed (auto simp: retry_with_referer_def intro: triple_return)

lemma deliver_triple:
  assumes "sound_env en" "routes route en p"
  shows "triple (\<lambda>s. executing en p (fst s) \<and> answered (en_swift en) n resp s)
    (if is_success resp then ebind (eget id) (\<lambda>h. ebind (eres (is_proxy_runnable (en_swift (proxy_side route en)) h (Some resp))) (\<lambda>run.
       if run then apply_storlet (en_swift (proxy_side route en)) (proxy_call_gateway (proxy_side route en) resp) resp
       else ereturn (resp\<lparr>wr_headers := dict_pop ''Content-Length'' (dict_pop ''Transfer-Encoding'' (wr_headers resp))\<rparr>)))
     else ereturn resp)
    (\<lambda>r s. is_success r \<longrightarrow> run_count s = Suc n) (\<lambda>_ _. True)" (is "triple ?P _ ?Q ?E")
proof (cases "is_success resp")
  case True
  have "triple (\<lambda>s. ?P s \<and> h = id (fst s)) (ebind (eres (is_proxy_runnable (en_swift (proxy_side route en)) h (Some resp))) (\<lambda>run.
       if run then apply_storlet (en_swift (proxy_side route en)) (proxy_call_gateway (proxy_side route en) resp) resp
       else ereturn (resp\<lparr>wr_headers := dict_pop ''Content-Length'' (dict_pop ''Transfer-Encoding'' (wr_headers resp))\<rparr>))) ?Q ?E" for h
  proof (cases "is_proxy_runnable (en_swift en) h (Some resp)")
    case (Inr run)
    have "run = run'" if "is_proxy_runnable (en_swift en) h None = Inr run'" "\<not> is_slo_response resp" "\<not> is_symlink_response resp" for run'
      using plain_runnable [OF that] Inr by simp
    then have at: "?P s \<and> h = id (fst s) \<Longrightarrow> fst s = h \<and> run_count s = (if run then n else Suc n)" for s
      using True by (auto simp: answered_def)
    show ?thesis
    proof (cases run)
      case True
      have "triple (\<lambda>s. fst s = h \<and> run_count s = n) (apply_storlet (en_swift (proxy_side route en)) (proxy_call_gateway (proxy_side route en) resp) resp) ?Q ?E"
        by (rule triple_weaken [OF apply_storlet_triple [OF assms(1) _ proxy_call_triple [OF assms]]]) auto
      moreover have "is_proxy_runnable (en_swift (proxy_side route en)) h (Some resp) = Inr True" using Inr True by simp
      ultimately show ?thesis using at True by (simp only: ebind_simps if_True) (erule triple_pre, simp)
    qed (use Inr at in \<open>auto intro!: triple_return\<close>)
  qed (auto intro: triple_raise)
  then show ?thesis using True by (auto intro: triple_bind [OF triple_get])
qed (auto intro: triple_return)

lemma range_triple:
  "triple (\<lambda>s. executing en p (fst s) \<and> run_count s = n) (range_to_proxy pe) (\<lambda>_ s. executing en p (fst s) \<and> run_count s = n) (\<lambda>_ _. True)" (is "triple ?P _ ?Q ?E")
proof -
  have "triple ?P (ebind (eres (execute_range_on_proxy (en_swift pe) h)) (\<lambda>b. if b then (case dict_get (hdr h) ''X-Storlet-Range'' of
      None \<Rightarrow> eraise (KeyError ''X-Storlet-Range'') | Some r \<Rightarrow> set_header ''Range'' r) else ereturn ())) ?Q ?E" for h
    by (cases "execute_range_on_proxy (en_swift pe) h")
      (auto simp: set_header_def executing_set split: option.split intro!: triple_raise triple_return triple_modify)
  then have "triple (\<lambda>s. ?P s \<and> h = id (fst s)) (ebind (eres (execute_range_on_proxy (en_swift pe) h)) (\<lambda>b. if b then
      (case dict_get (hdr h) ''X-Storlet-Range'' of None \<Rightarrow> eraise (KeyError ''X-Storlet-Range'') | Some r \<Rightarrow> set_header ''Range'' r)
      else ereturn ())) ?Q ?E" for h
    by (rule triple_pre) simp
  from triple_bind [OF triple_get this] show ?thesis unfolding range_to_proxy_def .
qed

lemma access_triple:
  assumes "sound_env en" "routes route en p"
  shows "triple (\<lambda>s. fst s = h \<and> run_count s = n) (verify_access_to_storlet (proxy_side route en)) (\<lambda>_ s. fst s = h \<and> run_count s = n) (\<lambda>_ s. run_count s = n)"
  unfolding verify_access_to_storlet_def
proof (rule triple_get_bind [where i = h])
  show "triple (\<lambda>s. fst s = h \<and> run_count s = n) (ebind (eworld (sw_app (en_swift (proxy_side route en)) (verify_request (en_swift (proxy_side route en)) h)))
    (\<lambda>resp. if \<not> is_success resp then eraise (HTTPException 401 ''Failed to verify access to the storlet. Either the storlet does not exist or you are not authorized to run the storlet.'')
       else eres (require_headers [''Content-Length'', ''X-Timestamp''] (wr_headers resp) (parse_storlet_params (wr_headers resp)))))
    (\<lambda>_ s. fst s = h \<and> run_count s = n) (\<lambda>_ s. run_count s = n)"
    by (rule triple_bind [OF sub_triple [OF assms(2)]])
      (auto simp: verify_request_def Let_def sound_envD(4) [OF assms(1)] intro!: triple_raise triple_res)
qed simp

section \<open>Properties\<close>

text \<open>C4: A GET runs its storlet exactly once in the whole cluster. The proxy server's application is the middleware of the object
  servers over a store of plain objects, and every run of the gateway on either server is counted. Whenever a client's GET with a storlet
  is answered with success, also after a second attempt with the internal referer and with extra resources, the gateway has run
  exactly one storlet since.\<close>

theorem get_runs_once:
  assumes "sound_env en" "routes route en (rq_path (h_request h))" "rq_method (h_request h) = ''GET''" "dict_has (hdr h) ''X-Run-Storlet''"
    "storlet_execute_on_proxy h = sw_true (en_swift en) (Some (conf_get (en_conf en) ''storlet_execute_on_proxy'' ''false''))"
    "verify_access_to_storlet (proxy_side route en) (h, s) = (Inr ps, s1)" "no_manifest (h_request (set_headers (augmented ps) h))"
    "proxy_GET (proxy_side route en) (h, s) = (Inr resp, (h', s'))" "is_success resp"
  shows "snd s' = Suc (snd s)"
proof -
  let ?pe = "proxy_side route en" and ?p = "rq_path (h_request h)" and ?n = "snd s"
  let ?tail = "ebind (range_to_proxy ?pe) (\<lambda>_. ebind (h_app ?pe) (\<lambda>resp0. ebind (retry_with_referer ?pe resp0) (\<lambda>resp.
     if is_success resp then ebind (eget id) (\<lambda>h. ebind (eres (is_proxy_runnable (en_swift ?pe) h (Some resp))) (\<lambda>run.
       if run then apply_storlet (en_swift ?pe) (proxy_call_gateway ?pe resp) resp
       else ereturn (resp\<lparr>wr_headers := dict_pop ''Content-Length'' (dict_pop ''Transfer-Encoding'' (wr_headers resp))\<rparr>)))
     else ereturn resp)))"
  have s1: "fst s1 = h" "run_count s1 = ?n" using tripleD1 [OF access_triple [OF assms(1,2)] _ assms(6), of h ?n] by simp_all
  have tail: "triple (\<lambda>s. executing en ?p (fst s) \<and> run_count s = ?n) ?tail (\<lambda>r s. is_success r \<longrightarrow> run_count s = Suc ?n) (\<lambda>_ _. True)"
    by (intro triple_bind [OF range_triple] triple_bind [OF app_triple [OF assms(1,2)]] triple_bind [OF retry_triple [OF assms(1,2)]]
        deliver_triple [OF assms(1,2)])
  have "\<not> is_range_request h" using assms(8) by (auto simp: proxy_GET_def ebind_def [of "eget _"] eget_def eraise_def)
  then have "proxy_GET ?pe (h, s) = ?tail (set_headers (augmented ps) h, snd s1)"
    using assms(6) s1(1) by (simp add: proxy_GET_def ebind_def [of "eget is_range_request"] ebind_def [of "verify_access_to_storlet ?pe"]
        ebind_def [of "emodify _"] eget_def augment_storlet_request_def emodify_def)
  moreover have "executing en ?p (set_headers (augmented ps) h)"
    using assms(3-5,7) augmented_other [of "''X-Run-Storlet''" ps "hdr h"]
    by (simp add: executing_def dict_has_iff startswith_def set_headers_def)
  ultimately show ?thesis using tripleD1 [OF tail, of "(set_headers (augmented ps) h, snd s1)" resp "(h', s')"] assms(8,9) s1(2)
    by (simp add: run_count_def)
qed

definition cluster_env :: "(storlet_request, nat) env" where
  "cluster_env = \<lparr>en_swift = (sample_swift Suc (\<lambda>_. sample_response 200 [(''Content-Length'', ''4''), (''X-Timestamp'', ''1.0'')]))
       \<lparr>sw_subrequest := (\<lambda>r m p hs. sample_req m p []),
        sw_http_error := (\<lambda>c m. \<lparr>wr_status = max 400 c, wr_headers = [], wr_body = Chunks [m], wr_fp = None, wr_path = []\<rparr>)\<rparr>,
     en_gateway = stub_gateway, en_conf = [], en_gateway_conf = []\<rparr>"

definition to_object_server :: "wsgi_req \<Rightarrow> wsgi_req" where
  "to_object_server q = q\<lparr>rq_path := ''/sda/0'' @ drop 3 (rq_path q)\<rparr>"

definition cluster_get :: handler where
  "cluster_get = sample_handler (sample_req ''GET'' ''/v1/AUTH_a/c/o'' [(''X-Run-Storlet'', ''m.py'')])"

lemma stub_never_forbidden: "indentity_invocation r = Inl e \<Longrightarrow> \<not> forbidden e"
  by (cases "data_iter (sr_data r)")
    (auto simp: indentity_invocation_def StorletData_def forbidden_def Let_def dest: data_iter_not_forbidden split: data_source.splits if_splits)

lemma cluster_sound: "sound_env cluster_env"
proof -
  have "\<not> forbidden e" if "gc_flow (en_gateway cluster_env) conf sc r v = (Inl e, v')" for conf sc r v e v'
    using that stub_never_forbidden [of r e] by (simp add: cluster_env_def stub_gateway_def)
  moreover have "plain (en_swift cluster_env) (sample_response 200 [(''Content-Length'', ''4''), (''X-Timestamp'', ''1.0'')])" by code_simp
  ultimately show ?thesis
    by (auto simp: sound_env_def cluster_env_def sample_swift_def stub_gateway_def sample_req_def dict_has_def dict_get_def)
qed

lemma cluster_routes: "routes to_object_server cluster_env (rq_path (h_request cluster_get))"
proof -
  have "case object_parse_vaco (en_swift cluster_env) (sample_req [] ''/sda/0/AUTH_a/c/o'' []) of Inr (v, a, c, ob) \<Rightarrow> ob = Some ''o'' | Inl _ \<Rightarrow> False"
    by code_simp
  then obtain v a c where "object_parse_vaco (en_swift cluster_env) (sample_req [] ''/sda/0/AUTH_a/c/o'' []) = Inr (v, a, c, Some ''o'')"
    by (auto split: sum.splits)
  then have "object_parse_vaco (en_swift cluster_env) (to_object_server q) = Inr (v, a, c, Some ''o'')" if "rq_path q = ''/v1/AUTH_a/c/o''" for q
    using that by (simp add: object_parse_vaco_def to_object_server_def sample_req_def)
  then show ?thesis unfolding routes_def by (auto simp: to_object_server_def cluster_get_def sample_handler_def sample_req_def)
qed

lemma cluster_access: "verify_access_to_storlet (proxy_side to_object_server cluster_env) (cluster_get, (0, 0)) =
    (Inr [(''Content-Length'', ''4''), (''X-Timestamp'', ''1.0'')], (cluster_get, (1, 0)))"
  by code_simp

lemma cluster_answer:
  "case proxy_GET (proxy_side to_object_server cluster_env) (cluster_get, (0, 0)) of (Inr r, _) \<Rightarrow> is_success r | _ \<Rightarrow> False"
  by code_simp

theorem get_runs_once_witness:
  "\<exists>resp h' w. proxy_GET (proxy_side to_object_server cluster_env) (cluster_get, (0, 0)) = (Inr resp, (h', (w, 1))) \<and> is_success resp"
proof -
  let ?ps = "[(''Content-Length'', ''4''), (''X-Timestamp'', ''1.0'')]"
  obtain resp h' s' where g: "proxy_GET (proxy_side to_object_server cluster_env) (cluster_get, (0, 0)) = (Inr resp, (h', s'))" "is_success resp"
    using result_cases [OF cluster_answer] by (metis prod.exhaust)
  have "parse_parameters (rq_headers (h_request (set_headers (augmented ?ps) cluster_get))) = Inr []" by code_simp
  then have "no_manifest (h_request (set_headers (augmented ?ps) cluster_get))"
    unfolding no_manifest_def by (simp add: cluster_get_def sample_handler_def sample_req_def)
  moreover have "rq_method (h_request cluster_get) = ''GET''" "dict_has (hdr cluster_get) ''X-Run-Storlet''" "storlet_execute_on_proxy cluster_get =
      sw_true (en_swift cluster_env) (Some (conf_get (en_conf cluster_env) ''storlet_execute_on_proxy'' ''false''))" by code_simp+
  ultimately have "snd s' = 1" using get_runs_once [OF cluster_sound cluster_routes _ _ _ cluster_access _ g] by simp
  then show ?thesis using g by (metis prod.collapse)
qed

end
