(* ===== verification/Spec2Isabelle.thy ===== *)
theory Spec2Isabelle
  imports Runs Samples Registry Entry Cluster
begin

text \<open>
  A verification development of OpenStack Storlets, which runs user code (storlets) next to the data of a Swift object
  store. All paths below are under \<open>src/\<close>.

  \<^bold>\<open>The program and its model.\<close> A request reaches the Swift middleware on the proxy server or on an object server; the
  middleware builds a storlet request and calls a gateway; the container gateway brings the storlet and its dependencies
  to the sandbox of the account, makes sure that the sandbox and a daemon for the storlet run, and executes the storlet
  through the SBus, a datagram protocol that also carries descriptors. In the sandbox a daemon factory starts one daemon
  per storlet, and the daemon forks a process per execution. From the bottom up:

  \<^item> \<open>Prelude\<close>: exceptions of Python as one datatype, strings, dictionaries as association lists with distinct keys, and
    the collection \<open>py_str\<close>. \<open>Json\<close>: \<open>json.dumps\<close> and \<open>json.loads\<close>.
  \<^item> \<open>Datagram\<close> (\<open>storlets/sbus/datagram.py\<close>, \<open>command.py\<close>, \<open>file_description.py\<close>) and \<open>Transport\<close>
    (\<open>storlets/sbus/sbus.py\<close>, the frame of \<open>src/c/sbus/sbus.c\<close>): what is sent is what is received.
  \<^item> \<open>Server\<close> (\<open>storlets/agent/common/server.py\<close>): handler look-up, dispatch and main loop of both agents.
  \<^item> \<open>Files\<close> (\<open>storlets/agent/daemon/files.py\<close>): the files a storlet reads and writes.
  \<^item> \<open>Os\<close>: the system calls of the agents and what POSIX documents of child processes. \<open>Daemon\<close>
    (\<open>storlets/agent/daemon/server.py\<close>): task table, pool, execution, cancel. \<open>Client\<close> (\<open>storlets/sbus/client/\<close>): requests
    and their replies. \<open>Factory\<close> (\<open>storlets/agent/daemon_factory/server.py\<close>): starting and stopping daemons.
  \<^item> \<open>Simulation\<close>: runs of step relations with events, and forward simulation. \<open>Pool\<close> and \<open>Registry\<close>: the specifications of the
    daemon (a bounded pool of tasks) and of the factory (a registry of names) and the two servers among their environment, as step
    relations over the handlers of \<open>Daemon\<close> and \<open>Factory\<close>. \<open>Entry\<close>: logging (\<open>storlets/agent/common/utils.py\<close>) and the \<open>main\<close>
    functions of both servers, from the command line to the exit status.
  \<^item> \<open>Stob\<close> (\<open>storlets/gateway/common/stob.py\<close>), \<open>Gateway\<close> (\<open>storlets/gateway/gateways/container/gateway.py\<close>: registration,
    requests, cache), \<open>Sandbox\<close> (\<open>RunTimePaths\<close> and \<open>RunTimeSandbox\<close> of \<open>container/runtime.py\<close>, and the two engines of
    \<open>docker/runtime.py\<close> and \<open>podman/runtime.py\<close>).
  \<^item> \<open>Effects\<close>: sequences of steps that may raise, with triples for both ways to end. \<open>Invocation\<close>
    (\<open>StorletInvocationProtocol\<close> of \<open>container/runtime.py\<close>, \<open>common/logger.py\<close>, \<open>invocation_flow\<close>): one run.
  \<^item> \<open>Runs\<close>: where the gateway's run meets the daemon.
  \<^item> \<open>Middleware\<close> (\<open>storlets/swift_middleware/handlers/base.py\<close>, \<open>gateways/base.py\<close>, \<open>stub.py\<close>), \<open>Proxy\<close>
    (\<open>handlers/proxy.py\<close>), \<open>ObjectServer\<close> (\<open>handlers/obj.py\<close>, \<open>storlet_handler.py\<close>, \<open>gateway/loader.py\<close>). \<open>Responses\<close>: the response
    that a client gets. \<open>Stored\<close>: what PUT and COPY store. \<open>Cluster\<close>: the middleware of the proxy server over that of an
    object server.
  \<^item> \<open>Samples\<close> (\<open>StorletSamples/python\<close>, \<open>storlets/tools/testtools.py\<close>): the sample storlets on the daemon's files and on the
    fakes. \<open>Tools\<close> (the other files of \<open>storlets/tools\<close>): deployment.

  A class is a record, a method a function that returns a result of type \<open>'a res\<close> (\<open>Inl\<close> the exception) with the new
  object. Code outside the repository is a record of operations over a world: the kernel (\<open>os_ops\<close>, \<open>inv_ops\<close>, \<open>dir_ops\<close>),
  the container engine (\<open>engine\<close>), Swift (\<open>swift\<close>), a user's storlet.

  \<^bold>\<open>Interfaces.\<close> Each is a locale with the laws that the caller relies on, interpreted on the model:
  \<open>codec\<close> on JSON; \<open>sbus_server\<close> (every handler answers and keeps the invariant) for both agents, by \<open>sublocale\<close> from
  \<open>process_os\<close> and \<open>factory_os\<close>; \<open>process_os\<close> on a process table; \<open>pipe_os\<close> on a client whose peer is a served daemon;
  \<open>byte_stream\<close> and \<open>chunk_source\<close> on the storlet's files and on the gateway's iterator; \<open>stopper\<close> on kill and shutdown;
  \<open>invocation_os\<close> and \<open>invocation_env\<close> on a host with a daemon; \<open>gateway_requests\<close> and its extension \<open>gateway_inputs\<close> on the
  container gateway and the stub;
  \<open>storlet_files\<close> on the daemon's files and the fakes of the test tools. \<open>process_env\<close> and \<open>factory_env\<close> add the steps of the
  environment (children that end) and are interpreted on the process table and on a container; each gives \<open>forward_simulation\<close>
  by \<open>sublocale\<close>.

  \<^bold>\<open>What is proved.\<close>
  \<^item> Protocol: JSON, datagrams and frames round-trip; exactly the descriptor lists with the required types are accepted;
    a client's request returns what the handler of the server produced and leaks no descriptor (\<open>client_reaches_server\<close>).
  \<^item> Agents: dispatch answers every well-formed datagram and keeps the tables consistent; the pool bound holds; waiting
    for children ends; the factory sees a running daemon; storlet files are closed and send metadata before data.
  \<^item> Refinement: along every interleaving the daemon is a bounded pool and the factory a registry, as their answers say
    (\<open>daemon_refines_pool\<close>, \<open>factory_refines_registry\<close>).
  \<^item> Processes: the requested values reach the processes through their command lines; a process exits with 0 only when no task or
    no daemon is left; a log level lets exactly the messages through that are severe enough.
  \<^item> End to end: an object goes through the datagram, the daemon, a storlet and the gateway's iterator and comes back unchanged
    (\<open>object_through_storlet\<close>); a GET answers with the data and metadata of the result, and in a cluster of both servers it runs the
    storlet exactly once (\<open>get_runs_once\<close>); a PUT stores what the storlet made of the whole body, a COPY what it made of the source, with
    one run (\<open>put_stores_result\<close>, \<open>copy_stores_result\<close>, \<open>copy_runs_exactly_once\<close>).
  \<^item> Files: reading is reading the bytes or the range, line by line or in chunks, for the daemon's and the gateway's files.
  \<^item> Gateway: the container gets the cached copy; pipes of different scopes differ; restarting a sandbox respects the
    limit of containers and ends with a factory that answered; an updated storlet gets a fresh daemon; a run closes its
    descriptors; a run that times out is cancelled in the daemon; the range and the metadata arrive.
  \<^item> Middleware: other requests pass unchanged; without access to the storlet nothing runs; the registered main class is
    the one that runs; a registered Python storlet can be loaded; the internal referer cannot be forged; a storlet runs on
    exactly one of proxy and object server; every handled request is answered.
  \<^item> Samples and tools: the simple sample returns the object, the multipart sample frames its inputs, a test with the fakes
    predicts the daemon, and what the deployment tool uploads passes the registration.
  \<^item> Where the code does not do what it means to, the theorem states what it does (for example \<open>same_size_update_lost\<close>,
    \<open>ec_object_runs_nowhere\<close>, \<open>fd_readline_unterminated_hangs\<close>, and \<open>copy_stores_result\<close>, which also stores the text of an error).

  \<^bold>\<open>Bounds and fuel.\<close> The JSON reader has fuel, and \<open>pval_fuel\<close> shows that the length of the text is enough. Loops that
  may not end are \<open>partial_function (option)\<close> or \<open>while_option\<close>; that they return is proved, or that they do not. Waiting
  for a daemon or a sandbox gets the number of tries that fit into the timeout as an argument; the laws hold for each
  number. Integers of the frame are 32-bit and wrap; Python's are unbounded. Times are integers in nanoseconds. Text
  is a list of characters up to U+00FF.

  \<^bold>\<open>Not modelled.\<close> Opening the socket and ancillary data, and the declarations of the C functions (system calls and
  \<open>ctypes\<close> under \<open>Transport\<close>); the text of log messages; options on the command line other than the positional arguments (a parameter of
  \<open>Entry\<close>); abstract classes and the methods of the handlers' and the file manager's base class that every subclass overrides; the
  Java daemon and JNI; packaging and documentation settings. Green threads run in the order in which the operations of \<open>inv_ops\<close> let
  them run. A method name that is an attribute of a handler but not public is answered with 405 like an unknown one. In \<open>Cluster\<close>
  the objects are plain: large objects and symlinks are assembled by Swift between the two servers.
\<close>

section \<open>Shared lemmas\<close>

lemma json_ok_dict_set: "json_ok (JObj d) \<Longrightarrow> json_ok v \<Longrightarrow> json_ok (JObj (dict_set k v d))"
proof (induction d)
  case (Cons x d)
  then show ?case by (cases x) (auto simp: dict_set_def dict_ok_def dom_update)
qed (simp add: dict_set_def dict_ok_def)

section \<open>Properties across components\<close>

text \<open>C1: A client and a server agree end to end. For every command whose datagram fits one message, the client's
  request over the pipe, the frame and the dispatcher returns exactly the response the server's handler produced,
  the server's invariant still holds, and the client holds no more descriptors than before.\<close>

theorem client_reaches_server:
  assumes "sbus_server hs I" "I (sv_state w)" "sv_ok w" "0 < n"
    "build_datagram cmd ss ps tid = Inr d"
    "ss = SBusFileDescriptor SBUS_FD_SERVICE_OUT (sv_next w + 1) [] JNull # extra"
    "dtg_ok d" "wire_size d \<le> MAX_MSG_LENGTH" "length ss < 2 ^ 31"
  shows "\<exists>r st' w'. handle_command hs (d\<lparr>sfds := renumber (map int [0 ..< length ss]) ss\<rparr>) (sv_state w) = (Inr r, st') \<and>
    I st' \<and> request (served_ops hs) path n cmd ps tid extra w = (Inr (response_of r), w') \<and>
    set (sv_open w') = set (sv_open w)"
  by (rule request_served [OF assms])

theorem client_reaches_server_witness:
  "\<exists>w'. request (served_ops [(''ping'', ping)]) ''/p'' 16 (JStr ''SBUS_CMD_PING'') JNull JNull [] sample_served
     = (Inr \<lparr>rs_status = JBool True, rs_message = JStr ''OK'', rs_task_id = JNull\<rparr>, w')"
proof -
  have st: "(\<lambda>n :: nat. n < 5) (sv_state sample_served)" by (simp add: sample_served_def)
  have p: "build_datagram (JStr ''SBUS_CMD_PING'')
      [SBusFileDescriptor SBUS_FD_SERVICE_OUT (sv_next sample_served + 1) [] JNull] JNull JNull
      = Inr (ping_sent (sv_next sample_served + 1))"
    by (rule ping_sent(1))
  from client_reaches_server [OF ping_server st sample_served_ok _ p refl ping_sent(2) ping_wire, of 16 "''/p''"]
  show ?thesis by (auto simp: handle_ping ping_sent_def response_of_def resp_defs)
qed




definition sample_inv :: invocation where
  "sample_inv = \<lparr>srequest = chunk_request\<lparr>cr_start := JInt 2, cr_end := JInt 5\<rparr>, storlet_pipe_path = ''/pipe'',
     storlet_logger = \<lparr>log_path = ''/log/f'', lg_file = Some 7\<rparr>, data_read_fd = Some 10, data_write_fd = Some 11,
     metadata_read_fd = Some 4, metadata_write_fd = Some 13, inv_task_id = JStr ''t1'',
     own_input_read_fd = Some 14, own_input_write_fd = Some 15, extra_data_sources = []\<rparr>"

definition slow_ops :: "world dstate served inv_ops" where
  "slow_ops = \<lparr>io = served_ops (daemon_handlers table_ops sample_content),
     dirs = \<lparr>path_exists = (\<lambda>_ _. True), os_makedirs = (\<lambda>_ _ w. (Inr (), w)), os_chmod = (\<lambda>_ _ w. (Inr (), w))\<rparr>,
     open_append = (\<lambda>_ w. (Inr 7, w)), select_read = (\<lambda>_ w. (Inl StorletTimeout, w)),
     select_write = (\<lambda>_ w. (Inl StorletTimeout, w)), spawn_writer = (\<lambda>_ _ w. w)\<rparr>"




text \<open>The metadata a storlet sets is the metadata the gateway returns: what \<open>set_metadata\<close> writes, read in one piece
  from the metadata pipe, is decoded to the same dictionary, and the pipe is closed.\<close>

theorem metadata_reaches_gateway:
  assumes "invocation_env ops open_fds rest ok" "ok w" "metadata_read_fd i = Some fd" "fd \<in> open_fds w"
    "out_set_metadata (StorletOutputFile n) md = (Inr (), f)" "json_ok md" "select_read ops fd w = (Inr [fd], w1)"
    "os_read (io ops) fd MAX_METADATA_SIZE w1 = (Inr (w_data (out_md f)), w2)"
  shows "\<exists>w'. read_metadata ops (i, w) = (Inr md, (i, w')) \<and> open_fds w' = open_fds w - {fd}"
proof -
  have "w_data (out_md f) = utf8_encode (dumps md)"
    using assms(5) by (auto simp: out_set_metadata_def StorletOutputFile_def wfile_open_def wfile_write_def wfile_close_def)
  moreover have "utf8_encode (dumps md) = dumps md" "utf8_decode (dumps md) = Inr (dumps md)" "loads (dumps md) = Inr md"
    using assms(6) by (simp_all add: js.utf8_enc js.utf8_dec_enc js.dec_enc)
  ultimately have "rbind (utf8_decode (w_data (out_md f))) loads = Inr md" by simp
  from invocation_env.read_metadata_decoded [OF assms(1,2,3,4,7,8) this] show ?thesis .
qed

theorem metadata_reaches_gateway_witness:
  "\<exists>w'. read_metadata (host_ops no_server) (sample_inv, \<lparr>hp_served = sample_served\<lparr>sv_open := [4]\<rparr>, hp_data = (\<lambda>_. ''{}'')\<rparr>)
     = (Inr (JObj []), (sample_inv, w'))"
proof -
  let ?w = "\<lparr>hp_served = sample_served\<lparr>sv_open := [4]\<rparr>, hp_data = (\<lambda>_. ''{}'')\<rparr> :: nat host"
  let ?f = "snd (out_set_metadata (StorletOutputFile 5) (JObj []))"
  have d: "w_data (out_md ?f) = ''{}''" "fst (out_set_metadata (StorletOutputFile 5) (JObj [])) = Inr ()" by code_simp+
  then have s: "out_set_metadata (StorletOutputFile 5) (JObj []) = (Inr (), ?f)" by (metis prod.collapse)
  have "metadata_read_fd sample_inv = Some 4" by (simp add: sample_inv_def)
  from metadata_reaches_gateway [OF no_server_env _ this _ s, of ?w ?w "snd (host_read 4 MAX_METADATA_SIZE ?w)"] d(1)
  show ?thesis by (auto simp: sv_ok_def sample_served_def host_ops_def host_base_def host_read_def MAX_METADATA_SIZE_def)
qed

text \<open>C37: A Python storlet that the proxy registered can be loaded by the daemon: its main class names the module of the
  uploaded file, so that the daemon's constructor asks the import system for exactly this module and a class of it and
  cannot reject the name.\<close>

theorem registered_storlet_loads:
  assumes "en_gateway en = container_gateway ops" "validate_registration en h = Inr ()"
    "h_container h = storlet_container h" "h_obj h = Some name"
    "lower (conf_get (parse_storlet_params (hdr h)) ''Language'' []) = ''python''"
    "load = (\<lambda>m c. if m @ ''.py'' = name then Inr (classes c) else Inl ImportError)"
  shows "\<exists>c s. StorletDaemon_init load (conf_get (parse_storlet_params (hdr h)) ''Main'' []) pool w = Inr s \<and>
    d_storlet s = classes c \<and> task_id_to_pid s = [] \<and> d_pool_size s = pool"
proof -
  have "validate_storlet_registration (parse_storlet_params (hdr h)) name = Inr ()"
    using assms(1-4) by (auto simp: validate_registration_def container_gateway_def split: sum.splits py_exc.splits)
  then have "check_python (parse_storlet_params (hdr h)) name = Inr ()"
    using assms(5) by (auto simp: validate_storlet_registration_def rbind_Inr_iff Let_def split: if_splits)
  from check_python_Inr [OF this] obtain m c where mc: "name = m @ ''.py''"
    "conf_get (parse_storlet_params (hdr h)) ''Main'' [] = m @ ''.'' @ c" "CHR ''.'' \<notin> set m" "CHR ''.'' \<notin> set c" by blast
  have "split_on CHR ''.'' (m @ ''.'' @ c) = [m, c]" using mc(3,4) by (simp add: split_on_append_sep split_on_no_sep)
  then show ?thesis using mc(1) by (auto simp: StorletDaemon_init_def mc(2) assms(6))
qed

theorem registered_storlet_loads_witness:
  "\<exists>c s. StorletDaemon_init (\<lambda>m c. if m @ ''.py'' = ''m.py'' then Inr (d_storlet sample_daemon) else Inl ImportError)
     (conf_get (parse_storlet_params [(''X-Object-Meta-Storlet-Language'', ''Python''), (''X-Object-Meta-Storlet-Interface-Version'', ''1.0''),
        (''X-Object-Meta-Storlet-Object-Metadata'', ''no''), (''X-Object-Meta-Storlet-Main'', ''m.Cls'')]) ''Main'' []) 3 () = Inr s \<and>
     d_storlet s = (\<lambda>_. d_storlet sample_daemon) c \<and> task_id_to_pid s = [] \<and> d_pool_size s = 3"
proof -
  let ?hs = "[(''X-Object-Meta-Storlet-Language'', ''Python''), (''X-Object-Meta-Storlet-Interface-Version'', ''1.0''),
        (''X-Object-Meta-Storlet-Object-Metadata'', ''no''), (''X-Object-Meta-Storlet-Main'', ''m.Cls'')]"
  let ?h = "(sample_handler (sample_req ''PUT'' ''/v1/AUTH_a/storlet/m.py'' ?hs))\<lparr>h_container := ''storlet'', h_obj := Some ''m.py''\<rparr>"
  have "validate_registration container_env ?h = Inr ()" by code_simp
  moreover have "h_container ?h = storlet_container ?h" "h_obj ?h = Some ''m.py''" by (simp_all add: sample_handler_def)
  moreover have "lower (conf_get (parse_storlet_params (hdr ?h)) ''Language'' []) = ''python''" by code_simp
  moreover have "en_gateway container_env = container_gateway flow_sample" by (simp add: container_env_def)
  moreover note registered_storlet_loads [where en = container_env and h = ?h and name = "''m.py''" and ops = flow_sample
    and classes = "\<lambda>_. d_storlet sample_daemon" and pool = 3 and w = "()", OF _ _ _ _ _ refl]
  moreover have "hdr ?h = ?hs" by (simp add: sample_handler_def sample_req_def)
  ultimately show ?thesis by metis
qed

text \<open>C3: An object goes through a storlet and comes back unchanged. The descriptors of a run without a range, sent as an execute
  command, arrive at the daemon with its own numbers; the daemon runs the simple sample on what the gateway wrote into the input
  pipe; the iterator of the gateway over the output pipe, however the kernel cuts the data, yields exactly the bytes of the object,
  and the metadata read from the metadata pipe is that of the request with the key the sample adds.\<close>

theorem object_through_storlet:
  assumes "remote_fds (i, w0) = (Inr rs, s0)" "\<not> has_range (srequest i)" "extra_data_sources i = []"
    "user_metadata (inv_data i) = JObj md" "json_ok (JObj md)"
    "ss = SBusFileDescriptor SBUS_FD_SERVICE_OUT wfd [] JNull # rs" "build_datagram SBUS_CMD_EXECUTE ss ps tid = Inr dt"
    "dtg_ok dt" "wire_size dt \<le> MAX_MSG_LENGTH" "length kfds = length ss"
    "content (kfds ! 1) = \<lparr>r_content = obj, r_pos = 0, r_closed = False\<rparr>"
    "d_storlet s = as_storlet (SimpleStorlet daemon_files)"
    "list_all (\<lambda>e. case e of Ready _ \<Rightarrow> True | _ \<Rightarrow> False) env"
    "invocation_env ops open_fds rest ok" "ok w" "metadata_read_fd i = Some fd" "fd \<in> open_fds w"
  shows "\<exists>dr lg ins g cs f. SBus_receive 0 (sbus_recv_msg kfds (dump_data_to_bytestream (send_message dt)) junk) = Inr (Some dr) \<and>
    execute_storlet content dr s = (Inr (), Some (lg, ins, [g])) \<and>
    drain (fdi_next CHUNK) (length (w_data (out_obj g)) + 1) (FileDescriptorIterator ofd (w_data (out_obj g)) env cancel) = Some (Inr cs, f) \<and>
    concat cs = obj \<and>
    (\<forall>w1 w2. select_read ops fd w = (Inr [fd], w1) \<and> os_read (io ops) fd MAX_METADATA_SIZE w1 = (Inr (w_data (out_md g)), w2) \<longrightarrow>
      (\<exists>w'. read_metadata ops (i, w) = (Inr (JObj (dict_set ''test'' (JStr ''simple'') md)), (i, w'))))"
proof -
  let ?md = "JObj (dict_set ''test'' (JStr ''simple'') md)"
  define dr where "dr = dt\<lparr>sfds := renumber kfds ss\<rparr>"
  obtain a out m lg where rs: "rs = [SBusFileDescriptor SBUS_FD_INPUT_OBJECT a [] (JObj md), SBusFileDescriptor SBUS_FD_OUTPUT_OBJECT out [] JNull,
      SBusFileDescriptor SBUS_FD_OUTPUT_OBJECT_METADATA m [] JNull, SBusFileDescriptor SBUS_FD_LOGGER lg [] JNull]"
    using remote_fds_Inr [OF assms(1)] assms(2-4) by (auto simp: range_metadata_def)
  have "length kfds = 5" using assms(6,10) rs by simp
  then obtain k0 k1 k2 k3 k4 where k: "kfds = [k0, k1, k2, k3, k4]" by (auto simp: eval_nat_numeral length_Suc_conv)
  have rcv: "SBus_receive 0 (sbus_recv_msg kfds (dump_data_to_bytestream (send_message dt)) junk) = Inr (Some dr)"
    unfolding dr_def by (rule receive_sent [OF assms(7-9) _ assms(10)]) (simp add: assms(6) rs)
  have "object_in_fds dr = [k1]" "object_in_metadata dr = [JObj md]" "object_in_storlet_metadata dr = [[]]" "object_out_fds dr = [k2]"
    "object_metadata_out_fds dr = [k3]" "logger_out_fd dr = Some k4"
    by (auto simp: dr_def assms(6) rs k renumber_def accessor_defs fd_consts SBusFileDescriptor_def)
  moreover have "content k1 = \<lparr>r_content = obj, r_pos = 0, r_closed = False\<rparr>" "dict_ok md" using k assms(5,11) by simp_all
  ultimately obtain l ins g where g: "execute_storlet content dr s = (Inr (), Some (l, ins, [g]))" "w_data (out_obj g) = obj"
      "w_data (out_md g) = utf8_encode (dumps ?md)"
    using simple_run [where content = content and i = k1 and c = obj, OF assms(12)] by blast
  let ?o = "w_data (out_obj g)"
  have ok: "json_ok ?md" using assms(5) by (rule json_ok_dict_set) simp
  have "rbind (utf8_decode (w_data (out_md g))) loads = Inr ?md"
    unfolding g(3) js.utf8_enc [OF ok] js.utf8_dec_enc [OF ok] using js.dec_enc [OF ok] by (simp del: dumps.simps)
  then have "\<exists>w'. read_metadata ops (i, w) = (Inr ?md, (i, w'))"
    if "select_read ops fd w = (Inr [fd], w1)" "os_read (io ops) fd MAX_METADATA_SIZE w1 = (Inr (w_data (out_md g)), w2)" for w1 w2
    using invocation_env.read_metadata_decoded [OF assms(14-17) that] by blast
  moreover have "\<exists>cs f. drain (fdi_next CHUNK) (length ?o + 1) (FileDescriptorIterator ofd ?o env cancel) = Some (Inr cs, f) \<and> concat cs = obj"
    using fdi.drain_all [of "FileDescriptorIterator ofd ?o env cancel" "length ?o + 1"] assms(13) g(2)
    by (auto simp: fdi_ok_def fdi_rest_def FileDescriptorIterator_def)
  ultimately show ?thesis using rcv g(1) by blast
qed

definition whole_inv :: invocation where
  "whole_inv = sample_inv\<lparr>srequest := sample_request\<lparr>cr_request := (cr_request sample_request)\<lparr>sr_data :=
      \<lparr>user_metadata = JObj [(''k'', JStr ''v'')], data_fd = Some 4, sd_data_iter = None, sd_timeout = 10, sd_cancel = False\<rparr>\<rparr>\<rparr>,
     data_write_fd := Some 5, metadata_write_fd := Some 6\<rparr>"

lemma whole_remote: "remote_fds (whole_inv, w) = (Inr (tl (sfds plain_datagram)), (whole_inv, w))"
  by (simp add: remote_fds_def log_getfd_def eff_defs whole_inv_def sample_inv_def fd_arg_def input_data_read_fd_def sample_request_def
      has_fd_def range_metadata_def has_range_def plain_datagram_def)

lemma plain_built: "build_datagram SBUS_CMD_EXECUTE (sfds plain_datagram) (params plain_datagram) (task_id plain_datagram) = Inr plain_datagram"
  by code_simp

lemma plain_ok: "dtg_ok plain_datagram"
  by code_simp

lemma plain_wire: "wire_size plain_datagram \<le> MAX_MSG_LENGTH"
  by code_simp

theorem object_through_storlet_witness:
  "\<exists>dr lg ins g cs f. SBus_receive 0 (sbus_recv_msg [1, 2, 3, 4, 5] (dump_data_to_bytestream (send_message plain_datagram)) ''xyz'') = Inr (Some dr) \<and>
     execute_storlet sample_content dr (sample_daemon\<lparr>d_storlet := as_storlet (SimpleStorlet daemon_files)\<rparr>) = (Inr (), Some (lg, ins, [g])) \<and>
     drain (fdi_next CHUNK) (length (w_data (out_obj g)) + 1) (FileDescriptorIterator 10 (w_data (out_obj g)) [Ready 2, Ready 1] None) = Some (Inr cs, f) \<and>
     concat cs = ''hello''"
proof -
  let ?w = "\<lparr>hp_served = sample_served\<lparr>sv_open := [4]\<rparr>, hp_data = (\<lambda>_. ''{}'')\<rparr> :: nat host"
  let ?s = "sample_daemon\<lparr>d_storlet := as_storlet (SimpleStorlet daemon_files)\<rparr>"
  have i: "\<not> has_range (srequest whole_inv)" "extra_data_sources whole_inv = []" "user_metadata (inv_data whole_inv) = JObj [(''k'', JStr ''v'')]"
    "metadata_read_fd whole_inv = Some 4"
    by (simp_all add: whole_inv_def sample_inv_def sample_request_def has_range_def)
  have ss: "sfds plain_datagram = SBusFileDescriptor SBUS_FD_SERVICE_OUT 3 [] JNull # tl (sfds plain_datagram)" "length (sfds plain_datagram) = 5"
    by (simp_all add: plain_datagram_def)
  have "json_ok (JObj [(''k'', JStr ''v'')])" by (simp add: dict_ok_def)
  moreover have "length [1, 2, 3, 4, 5 :: int] = length (sfds plain_datagram)" by (simp add: ss(2))
  moreover have "sample_content ([1, 2, 3, 4, 5] ! 1) = \<lparr>r_content = ''hello'', r_pos = 0, r_closed = False\<rparr>" by (simp add: sample_content_def)
  moreover have "d_storlet ?s = as_storlet (SimpleStorlet daemon_files)" by simp
  moreover have "list_all (\<lambda>e. case e of Ready _ \<Rightarrow> True | _ \<Rightarrow> False) [Ready 2, Ready 1]" by simp
  moreover have "sv_ok (hp_served ?w)" "4 \<in> set (sv_open (hp_served ?w))" by (simp_all add: sv_ok_def sample_served_def)
  ultimately show ?thesis
    using object_through_storlet [where content = sample_content and obj = "''hello''" and s = ?s and kfds = "[1, 2, 3, 4, 5]" and w = ?w
        and junk = "''xyz''" and ofd = 10 and env = "[Ready 2, Ready 1]" and cancel = None,
        OF whole_remote [of "()"] i(1-3) _ ss(1) plain_built plain_ok plain_wire _ _ _ _ no_server_env _ i(4)] by blast
qed

text \<open>C23: What the gateway asks for is what the processes in the container get. The command of a container is read back by the factory
  as its pipe, its log level and the name of the container; the arguments of a Python daemon that this factory starts are read
  back by the daemon as the storlet, the pipe, the level and the pool size of the request, with the same name.\<close>

theorem command_lines_read_back:
  assumes "list_all (\<lambda>a. \<not> startswith a ''-'') [storlet_daemon_factory_debug_level sb, cname, name, uds, level]" "0 \<le> pool"
  shows "\<exists>fo args e. factory_parse_args options (get_container_command sb cname) = Inr fo \<and>
    fa_sbus_path fo = sandbox_factory_pipe \<and> fa_log_level fo = storlet_daemon_factory_debug_level sb \<and>
    get_python_args environ (StorletDaemonFactory_init (fa_container_id fo) w) (JStr name) (JInt pool) (JStr uds) (JStr level) version
      = Inr (map JStr args, e) \<and>
    daemon_parse_args options (drop 2 args) = Inr \<lparr>do_storlet_name = name, do_sbus_path = uds, do_log_level = level,
      do_pool_size = pool, do_container_id = cname\<rparr>"
proof -
  have pipe: "\<not> startswith sandbox_factory_pipe ''-''" by code_simp
  have digits: "\<not> startswith (int_str pool) ''-''"
    using nat_str_Cons [of "nat pool"] assms(2) by (auto simp: int_str_def startswith_def is_digit_def)
  let ?fo = "\<lparr>fa_sbus_path = sandbox_factory_pipe, fa_log_level = storlet_daemon_factory_debug_level sb, fa_container_id = cname\<rparr>"
  have "factory_parse_args options (get_container_command sb cname) = Inr ?fo"
    using assms(1) pipe by (simp add: factory_parse_args_def get_container_command_def parse_args_positional)
  moreover have "daemon_parse_args options [name, uds, level, int_str pool, cname] = Inr \<lparr>do_storlet_name = name, do_sbus_path = uds,
      do_log_level = level, do_pool_size = pool, do_container_id = cname\<rparr>"
    using assms(1) digits by (simp add: daemon_parse_args_def parse_args_positional py_int_int_str)
  moreover obtain p q e where "get_python_args environ (StorletDaemonFactory_init cname w) (JStr name) (JInt pool) (JStr uds) (JStr level) version
      = Inr (map JStr [p, q, name, uds, level, int_str pool, cname], e)"
    by (simp add: get_python_args_def Let_def StorletDaemonFactory_init_def)
  ultimately show ?thesis
    by (intro exI [of _ ?fo] exI [of _ "[p, q, name, uds, level, int_str pool, cname]"] exI [of _ e]) simp
qed

theorem command_lines_read_back_witness:
  "\<exists>args e. get_python_args [] (StorletDaemonFactory_init ''c1'' ()) (JStr ''m.C'') (JInt 5) (JStr ''/p'') (JStr ''DEBUG'') JNull
      = Inr (map JStr args, e) \<and>
    daemon_parse_args Inr (drop 2 args) = Inr \<lparr>do_storlet_name = ''m.C'', do_sbus_path = ''/p'', do_log_level = ''DEBUG'',
      do_pool_size = 5, do_container_id = ''c1''\<rparr>"
proof -
  let ?sb = "sample_sandbox\<lparr>storlet_daemon_factory_debug_level := ''INFO''\<rparr>"
  have "list_all (\<lambda>a. \<not> startswith a ''-'') [storlet_daemon_factory_debug_level ?sb, ''c1'', ''m.C'', ''/p'', ''DEBUG'']"
    by (simp add: startswith_def)
  from command_lines_read_back [OF this, of 5 Inr "[]" "()" JNull] show ?thesis
    by (auto simp: factory_parse_args_def get_container_command_def parse_args_def)
qed

end
